(* ===== verification/Prelude.thy ===== *)
theory Prelude
  imports Main "HOL-Library.Word"
begin

text \<open>
  Shared vocabulary of the deblocus development: the byte and integer types of the Go
  sources, the big-endian field codec of Go's \<open>encoding/binary\<close> package (a library the
  sources only call, so it is stated here once and used by every component), and the
  generic list lemmas the component proofs share.  The collection \<open>wire_simps\<close> gathers
  the equations that evaluate a wire encoding on concrete bytes.
\<close>

unbundle bit_operations_syntax

named_theorems wire_simps "equations that evaluate wire encodings"

type_synonym byte = "8 word"
type_synonym bytes = "byte list"
type_synonym u16 = "16 word"
type_synonym u32 = "32 word"
type_synonym i64 = "64 word"

subsection \<open>Big-endian fields (Go \<open>binary.BigEndian\<close>)\<close>

text \<open>
  \<open>PutUint16\<close>/\<open>PutUint32\<close> write the most significant byte first.  \<open>Uint16\<close> and
  \<open>Uint32\<close> index \<open>b[1]\<close> (resp. \<open>b[3]\<close>) first and panic on a shorter slice: the
  readers return \<open>None\<close> there.
\<close>

definition be16_put :: "u16 \<Rightarrow> bytes" where
  "be16_put v = [ucast (drop_bit 8 v), ucast v]"

fun be16_get :: "bytes \<Rightarrow> u16 option" where
  "be16_get (h # l # _) = Some (push_bit 8 (ucast h) OR ucast l)"
| "be16_get _ = None"

definition be32_put :: "u32 \<Rightarrow> bytes" where
  "be32_put v = [ucast (drop_bit 24 v), ucast (drop_bit 16 v), ucast (drop_bit 8 v), ucast v]"

fun be32_get :: "bytes \<Rightarrow> u32 option" where
  "be32_get (a # b # c # d # _) =
     Some (push_bit 24 (ucast a) OR push_bit 16 (ucast b) OR push_bit 8 (ucast c) OR ucast d)"
| "be32_get _ = None"

text \<open>A fixed-size Go buffer \<open>make([]byte, n)\<close> filled with a shorter prefix keeps zeros behind it.\<close>

definition pad_to :: "nat \<Rightarrow> bytes \<Rightarrow> bytes" where
  "pad_to n xs = take n xs @ replicate (n - length xs) 0"

subsection \<open>Lemmas\<close>

text \<open>The functions of Go's \<open>strings\<close> package the code uses, on byte strings.\<close>

definition HasPrefix :: "string \<Rightarrow> string \<Rightarrow> bool" where
  "HasPrefix s p = (take (length p) s = p)"

fun Contains :: "string \<Rightarrow> string \<Rightarrow> bool" where
  "Contains [] sub = (sub = [])"
| "Contains (c # s) sub = (HasPrefix (c # s) sub \<or> Contains s sub)"

text \<open>\<open>strings.SplitN(s, sep, 2)\<close> for a non-empty separator: the text before the first
  occurrence and the rest after it, or \<open>[s]\<close> when \<open>sep\<close> does not occur.\<close>

fun SplitN2 :: "string \<Rightarrow> string \<Rightarrow> string list" where
  "SplitN2 [] sep = [[]]"
| "SplitN2 (c # s) sep =
     (if HasPrefix (c # s) sep then [[], drop (length sep) (c # s)]
      else (case SplitN2 s sep of x # rest \<Rightarrow> (c # x) # rest | [] \<Rightarrow> [[c]]))"

lemma byte_bit_high: "8 \<le> n \<Longrightarrow> \<not> bit (x::byte) n"
  using bit_imp_le_length [of x n] by (cases "bit x n") simp_all

lemma be16_roundtrip [wire_simps]: "be16_get (be16_put v @ rest) = Some v"
  by (simp add: be16_put_def) (rule bit_word_eqI; auto simp: bit_simps)

lemma be16_get_Some_take: "be16_get bs = Some v \<Longrightarrow> take 2 bs = be16_put v"
  apply (cases bs rule: be16_get.cases; simp add: be16_put_def)
  apply (intro conjI; rule bit_word_eqI; auto simp: bit_simps byte_bit_high)
  done

lemma be16_get_None_iff: "be16_get bs = None \<longleftrightarrow> length bs < 2"
  by (cases bs rule: be16_get.cases) auto

lemma be16_put_length [simp]: "length (be16_put v) = 2"
  by (simp add: be16_put_def)

lemma be32_roundtrip [wire_simps]: "be32_get (be32_put v @ rest) = Some v"
  apply (simp add: be32_put_def)
  apply (rule bit_word_eqI)
  subgoal for n by (cases "n < 8"; cases "n < 16"; cases "n < 24") (auto simp: bit_simps)
  done

lemma be32_put_length [simp]: "length (be32_put v) = 4"
  by (simp add: be32_put_def)

lemma be32_get_None_iff: "be32_get bs = None \<longleftrightarrow> length bs < 4"
  by (cases bs rule: be32_get.cases) auto

lemma pad_to_length [simp]: "length (pad_to n xs) = n"
  by (simp add: pad_to_def)

lemma pad_to_id [simp]: "length xs = n \<Longrightarrow> pad_to n xs = xs"
  by (simp add: pad_to_def)

lemma concat_fixed_nth:
  "\<forall>t \<in> set ts. length t = k \<Longrightarrow> i < length ts \<Longrightarrow> take k (drop (i * k) (concat ts)) = ts ! i"
proof (induction ts arbitrary: i)
  case (Cons t ts)
  show ?case
  proof (cases i)
    case (Suc j)
    with Cons have "take k (drop (j * k) (concat ts)) = ts ! j" by simp
    with Cons.prems Suc show ?thesis by (simp add: add.commute)
  qed (use Cons.prems in simp)
qed simp

lemma concat_fixed_length:
  "\<forall>t \<in> set ts. length t = k \<Longrightarrow> length (concat ts) = length ts * k"
  by (induction ts) auto

lemma list_length2: "length xs = 2 \<Longrightarrow> xs = [xs ! 0, xs ! 1]"
  by (auto simp: numeral_2_eq_2 length_Suc_conv)

lemma unat_byte_lt: "unat (x :: byte) < 256"
  using unsigned_less [of x] by simp

lemma mask_ff_32: "(0xff :: u32) = mask 8" and mask_ffff_32: "(0xffff :: u32) = mask 16"
  by (simp_all add: mask_numeral)

lemma unat_ucast_up:
  "LENGTH('a) \<le> LENGTH('b) \<Longrightarrow> unat (ucast (w :: 'a::len word) :: 'b::len word) = unat w"
proof -
  assume le: "LENGTH('a) \<le> LENGTH('b)"
  have "unat w < 2 ^ LENGTH('a)" by simp
  then have "unat w < 2 ^ LENGTH('b)"
    using power_increasing [OF le, of "2 :: nat"] by linarith
  then show ?thesis by (simp add: unsigned_ucast_eq take_bit_nat_eq_self_iff)
qed


lemma HasPrefix_append_long:
  "length p \<le> length s \<Longrightarrow> HasPrefix (s @ t) p = HasPrefix s p"
  by (simp add: HasPrefix_def)

lemma SplitN2_none: "\<not> Contains s sep \<Longrightarrow> SplitN2 s sep = [s]"
  by (induction s) auto

lemma SplitN2_first:
  assumes "\<not> Contains (a @ butlast sep) sep" "sep \<noteq> []"
  shows "SplitN2 (a @ sep @ b) sep = [a, b]"
  using assms
proof (induction a)
  case Nil
  then obtain c s where "sep = c # s" by (cases sep) auto
  then show ?case by (simp add: HasPrefix_def)
next
  case (Cons c a)
  have l: "length sep \<le> length (c # a @ butlast sep)" using Cons.prems(2) by simp
  have "\<not> HasPrefix (c # a @ sep @ b) sep"
  proof -
    have e: "c # a @ sep @ b = (c # a @ butlast sep) @ (last sep # b)"
      using Cons.prems(2) by simp
    have "\<not> HasPrefix (c # a @ butlast sep) sep" using Cons.prems(1) by simp
    then show ?thesis by (subst e, subst HasPrefix_append_long [OF l])
  qed
  then show ?case using Cons by simp
qed


lemma HasPrefix_Contains: "HasPrefix s p \<Longrightarrow> Contains s p"
  by (cases s) (auto simp: HasPrefix_def)

lemma Contains_mid: "Contains (a @ p @ b) p"
  by (induction a) (auto intro: HasPrefix_Contains simp: HasPrefix_def)

end
