(* ===== verification/Wire.thy ===== *)
theory Wire
  imports Prelude
begin

text \<open>
  The byte-level layer of the handshake (\<open>src/tunnel/d5.go\<close>): the protocol constants,
  the additive D5 markers \<open>d5Sub\<close>/\<open>d5SumValid\<close>, \<open>ito4b\<close>, \<open>randArray\<close>, and the
  reads of a connection.  A connection is the record \<open>hconn\<close> of the hashed
  connection the handshake runs on (its Go type is not under \<open>src/\<close>; modelled from the
  spec, section 4.5): the peer's bytes not yet read, as the chunks successive \<open>Read\<close>
  calls are served, and the logs of every plaintext byte read and written, over which
  \<open>RHashSum\<close>/\<open>WHashSum\<close> are computed.  \<open>conn_read\<close> is one \<open>Read\<close> (it may return
  fewer bytes than asked for), \<open>read_full\<close> is \<open>io.ReadFull\<close>, and \<open>ReadFullByLen\<close> is the
  length-prefixed read of \<open>d5.go\<close>.
\<close>

unbundle bit_operations_syntax

subsection \<open>Constants\<close>

definition D5 :: byte where "D5 = 0xd5"
definition TKSZ :: nat where "TKSZ = 20"
definition DMLEN1 :: nat where "DMLEN1 = 384"
definition DMLEN2 :: nat where "DMLEN2 = TKSZ + 2"
definition TUN_PARAMS_LEN :: nat where "TUN_PARAMS_LEN = 32"

lemmas wire_consts [wire_simps] = D5_def TKSZ_def DMLEN1_def DMLEN2_def TUN_PARAMS_LEN_def

subsection \<open>The D5 markers\<close>

text \<open>
  \<open>d5Sub(a) = byte(D5 - int(int8(a)))\<close>: the signed reading of \<open>a\<close>, subtracted from
  213 in Go's \<open>int\<close>, truncated to a byte.  \<open>d5SumValid(a, b)\<close> adds the two signed
  bytes in \<open>int8\<close> (wrapping), converts to \<open>uint\<close> (sign extension to 64 bits), masks
  with \<open>0xff\<close> and compares with \<open>D5\<close>.
\<close>

definition d5Sub :: "byte \<Rightarrow> byte" where
  "d5Sub a = word_of_int (213 - sint a)"

definition d5SumValid :: "byte \<Rightarrow> byte \<Rightarrow> bool" where
  "d5SumValid a b =
     ((word_of_int (signed_take_bit 7 (sint a + sint b)) :: 64 word) AND 0xff = ucast D5)"

definition ito4b :: "u32 \<Rightarrow> bytes" where
  "ito4b v = be32_put v"

text \<open>
  The random source is an explicit stream \<open>nat \<Rightarrow> byte\<close> with a read position:
  \<open>randArray(aLen, randLen)\<close> is called with \<open>aLen = randLen\<close> only, and then fills the
  whole array from \<open>crypto/rand\<close>.
\<close>

record rng =
  rng_src :: "nat \<Rightarrow> byte"
  rng_pos :: nat

definition randArray :: "nat \<Rightarrow> rng \<Rightarrow> bytes \<times> rng" where
  "randArray n g = (map (rng_src g) [rng_pos g ..< rng_pos g + n], g\<lparr>rng_pos := rng_pos g + n\<rparr>)"

subsection \<open>Connections and reads\<close>

datatype io_error = EOF | ErrUnexpectedEOF

record hconn =
  hc_in :: "bytes list"
  hc_rlog :: bytes
  hc_wlog :: bytes

text \<open>
  One \<open>Read(b)\<close> with \<open>len(b) = n\<close>: an empty buffer returns at once; a closed peer is
  \<open>EOF\<close>; otherwise the bytes of the next chunk, at most \<open>n\<close> of them.
\<close>

fun chunk_read :: "nat \<Rightarrow> bytes list \<Rightarrow> bytes \<times> io_error option \<times> bytes list" where
  "chunk_read 0 cs = ([], None, cs)"
| "chunk_read (Suc k) [] = ([], Some EOF, [])"
| "chunk_read (Suc k) (c # cs) =
     (if c = [] then chunk_read (Suc k) cs
      else if Suc k < length c then (take (Suc k) c, None, drop (Suc k) c # cs)
      else (c, None, cs))"

text \<open>
  \<open>io.ReadFull\<close> calls \<open>Read\<close> until the buffer is full; running out after some bytes
  is \<open>ErrUnexpectedEOF\<close>, before any byte \<open>EOF\<close>.  It returns the bytes it did read.
\<close>

fun chunks_full :: "nat \<Rightarrow> bytes list \<Rightarrow> bytes \<times> io_error option \<times> bytes list" where
  "chunks_full 0 cs = ([], None, cs)"
| "chunks_full (Suc k) [] = ([], Some EOF, [])"
| "chunks_full (Suc k) (c # cs) =
     (if Suc k \<le> length c
      then (take (Suc k) c, None, if Suc k = length c then cs else drop (Suc k) c # cs)
      else (case chunks_full (Suc k - length c) cs of (r, e, rest) \<Rightarrow>
              (c @ r, if e = Some EOF \<and> c @ r \<noteq> [] then Some ErrUnexpectedEOF else e, rest)))"

definition conn_read :: "nat \<Rightarrow> hconn \<Rightarrow> bytes \<times> io_error option \<times> hconn" where
  "conn_read n h = (case chunk_read n (hc_in h) of (r, e, rest) \<Rightarrow>
      (r, e, h\<lparr>hc_in := rest, hc_rlog := hc_rlog h @ r\<rparr>))"

definition read_full :: "nat \<Rightarrow> hconn \<Rightarrow> bytes \<times> io_error option \<times> hconn" where
  "read_full n h = (case chunks_full n (hc_in h) of (r, e, rest) \<Rightarrow>
      (r, e, h\<lparr>hc_in := rest, hc_rlog := hc_rlog h @ r\<rparr>))"

definition conn_write :: "bytes \<Rightarrow> hconn \<Rightarrow> hconn" where
  "conn_write bs h = h\<lparr>hc_wlog := hc_wlog h @ bs\<rparr>"

text \<open>
  \<open>ReadFullByLen(len_inByte, reader)\<close>: one \<open>Read\<close> of the length field (a short read
  leaves zeros in \<open>lb\<close>), the body length decoded for 1, 2 or 4 length bytes (any
  other width leaves \<open>buf\<close> nil), then \<open>io.ReadFull\<close> of the body.  The returned
  buffer has the decoded length even when \<open>ReadFull\<close> stopped early.
\<close>

definition len_field :: "nat \<Rightarrow> bytes \<Rightarrow> nat" where
  "len_field w lb =
     (if w = 1 then unat (hd lb)
      else if w = 2 then unat (the (be16_get lb))
      else if w = 4 then unat (the (be32_get lb))
      else 0)"

definition ReadFullByLen :: "nat \<Rightarrow> hconn \<Rightarrow> bytes \<times> io_error option \<times> hconn" where
  "ReadFullByLen w h =
     (case conn_read w h of (r, e, h1) \<Rightarrow>
        if e \<noteq> None then ([], e, h1)
        else (let n = len_field w (pad_to w r) in
              case read_full n h1 of (b, e2, h2) \<Rightarrow> (pad_to n b, e2, h2)))"

subsection \<open>The markers in word arithmetic\<close>

lemma and_ff_word_of_int: "((word_of_int x :: 64 word) AND 0xff) = word_of_int (take_bit 8 x)"
proof -
  have m: "(0xff :: 64 word) = mask 8" by (simp add: mask_numeral)
  show ?thesis by (simp only: m and_mask_wi)
qed

lemma take_bit_sint_sum: "take_bit 8 (sint (a::byte) + sint b) = uint (a + b)"
proof -
  have "take_bit 8 (sint a + sint b) = take_bit 8 (take_bit 8 (sint a) + take_bit 8 (sint b))"
    by (simp only: take_bit_add)
  also have "\<dots> = take_bit 8 (uint a + uint b)" by (simp add: uint_sint)
  also have "\<dots> = uint (a + b)" by (simp add: uint_word_ariths take_bit_eq_mod)
  finally show ?thesis .
qed

lemma d5SumValid_iff: "d5SumValid a b \<longleftrightarrow> a + b = D5"
proof -
  have w: "(ucast (0xd5 :: byte) :: 64 word) = word_of_int 213" by simp
  have "d5SumValid a b \<longleftrightarrow>
          take_bit 64 (take_bit 8 (signed_take_bit 7 (sint a + sint b))) = take_bit 64 (213::int)"
    unfolding d5SumValid_def and_ff_word_of_int D5_def by (simp only: w word_of_int_eq_iff) simp
  also have "\<dots> \<longleftrightarrow> take_bit 8 (sint a + sint b) = 213"
    by (simp add: take_bit_signed_take_bit)
  also have "\<dots> \<longleftrightarrow> uint (a + b) = uint (0xd5 :: byte)" by (simp add: take_bit_sint_sum)
  finally show ?thesis by (simp only: word_uint_eq_iff D5_def)
qed

lemma d5Sub_eq: "d5Sub a = D5 - a"
  by (simp add: d5Sub_def D5_def wi_hom_syms)

subsection \<open>Reads consume the stream in order\<close>

lemma chunk_read_concat:
  "chunk_read n cs = (r, e, rest) \<Longrightarrow> r @ concat rest = concat cs \<and> length r \<le> n"
  by (induction n cs arbitrary: r e rest rule: chunk_read.induct) (auto split: if_splits)

lemma chunks_full_concat:
  "chunks_full n cs = (r, e, rest) \<Longrightarrow> r @ concat rest = concat cs"
  by (induction n cs arbitrary: r e rest rule: chunks_full.induct)
     (auto split: if_splits prod.splits)

lemma chunks_full_enough:
  "n \<le> length (concat cs) \<Longrightarrow>
     fst (chunks_full n cs) = take n (concat cs) \<and> fst (snd (chunks_full n cs)) = None"
proof (induction n cs rule: chunks_full.induct)
  case (3 k c cs)
  show ?case
  proof (cases "Suc k \<le> length c")
    case False
    with "3.prems" have "Suc k - length c \<le> length (concat cs)" by simp
    with False "3.IH" show ?thesis by (auto split: prod.splits)
  qed simp
qed auto

lemma chunks_full_short:
  "length (concat cs) < n \<Longrightarrow>
     fst (snd (chunks_full n cs)) \<noteq> None \<and> fst (chunks_full n cs) = concat cs"
proof (induction n cs rule: chunks_full.induct)
  case (3 k c cs)
  then show ?case by (auto split: if_splits prod.splits)
qed auto

lemma chunk_read_first:
  "c \<noteq> [] \<Longrightarrow> n \<le> length c \<Longrightarrow> 0 < n \<Longrightarrow>
     chunk_read n (c # cs) = (take n c, None, if n = length c then cs else drop n c # cs)"
  by (cases n) auto

lemma read_full_log:
  "read_full n h = (r, e, h') \<Longrightarrow> hc_rlog h' = hc_rlog h @ r \<and> hc_wlog h' = hc_wlog h
     \<and> r @ concat (hc_in h') = concat (hc_in h)"
  by (auto simp: read_full_def split: prod.splits dest: chunks_full_concat)

lemma conn_read_log:
  "conn_read n h = (r, e, h') \<Longrightarrow> hc_rlog h' = hc_rlog h @ r \<and> hc_wlog h' = hc_wlog h
     \<and> r @ concat (hc_in h') = concat (hc_in h)"
  by (auto simp: conn_read_def split: prod.splits dest: chunk_read_concat)


lemma len_field_be16: "n < 65536 \<Longrightarrow> len_field 2 (pad_to 2 (be16_put (of_nat n))) = n"
  by (simp add: len_field_def be16_roundtrip [where rest = "[]", simplified] unat_of_nat)

lemma conn_read_prefix:
  assumes "hc_in h = (p @ c) # cs" and "length p = n" and "0 < n"
  shows "\<exists>h1. conn_read n h = (p, None, h1) \<and> concat (hc_in h1) = concat (c # cs)
            \<and> hc_rlog h1 = hc_rlog h @ p \<and> hc_wlog h1 = hc_wlog h"
  using assms chunk_read_first [of "p @ c" n cs]
  by (auto simp: conn_read_def)

lemma read_full_prefix:
  assumes "n \<le> length (concat (hc_in h))"
  shows "\<exists>h1. read_full n h = (take n (concat (hc_in h)), None, h1)
            \<and> hc_rlog h1 = hc_rlog h @ take n (concat (hc_in h))
            \<and> concat (hc_in h1) = drop n (concat (hc_in h))"
proof -
  obtain r e rest where rf: "chunks_full n (hc_in h) = (r, e, rest)"
    by (cases "chunks_full n (hc_in h)") auto
  with chunks_full_enough [OF assms] have r: "r = take n (concat (hc_in h))" and e: "e = None"
    by auto
  from rf have "r @ concat rest = concat (hc_in h)" by (rule chunks_full_concat)
  then have "concat rest = drop n (concat (hc_in h))"
    using r assms by (metis append_take_drop_id same_append_eq)
  then show ?thesis using rf r e by (simp add: read_full_def)
qed
text \<open>
  A length-prefixed block written in one piece is read back whole, however the body is
  chunked after the two length bytes, and the read log grows by exactly the block.
\<close>

lemma ReadFullByLen_block:
  assumes len: "length b < 65536"
      and chunks: "hc_in h = (be16_put (of_nat (length b)) @ c) # cs"
      and body: "take (length b) (concat (c # cs)) = b" "length b \<le> length (concat (c # cs))"
  shows "fst (ReadFullByLen 2 h) = b \<and> fst (snd (ReadFullByLen 2 h)) = None
         \<and> hc_rlog (snd (snd (ReadFullByLen 2 h))) = hc_rlog h @ be16_put (of_nat (length b)) @ b
         \<and> concat (hc_in (snd (snd (ReadFullByLen 2 h)))) = drop (length b) (concat (c # cs))"
proof -
  obtain h1 where h1: "conn_read 2 h = (be16_put (of_nat (length b)), None, h1)"
      "concat (hc_in h1) = concat (c # cs)" "hc_rlog h1 = hc_rlog h @ be16_put (of_nat (length b))"
    using conn_read_prefix [OF chunks] by auto
  have lf: "len_field 2 (pad_to 2 (be16_put (of_nat (length b)))) = length b"
    using len by (rule len_field_be16)
  obtain e h2 where h2: "read_full (length b) h1 = (take (length b) (concat (hc_in h1)), None, h2)"
      "hc_rlog h2 = hc_rlog h1 @ take (length b) (concat (hc_in h1))"
      "concat (hc_in h2) = drop (length b) (concat (hc_in h1))"
    using read_full_prefix [of "length b" h1] body h1(2) by auto
  show ?thesis
    using h1 h2 lf body by (simp add: ReadFullByLen_def)
qed


text \<open>Reads of a chunk longer or shorter than the request, and a length-prefixed block
  received whole.\<close>

lemma chunk_read_whole:
  "c \<noteq> [] \<Longrightarrow> length c \<le> n \<Longrightarrow> chunk_read n (c # cs) = (c, None, cs)"
  by (cases n) auto

lemma chunks_full_first:
  "n < length c \<Longrightarrow> 0 < n \<Longrightarrow> chunks_full n (c # cs) = (take n c, None, drop n c # cs)"
  by (cases n) auto

lemma ReadFullByLen_block_eq:
  assumes "length b < 65536" "hc_in h = (be16_put (of_nat (length b)) @ b) # cs"
  shows "\<exists>h1. ReadFullByLen 2 h = (b, None, h1) \<and> hc_rlog h1 = hc_rlog h @ be16_put (of_nat (length b)) @ b
            \<and> concat (hc_in h1) = concat cs \<and> hc_wlog h1 = hc_wlog h"
proof -
  have "fst (ReadFullByLen 2 h) = b \<and> fst (snd (ReadFullByLen 2 h)) = None
         \<and> hc_rlog (snd (snd (ReadFullByLen 2 h))) = hc_rlog h @ be16_put (of_nat (length b)) @ b
         \<and> concat (hc_in (snd (snd (ReadFullByLen 2 h)))) = drop (length b) (concat (b # cs))"
    using ReadFullByLen_block [OF assms(1) assms(2)] by simp
  moreover have "hc_wlog (snd (snd (ReadFullByLen 2 h))) = hc_wlog h"
    by (auto simp: ReadFullByLen_def conn_read_def read_full_def Let_def split: prod.splits)
  ultimately show ?thesis by (metis prod.collapse append_eq_conv_conj concat.simps(2) length_append)
qed

lemma conn_read_long_chunk:
  "hc_in h = c # cs \<Longrightarrow> n < length c \<Longrightarrow> 0 < n \<Longrightarrow>
     conn_read n h = (take n c, None, h\<lparr>hc_in := drop n c # cs, hc_rlog := hc_rlog h @ take n c\<rparr>)"
  by (cases n) (auto simp: conn_read_def)

end
