(* ===== verification/Exception.thy ===== *)
theory Exception
  imports Prelude
begin

text \<open>
  The exception package (\<open>src/exception/exception.go\<close>) and the exception values the
  tunnel package declares (\<open>src/tunnel/d5.go\<close>, \<open>src/tunnel/cipher.go\<close>).  An
  \<open>Exception\<close> is a record of message, code and warning flag; \<open>Apply\<close> derives a new
  exception with an appended message; \<open>CatchException\<close> classifies a recovered panic
  value into the log line it produces.  Panic values are the datatype \<open>panic_val\<close>:
  an exception, a string, another error (by its message), or nil.
\<close>

record exception =
  ex_msg :: string
  ex_code :: int
  ex_warning :: bool

definition NewW :: "string \<Rightarrow> exception" where
  "NewW msg = \<lparr>ex_msg = msg, ex_code = 0, ex_warning = True\<rparr>"

definition New :: "int \<Rightarrow> string \<Rightarrow> exception" where
  "New code msg = \<lparr>ex_msg = msg, ex_code = code, ex_warning = False\<rparr>"

text \<open>
  \<open>Apply\<close> formats \<open>"%s %v"\<close> of the message and the appendage (given here as the text
  \<open>%v\<close> prints) and copies the code; the fresh \<open>Exception\<close> has the zero value for
  \<open>warning\<close>.
\<close>

text \<open>The accessors of \<open>*Exception\<close>; \<open>Error\<close> makes it a Go \<open>error\<close>.\<close>

definition Error :: "exception \<Rightarrow> string" where "Error e = ex_msg e"

definition Code :: "exception \<Rightarrow> int" where "Code e = ex_code e"

definition Warning :: "exception \<Rightarrow> bool" where "Warning e = ex_warning e"

definition Apply :: "exception \<Rightarrow> string \<Rightarrow> exception" where
  "Apply e appendage =
     \<lparr>ex_msg = ex_msg e @ '' '' @ appendage, ex_code = ex_code e, ex_warning = False\<rparr>"

datatype panic_val = PNil | PExc exception | PStr string | PErr string

datatype log_action = NoLog | LogErrorln string | LogWarningln string | PrintStack string

fun panic_text :: "panic_val \<Rightarrow> string" where
  "panic_text PNil = ''''"
| "panic_text (PExc e) = ex_msg e"
| "panic_text (PStr s) = s"
| "panic_text (PErr s) = s"

definition CatchException :: "bool \<Rightarrow> panic_val \<Rightarrow> log_action \<times> bool" where
  "CatchException debug p =
     (case p of
        PExc ex \<Rightarrow> if ex_warning ex then (LogErrorln (ex_msg ex), True)
                   else if debug then (PrintStack (ex_msg ex), True)
                   else (LogErrorln (ex_msg ex), True)
      | PNil \<Rightarrow> (NoLog, False)
      | PStr s \<Rightarrow> if debug then (PrintStack s, True) else (LogWarningln s, True)
      | PErr s \<Rightarrow> if debug then (PrintStack s, True) else (LogErrorln s, True))"

subsection \<open>The exceptions of the tunnel package\<close>

definition INVALID_SOCKS5_HEADER :: exception where
  "INVALID_SOCKS5_HEADER = New 0xff ''Invalid socks5 header''"
definition INVALID_SOCKS5_REQUEST :: exception where
  "INVALID_SOCKS5_REQUEST = New 0x07 ''Invalid socks5 request''"
definition GENERAL_FAILURE :: exception where
  "GENERAL_FAILURE = New 0x01 ''General failure''"
definition HOST_UNREACHABLE :: exception where
  "HOST_UNREACHABLE = New 0x04 ''Host is unreachable''"

definition INVALID_D5PARAMS :: exception where
  "INVALID_D5PARAMS = NewW ''Invalid D5Params''"
definition D5SER_UNREACHABLE :: exception where
  "D5SER_UNREACHABLE = NewW ''D5Server is unreachable''"
definition VALIDATION_FAILED :: exception where
  "VALIDATION_FAILED = NewW ''Validation failed''"
definition NEGOTIATION_FAILED :: exception where
  "NEGOTIATION_FAILED = NewW ''Negotiation failed''"
definition DATATUN_SESSION :: exception where
  "DATATUN_SESSION = NewW ''DT''"
definition INCONSISTENT_HASH :: exception where
  "INCONSISTENT_HASH = NewW ''Inconsistent hash''"
definition INCOMPATIBLE_VERSION :: exception where
  "INCOMPATIBLE_VERSION = NewW ''Incompatible version''"
definition UNSUPPORTED_CIPHER :: exception where
  "UNSUPPORTED_CIPHER = NewW ''Unsupported cipher''"

text \<open>\<open>auth.AUTH_FAILED\<close> is declared outside \<open>src/\<close>; the spec names it as a warning kind.\<close>

definition AUTH_FAILED :: exception where
  "AUTH_FAILED = NewW ''Auth failed''"

lemmas exception_defs = NewW_def New_def INVALID_SOCKS5_HEADER_def INVALID_SOCKS5_REQUEST_def
  GENERAL_FAILURE_def HOST_UNREACHABLE_def INVALID_D5PARAMS_def D5SER_UNREACHABLE_def
  VALIDATION_FAILED_def NEGOTIATION_FAILED_def DATATUN_SESSION_def INCONSISTENT_HASH_def
  INCOMPATIBLE_VERSION_def UNSUPPORTED_CIPHER_def AUTH_FAILED_def

lemma exceptions_distinct:
  "distinct [VALIDATION_FAILED, NEGOTIATION_FAILED, DATATUN_SESSION, INCONSISTENT_HASH,
             INCOMPATIBLE_VERSION, AUTH_FAILED, D5SER_UNREACHABLE, INVALID_D5PARAMS]"
  by (simp add: exception_defs)

end
