(* ===== verification/Session.thy ===== *)
theory Session
  imports Wire
begin

text \<open>
  The session and token manager.  Its Go source (\<open>Session\<close>, \<open>NewSession\<close> and the
  \<open>sessionMgr\<close> with \<open>createTokens\<close> and \<open>take\<close>) is not under \<open>src/\<close>: \<open>d5.go\<close>
  only calls it.  It is modelled from the spec (section 4.4).  Sessions live in an
  explicit store indexed by \<open>sid\<close> (the Go pointers); the manager maps each token (20
  random bytes) to the session it was minted for.  \<open>createTokens\<close> draws the tokens
  from the random stream of \<open>Wire\<close> and installs them in order; \<open>take\<close> is the atomic
  lookup-and-remove; \<open>remove\<close> drops a session and every token that names it.
\<close>

type_synonym sid = nat

record session =
  sess_identity :: string
  sess_key :: bytes

record smgr =
  sm_sessions :: "sid \<rightharpoonup> session"
  sm_tokens :: "bytes \<rightharpoonup> sid"
  sm_next :: sid

definition smgr_empty :: smgr where
  "smgr_empty = \<lparr>sm_sessions = Map.empty, sm_tokens = Map.empty, sm_next = 0\<rparr>"

definition NewSession :: "string \<Rightarrow> bytes \<Rightarrow> smgr \<Rightarrow> sid \<times> smgr" where
  "NewSession ident key m =
     (sm_next m, m\<lparr>sm_sessions := (sm_sessions m)(sm_next m \<mapsto> \<lparr>sess_identity = ident, sess_key = key\<rparr>),
                   sm_next := Suc (sm_next m)\<rparr>)"

fun mint :: "sid \<Rightarrow> nat \<Rightarrow> rng \<Rightarrow> (bytes \<rightharpoonup> sid) \<Rightarrow> bytes list \<times> rng \<times> (bytes \<rightharpoonup> sid)" where
  "mint s 0 g tk = ([], g, tk)"
| "mint s (Suc n) g tk =
     (case randArray TKSZ g of (t, g1) \<Rightarrow>
        case mint s n g1 (tk(t \<mapsto> s)) of (ts, g2, tk2) \<Rightarrow> (t # ts, g2, tk2))"

definition createTokens :: "sid \<Rightarrow> nat \<Rightarrow> rng \<Rightarrow> smgr \<Rightarrow> bytes \<times> rng \<times> smgr" where
  "createTokens s n g m =
     (case mint s n g (sm_tokens m) of (ts, g', tk') \<Rightarrow> (concat ts, g', m\<lparr>sm_tokens := tk'\<rparr>))"

definition take_token :: "bytes \<Rightarrow> smgr \<Rightarrow> sid option \<times> smgr" where
  "take_token t m = (sm_tokens m t, m\<lparr>sm_tokens := (sm_tokens m)(t := None)\<rparr>)"

definition remove_session :: "sid \<Rightarrow> smgr \<Rightarrow> smgr" where
  "remove_session s m =
     m\<lparr>sm_sessions := (sm_sessions m)(s := None),
       sm_tokens := (\<lambda>t. if sm_tokens m t = Some s then None else sm_tokens m t)\<rparr>"

text \<open>
  The manager is shared by every handshake of the server; its operations interleave in
  any order.  \<open>smgr_step\<close> is one operation of any client (the session passed to
  \<open>createTokens\<close> is one \<open>NewSession\<close> made), \<open>smgr_reach\<close> the states reachable
  from the empty manager.  \<open>mgr_run\<close> runs a given sequence of operations and returns
  what each \<open>take\<close> answered.
\<close>

inductive smgr_step :: "rng \<times> smgr \<Rightarrow> rng \<times> smgr \<Rightarrow> bool" where
  new: "NewSession ident key m = (s, m') \<Longrightarrow> smgr_step (g, m) (g, m')"
| create: "s \<in> dom (sm_sessions m) \<Longrightarrow> createTokens s n g m = (out, g', m') \<Longrightarrow>
     smgr_step (g, m) (g', m')"
| take: "take_token t m = (r, m') \<Longrightarrow> smgr_step (g, m) (g, m')"
| remove: "smgr_step (g, m) (g, remove_session s m)"

inductive smgr_reach :: "rng \<times> smgr \<Rightarrow> bool" where
  init: "smgr_reach (g, smgr_empty)"
| step: "smgr_reach x \<Longrightarrow> smgr_step x y \<Longrightarrow> smgr_reach y"

definition smgr_inv :: "smgr \<Rightarrow> bool" where
  "smgr_inv m \<longleftrightarrow> ran (sm_tokens m) \<subseteq> dom (sm_sessions m)
     \<and> dom (sm_sessions m) \<subseteq> {..< sm_next m}
     \<and> dom (sm_tokens m) \<subseteq> {t. length t = TKSZ}"

datatype mgr_op = MNew string bytes | MCreate sid nat | MTake bytes | MRemove sid

fun mgr_apply :: "mgr_op \<Rightarrow> rng \<times> smgr \<Rightarrow> sid option \<times> rng \<times> smgr" where
  "mgr_apply (MNew ident key) (g, m) = (case NewSession ident key m of (s, m') \<Rightarrow> (Some s, g, m'))"
| "mgr_apply (MCreate s n) (g, m) = (case createTokens s n g m of (out, g', m') \<Rightarrow> (None, g', m'))"
| "mgr_apply (MTake t) (g, m) = (case take_token t m of (r, m') \<Rightarrow> (r, g, m'))"
| "mgr_apply (MRemove s) (g, m) = (None, g, remove_session s m)"

fun is_create :: "mgr_op \<Rightarrow> bool" where
  "is_create (MCreate s n) = True"
| "is_create _ = False"

fun mgr_run :: "mgr_op list \<Rightarrow> rng \<times> smgr \<Rightarrow> sid option list \<times> rng \<times> smgr" where
  "mgr_run [] st = ([], st)"
| "mgr_run (op # ops) st =
     (case mgr_apply op st of (r, st') \<Rightarrow> case mgr_run ops st' of (rs, st'') \<Rightarrow> (r # rs, st''))"

subsection \<open>Minting\<close>

lemma randArray_length [simp]: "length (fst (randArray n g)) = n"
  by (simp add: randArray_def)

lemma mint_tokens:
  "mint s n g tk = (ts, g', tk') \<Longrightarrow>
     length ts = n \<and> (\<forall>t \<in> set ts. length t = TKSZ) \<and>
     (\<forall>t. tk' t = (if t \<in> set ts then Some s else tk t)) \<and> rng_src g' = rng_src g"
proof (induction s n g tk arbitrary: ts g' tk' rule: mint.induct)
  case (2 s n g tk)
  obtain t g1 where r: "randArray TKSZ g = (t, g1)" by (cases "randArray TKSZ g")
  obtain ts0 g2 tk2 where m: "mint s n g1 (tk(t \<mapsto> s)) = (ts0, g2, tk2)"
    by (cases "mint s n g1 (tk(t \<mapsto> s))")
  from "2.prems" r m have ts: "ts = t # ts0" "g' = g2" "tk' = tk2" by simp_all
  have t: "length t = TKSZ" "rng_src g1 = rng_src g"
    using r by (auto simp: randArray_def)
  have ih: "length ts0 = n" "\<forall>x \<in> set ts0. length x = TKSZ"
      "\<forall>x. tk2 x = (if x \<in> set ts0 then Some s else (tk(t \<mapsto> s)) x)" "rng_src g2 = rng_src g1"
    using "2.IH" [OF r [symmetric] m] by auto
  show ?case
    using ts t ih by auto
qed simp

lemma createTokens_length:
  "createTokens s n g m = (out, g', m') \<Longrightarrow> length out = n * TKSZ"
  using mint_tokens [of s n g "sm_tokens m"]
  by (auto simp: createTokens_def concat_fixed_length split: prod.splits)

text \<open>The \<open>i\<close>-th 20-byte slice of \<open>createTokens\<close>' output is a token of the session.\<close>

lemma createTokens_maps:
  assumes "createTokens s n g m = (out, g', m')" and "i < n"
  shows "sm_tokens m' (take TKSZ (drop (i * TKSZ) out)) = Some s"
proof -
  obtain ts tk' where mt: "mint s n g (sm_tokens m) = (ts, g', tk')" and o: "out = concat ts"
      and m': "m' = m\<lparr>sm_tokens := tk'\<rparr>"
    using assms(1) by (auto simp: createTokens_def split: prod.splits)
  have facts: "length ts = n" "\<forall>t \<in> set ts. length t = TKSZ"
      "\<forall>t. tk' t = (if t \<in> set ts then Some s else sm_tokens m t)"
    using mint_tokens [OF mt] by auto
  have "take TKSZ (drop (i * TKSZ) out) = ts ! i"
    using facts(1,2) assms(2) by (simp add: o concat_fixed_nth)
  then show ?thesis
    using facts assms(2) m' by simp
qed

lemma createTokens_other:
  "createTokens s n g m = (out, g', m') \<Longrightarrow> sm_tokens m' t \<noteq> sm_tokens m t \<Longrightarrow> sm_tokens m' t = Some s"
  using mint_tokens [of s n g "sm_tokens m"]
  by (auto simp: createTokens_def split: prod.splits if_splits)

lemma createTokens_sessions:
  "createTokens s n g m = (out, g', m') \<Longrightarrow> sm_sessions m' = sm_sessions m \<and> sm_next m' = sm_next m"
  by (auto simp: createTokens_def split: prod.splits)

lemma take_token_result:
  "take_token t m = (r, m') \<Longrightarrow> r = sm_tokens m t \<and> sm_tokens m' = (sm_tokens m)(t := None)
     \<and> sm_sessions m' = sm_sessions m \<and> sm_next m' = sm_next m"
  by (auto simp: take_token_def)

subsection \<open>The manager invariant\<close>

lemma smgr_inv_empty: "smgr_inv smgr_empty"
  by (simp add: smgr_inv_def smgr_empty_def)

lemma smgr_inv_tokens_sub:
  assumes "smgr_inv m" and "\<And>t s. tk t = Some s \<Longrightarrow> sm_tokens m t = Some s"
  shows "smgr_inv (m\<lparr>sm_tokens := tk\<rparr>)"
proof -
  have "ran tk \<subseteq> ran (sm_tokens m)" and "dom tk \<subseteq> dom (sm_tokens m)"
    using assms(2) by (auto simp: ran_def)
  with assms(1) show ?thesis unfolding smgr_inv_def by (simp, meson order_trans)
qed

lemma smgr_step_inv: "smgr_step (g, m) (g', m') \<Longrightarrow> smgr_inv m \<Longrightarrow> smgr_inv m'"
proof (induction "(g, m)" "(g', m')" rule: smgr_step.induct)
  case (new ident key s)
  then show ?case by (fastforce simp: smgr_inv_def NewSession_def ran_def dom_def subset_iff)
next
  case (create s n out)
  obtain ts tk' where mt: "mint s n g (sm_tokens m) = (ts, g', tk')" and m': "m' = m\<lparr>sm_tokens := tk'\<rparr>"
    using create.hyps(2) by (auto simp: createTokens_def split: prod.splits)
  have len: "\<forall>t \<in> set ts. length t = TKSZ"
    and tk': "\<And>t. tk' t = (if t \<in> set ts then Some s else sm_tokens m t)"
    using mint_tokens [OF mt] by auto
  have "ran tk' \<subseteq> insert s (ran (sm_tokens m))"
    by (auto simp: ran_def tk' split: if_splits)
  moreover have "dom tk' \<subseteq> set ts \<union> dom (sm_tokens m)"
    by (auto simp: tk' split: if_splits)
  then have "dom tk' \<subseteq> {t. length t = TKSZ}"
    using len create.prems unfolding smgr_inv_def by blast
  ultimately show ?case
    using create.prems create.hyps(1) m' by (auto simp: smgr_inv_def)
next
  case (take t r)
  then have "m' = m\<lparr>sm_tokens := (sm_tokens m)(t := None)\<rparr>" by (simp add: take_token_def)
  with take.prems show ?case by (auto intro: smgr_inv_tokens_sub split: if_splits)
next
  case (remove s)
  let ?tk = "\<lambda>t. if sm_tokens m t = Some s then None else sm_tokens m t"
  have "smgr_inv (m\<lparr>sm_tokens := ?tk\<rparr>)"
    using remove.prems by (rule smgr_inv_tokens_sub) (simp split: if_splits)
  moreover have "s \<notin> ran ?tk" by (auto simp: ran_def)
  moreover from remove have "m' = m\<lparr>sm_sessions := (sm_sessions m)(s := None), sm_tokens := ?tk\<rparr>"
    by (simp add: remove_session_def)
  ultimately show ?case
    unfolding smgr_inv_def by auto
qed

text \<open>
  Spec invariants I1/I2 of the token manager: in every state reachable by any
  interleaving of \<open>NewSession\<close>, \<open>createTokens\<close>, \<open>take\<close> and \<open>remove\<close>, every
  token names a live session, every session id was allocated, and every token is
  \<open>TKSZ\<close> = 20 bytes long.
\<close>

lemma smgr_reach_inv: "smgr_reach x \<Longrightarrow> smgr_inv (snd x)"
proof (induction rule: smgr_reach.induct)
  case (init g)
  then show ?case by (simp add: smgr_inv_empty)
next
  case (step x y)
  obtain g m g' m' where "x = (g, m)" "y = (g', m')" by (cases x; cases y)
  with step show ?case using smgr_step_inv by auto
qed

subsection \<open>Runs of operations\<close>

lemma mgr_run_length: "length (fst (mgr_run ops st)) = length ops"
  by (induction ops arbitrary: st) (simp_all add: case_prod_beta)

lemma mgr_run_append:
  "mgr_run (xs @ ys) st =
     (case mgr_run xs st of (r1, st1) \<Rightarrow> case mgr_run ys st1 of (r2, st2) \<Rightarrow> (r1 @ r2, st2))"
  by (induction xs arbitrary: st) (auto split: prod.splits)

text \<open>Without \<open>createTokens\<close>, \<open>take\<close> of this token or the removal of its session, a token keeps its session.\<close>

lemma mgr_apply_keeps:
  "\<not> is_create op \<Longrightarrow> op \<noteq> MTake t \<Longrightarrow> op \<noteq> MRemove s \<Longrightarrow> sm_tokens m t = Some s \<Longrightarrow>
     sm_tokens (snd (snd (mgr_apply op (g, m)))) t = Some s"
  by (cases op) (auto simp: NewSession_def take_token_def remove_session_def split: prod.splits)

lemma mgr_run_keeps:
  "\<forall>op \<in> set ops. \<not> is_create op \<and> op \<noteq> MTake t \<and> op \<noteq> MRemove s \<Longrightarrow> sm_tokens (snd st) t = Some s \<Longrightarrow>
     sm_tokens (snd (snd (mgr_run ops st))) t = Some s"
proof (induction ops arbitrary: st)
  case (Cons op ops)
  obtain g m where st: "st = (g, m)" by (cases st)
  then have "sm_tokens (snd (snd (mgr_apply op (g, m)))) t = Some s"
    using Cons.prems mgr_apply_keeps by auto
  then have "sm_tokens (snd (snd (mgr_run ops (snd (mgr_apply op (g, m)))))) t = Some s"
    using Cons.prems(1) by (intro Cons.IH) auto
  then show ?case by (simp add: st case_prod_beta)
qed simp

text \<open>Once gone, and with no \<open>createTokens\<close> to mint it again, a token is never found.\<close>

lemma mgr_run_gone:
  "\<forall>op \<in> set ops. \<not> is_create op \<Longrightarrow> sm_tokens (snd st) t = None \<Longrightarrow>
     j < length ops \<Longrightarrow> ops ! j = MTake t \<Longrightarrow> fst (mgr_run ops st) ! j = None"
proof (induction ops arbitrary: st j)
  case (Cons op ops)
  obtain g m where st: "st = (g, m)" by (cases st)
  have keep: "sm_tokens (snd (snd (mgr_apply op (g, m)))) t = None"
    using Cons.prems(1,2) st
    by (cases op) (auto simp: NewSession_def take_token_def remove_session_def split: prod.splits)
  show ?case
  proof (cases j)
    case 0
    with Cons.prems st show ?thesis by (simp add: take_token_def case_prod_beta)
  next
    case (Suc j')
    with Cons.prems have "fst (mgr_run ops (snd (mgr_apply op (g, m)))) ! j' = None"
      using Cons.IH [of "snd (mgr_apply op (g, m))" j'] keep by auto
    with Suc st show ?thesis by (simp add: case_prod_beta)
  qed
qed simp

subsection \<open>Single use of tokens\<close>

lemma mgr_run_take_first:
  assumes "sm_tokens (snd st) t = Some s"
  shows "fst (mgr_run (MTake t # post) st) ! 0 = Some s
    \<and> sm_tokens (snd (snd (mgr_apply (MTake t) st))) t = None"
  using assms by (cases st) (simp add: take_token_def case_prod_beta)

text \<open>
  Spec P1: a token minted by \<open>createTokens\<close> for session \<open>s\<close> is answered with
  \<open>s\<close> by the first \<open>take\<close> that presents it, and with nothing by every later one,
  whatever other sessions are made or tokens taken in between (as long as no new
  tokens are minted, which could collide with it, and the session is not removed).
\<close>

lemma token_single_use:
  assumes create: "createTokens s n g m = (out, g', m')"
      and i: "i < n" and t: "t = take TKSZ (drop (i * TKSZ) out)"
      and ops: "\<forall>op \<in> set (pre @ MTake t # post). \<not> is_create op \<and> op \<noteq> MRemove s"
      and first: "MTake t \<notin> set pre"
  shows "fst (mgr_run (pre @ MTake t # post) (g', m')) ! length pre = Some s
    \<and> (\<forall>j. length pre < j \<and> j < length (pre @ MTake t # post) \<and> (pre @ MTake t # post) ! j = MTake t
           \<longrightarrow> fst (mgr_run (pre @ MTake t # post) (g', m')) ! j = None)"
proof -
  obtain r1 st1 where run1: "mgr_run pre (g', m') = (r1, st1)" by (cases "mgr_run pre (g', m')")
  have len1: "length r1 = length pre"
    using mgr_run_length [of pre "(g', m')"] run1 by simp
  have "sm_tokens m' t = Some s" using createTokens_maps [OF create i] t by simp
  then have st1: "sm_tokens (snd st1) t = Some s"
    using mgr_run_keeps [of pre t s "(g', m')"] ops first run1 by auto
  obtain r2 st2 where run2: "mgr_run (MTake t # post) st1 = (r2, st2)" by (cases "mgr_run (MTake t # post) st1")
  have whole: "mgr_run (pre @ MTake t # post) (g', m') = (r1 @ r2, st2)"
    using mgr_run_append [of pre "MTake t # post" "(g', m')"] run1 run2
    by (simp del: mgr_run.simps)
  have hd2: "r2 ! 0 = Some s" and gone: "sm_tokens (snd (snd (mgr_apply (MTake t) st1))) t = None"
    using mgr_run_take_first [OF st1, of post] run2 by auto
  have r2: "r2 = fst (mgr_apply (MTake t) st1) # fst (mgr_run post (snd (mgr_apply (MTake t) st1)))"
    using run2 by (simp add: case_prod_beta)
  have later: "fst (mgr_run post (snd (mgr_apply (MTake t) st1))) ! k = None"
    if "k < length post" "post ! k = MTake t" for k
    using mgr_run_gone [OF _ gone that] ops by auto
  show ?thesis
  proof (intro conjI allI impI)
    show "fst (mgr_run (pre @ MTake t # post) (g', m')) ! length pre = Some s"
      using whole len1 hd2 by (simp add: nth_append)
  next
    fix j assume j: "length pre < j \<and> j < length (pre @ MTake t # post) \<and> (pre @ MTake t # post) ! j = MTake t"
    define k where "k = j - Suc (length pre)"
    have k1: "j = Suc (length pre + k)" using j by (simp add: k_def)
    have k2: "k < length post" using j k1 by simp
    have k3: "post ! k = MTake t" using j k1 by (simp add: nth_append)
    note k = k1 k2 k3
    show "fst (mgr_run (pre @ MTake t # post) (g', m')) ! j = None"
      using whole len1 r2 later [OF k(2,3)] k(1) by (simp add: nth_append)
  qed
qed

lemma token_single_use_example:
  "fst (mgr_run [MTake (replicate 20 0), MTake (replicate 20 0)]
      (snd (createTokens 0 1 \<lparr>rng_src = \<lambda>_. 0, rng_pos = 0\<rparr> smgr_empty))) = [Some 0, None]"
proof -
  obtain out g' m' where c: "createTokens 0 1 \<lparr>rng_src = \<lambda>_. 0, rng_pos = 0\<rparr> smgr_empty = (out, g', m')"
    by (cases "createTokens 0 1 \<lparr>rng_src = \<lambda>_. 0, rng_pos = 0\<rparr> smgr_empty")
  have out: "out = replicate 20 0"
    using c by (auto simp: createTokens_def randArray_def TKSZ_def smgr_empty_def upt_rec numeral_eq_Suc)
  have "take TKSZ (drop (0 * TKSZ) out) = replicate 20 0" by (simp add: out TKSZ_def)
  then have r: "fst (mgr_run ([] @ MTake (replicate 20 0) # [MTake (replicate 20 0)]) (g', m')) ! length [] = Some 0
    \<and> (\<forall>j. length [] < j \<and> j < length ([] @ MTake (replicate 20 0) # [MTake (replicate 20 0)])
      \<and> ([] @ MTake (replicate 20 0) # [MTake (replicate 20 0)]) ! j = MTake (replicate 20 0)
        \<longrightarrow> fst (mgr_run ([] @ MTake (replicate 20 0) # [MTake (replicate 20 0)]) (g', m')) ! j = None)"
    using token_single_use [OF c, of 0 "replicate 20 0" "[]" "[MTake (replicate 20 0)]"] by simp
  have l: "length (fst (mgr_run [MTake (replicate 20 0), MTake (replicate 20 0)] (g', m'))) = 2"
    by (simp del: mgr_run.simps add: mgr_run_length)
  have a: "fst (mgr_run [MTake (replicate 20 0), MTake (replicate 20 0)] (g', m')) ! 0 = Some 0"
    using r [THEN conjunct1] by (simp del: mgr_run.simps)
  have b: "fst (mgr_run [MTake (replicate 20 0), MTake (replicate 20 0)] (g', m')) ! 1 = None"
    using r [THEN conjunct2, rule_format, of 1] by (simp del: mgr_run.simps)
  have "fst (mgr_run [MTake (replicate 20 0), MTake (replicate 20 0)] (g', m')) = [Some 0, None]"
    using list_length2 [OF l] a b by (simp del: mgr_run.simps)
  then show ?thesis using c by simp
qed

lemma smgr_reach_inv_example:
  "smgr_reach (\<lparr>rng_src = \<lambda>_. 0, rng_pos = 0\<rparr>, snd (NewSession ''alice'' [] smgr_empty))
   \<and> smgr_inv (snd (\<lparr>rng_src = \<lambda>_. 0, rng_pos = 0\<rparr>, snd (NewSession ''alice'' [] smgr_empty)))"
proof -
  have "smgr_reach (\<lparr>rng_src = \<lambda>_. 0, rng_pos = 0\<rparr>, snd (NewSession ''alice'' [] smgr_empty))"
    by (rule smgr_reach.step [OF smgr_reach.init
          smgr_step.new [of "''alice''" "[]" smgr_empty "fst (NewSession ''alice'' [] smgr_empty)"]]) simp
  then show ?thesis using smgr_reach_inv by blast
qed

end
