(* ===== verification/Cipher.thy ===== *)
theory Cipher
  imports Prelude
begin

text \<open>
  The cipher factory of \<open>src/tunnel/cipher.go\<close>.  The primitives it calls (MD5, RC4,
  AES-CFB, RSA-OAEP, Diffie-Hellman) are library code treated as black boxes: MD5 is a
  parameter \<open>md5 :: bytes \<Rightarrow> bytes\<close> of the definitions (the running digest of
  \<open>h.Write\<close> calls is \<open>md5\<close> of everything written so far).  \<open>toSecretKey\<close> is the
  key expansion loop with Go's \<open>copy\<close> into a sub-slice; \<open>availableCiphers\<close> the table
  of names; \<open>NewCipherFactory\<close> returns \<open>None\<close> where the Go code dereferences the nil
  table entry of an unknown name; \<open>NewCipher\<close> applies the builder's IV rule.
\<close>

subsection \<open>Key expansion\<close>

text \<open>
  Go's \<open>copy(dst, src)\<close> with \<open>dst = buf[lo:hi]\<close> copies \<open>min(hi - lo, len(src))\<close> bytes
  to position \<open>lo\<close>.
\<close>

definition copy_into :: "bytes \<Rightarrow> nat \<Rightarrow> nat \<Rightarrow> bytes \<Rightarrow> bytes" where
  "copy_into buf lo hi src =
     (let n = min (hi - lo) (length src) in take lo buf @ take n src @ drop (lo + n) buf)"

definition md5_size :: nat where "md5_size = 16"

text \<open>
  One round \<open>i\<close> of the loop: \<open>h.Write(secret)\<close> (the digest now covers \<open>i + 1\<close>
  copies of the secret), then \<open>copy(buf[16i : 16(i+1)-1], h.Sum(nil))\<close>.
\<close>

definition key_round :: "(bytes \<Rightarrow> bytes) \<Rightarrow> bytes \<Rightarrow> nat \<Rightarrow> bytes \<Rightarrow> bytes" where
  "key_round md5 secret i buf =
     copy_into buf (md5_size * i) (md5_size * (i + 1) - 1) (md5 (concat (replicate (i + 1) secret)))"

definition toSecretKey :: "(bytes \<Rightarrow> bytes) \<Rightarrow> bytes \<Rightarrow> nat \<Rightarrow> bytes" where
  "toSecretKey md5 secret sz =
     fold (key_round md5 secret) [0 ..< sz div md5_size] (replicate sz 0)"

text \<open>The byte at position \<open>j\<close> of the key after \<open>rounds\<close> rounds of the loop.\<close>

definition key_byte :: "(bytes \<Rightarrow> bytes) \<Rightarrow> bytes \<Rightarrow> nat \<Rightarrow> nat \<Rightarrow> byte" where
  "key_byte md5 secret rounds j =
     (if j div md5_size < rounds \<and> j mod md5_size < md5_size - 1
      then md5 (concat (replicate (j div md5_size + 1) secret)) ! (j mod md5_size) else 0)"


subsection \<open>The cipher table and the factory\<close>

datatype cipher_builder = NewRC4 | NewAES_CFB

definition availableCiphers :: "string \<rightharpoonup> nat \<times> cipher_builder" where
  "availableCiphers =
     [''RC4'' \<mapsto> (16, NewRC4), ''AES128CFB'' \<mapsto> (16, NewAES_CFB), ''AES256CFB'' \<mapsto> (32, NewAES_CFB)]"

record cipher_factory =
  cf_key :: bytes
  cf_builder :: cipher_builder

definition NewCipherFactory :: "(bytes \<Rightarrow> bytes) \<Rightarrow> string \<Rightarrow> bytes \<Rightarrow> cipher_factory option" where
  "NewCipherFactory md5 name secret =
     (case availableCiphers name of
        None \<Rightarrow> None
      | Some (keyLen, builder) \<Rightarrow> Some \<lparr>cf_key = toSecretKey md5 secret keyLen, cf_builder = builder\<rparr>)"

text \<open>
  A \<open>Cipher\<close> is a pair of streams built from the key.  The model keeps what the
  builder fixes: the algorithm, the key and the IV.  \<open>newRC4\<close> ignores the IV (both
  streams are copies of one key schedule); \<open>newAES_CFB\<close> uses \<open>key[:16]\<close> for a nil
  IV and \<open>iv[:16]\<close> otherwise, which panics on an IV shorter than a block.
\<close>

record cipher =
  ci_builder :: cipher_builder
  ci_key :: bytes
  ci_iv :: bytes

definition aes_BlockSize :: nat where "aes_BlockSize = 16"

fun NewCipher :: "cipher_factory \<Rightarrow> bytes option \<Rightarrow> cipher option" where
  "NewCipher cf iv =
     (case cf_builder cf of
        NewRC4 \<Rightarrow> Some \<lparr>ci_builder = NewRC4, ci_key = cf_key cf, ci_iv = []\<rparr>
      | NewAES_CFB \<Rightarrow>
          (case iv of
             None \<Rightarrow> Some \<lparr>ci_builder = NewAES_CFB, ci_key = cf_key cf, ci_iv = take aes_BlockSize (cf_key cf)\<rparr>
           | Some v \<Rightarrow> if length v < aes_BlockSize then None
                      else Some \<lparr>ci_builder = NewAES_CFB, ci_key = cf_key cf, ci_iv = take aes_BlockSize v\<rparr>))"

subsection \<open>Layout of the expanded key\<close>

lemma copy_into_length:
  "lo \<le> hi \<Longrightarrow> hi \<le> length buf \<Longrightarrow> length (copy_into buf lo hi src) = length buf"
  by (simp add: copy_into_def Let_def)

lemma copy_into_nth:
  assumes "lo \<le> hi" "hi \<le> length buf" "j < length buf"
  shows "copy_into buf lo hi src ! j =
           (if lo \<le> j \<and> j < lo + min (hi - lo) (length src) then src ! (j - lo) else buf ! j)"
  using assms by (auto simp: copy_into_def Let_def nth_append min_def)

lemma div_block_iff:
  assumes "0 < (n::nat)"
  shows "j div n = k \<longleftrightarrow> n * k \<le> j \<and> j < n * k + n"
proof
  assume k: "j div n = k"
  have "j div n * n + j mod n = j" by (rule div_mult_mod_eq)
  moreover have "j mod n < n" using assms by simp
  ultimately show "n * k \<le> j \<and> j < n * k + n" using k by (simp add: mult.commute)
next
  assume "n * k \<le> j \<and> j < n * k + n"
  then show "j div n = k" by (intro div_nat_eqI) simp_all
qed

lemma key_rounds:
  assumes md5: "\<And>x. length (md5 x) = md5_size" and k: "md5_size * k \<le> sz"
  shows "length (fold (key_round md5 secret) [0 ..< k] (replicate sz 0)) = sz
       \<and> (\<forall>j < sz. fold (key_round md5 secret) [0 ..< k] (replicate sz 0) ! j = key_byte md5 secret k j)"
  using k
proof (induction k)
  case 0
  then show ?case by (simp add: key_byte_def)
next
  case (Suc k)
  let ?buf = "fold (key_round md5 secret) [0 ..< k] (replicate sz 0)"
  have IH: "length ?buf = sz" "\<And>j. j < sz \<Longrightarrow> ?buf ! j = key_byte md5 secret k j"
    using Suc by auto
  have bounds: "md5_size * k \<le> md5_size * (k + 1) - 1" "md5_size * (k + 1) - 1 \<le> length ?buf"
    using Suc.prems IH(1) by (simp_all add: md5_size_def)
  have len: "length (key_round md5 secret k ?buf) = sz"
    using bounds IH(1) by (simp add: key_round_def copy_into_length)
  have nth: "key_round md5 secret k ?buf ! j = key_byte md5 secret (Suc k) j" if j: "j < sz" for j
  proof -
    have "key_round md5 secret k ?buf ! j =
            (if md5_size * k \<le> j \<and> j < md5_size * k + (md5_size - 1)
             then md5 (concat (replicate (k + 1) secret)) ! (j - md5_size * k) else ?buf ! j)"
      using bounds IH(1) j md5 by (simp add: key_round_def copy_into_nth md5_size_def min_def)
    also have "\<dots> = key_byte md5 secret (Suc k) j"
    proof (cases "md5_size * k \<le> j \<and> j < md5_size * k + md5_size")
      case True
      then have d: "j div md5_size = k" using div_block_iff [of md5_size j k] by (simp add: md5_size_def)
      then have m: "j mod md5_size = j - md5_size * k"
        by (metis minus_div_mult_eq_mod mult.commute)
      show ?thesis using IH(2) [OF j] True d m by (auto simp: key_byte_def md5_size_def)
    next
      case False
      then have "j div md5_size \<noteq> k" using div_block_iff [of md5_size j k] by (simp add: md5_size_def)
      then have "j div md5_size < k \<or> Suc k \<le> j div md5_size" by arith
      then show ?thesis using IH(2) [OF j] False by (auto simp: key_byte_def md5_size_def)
    qed
    finally show ?thesis .
  qed
  show ?case using len nth by simp
qed

lemma toSecretKey_bytes:
  assumes "\<And>x. length (md5 x) = md5_size"
  shows "length (toSecretKey md5 secret sz) = sz
    \<and> (\<forall>j < sz. toSecretKey md5 secret sz ! j = key_byte md5 secret (sz div md5_size) j)"
proof -
  have "md5_size * (sz div md5_size) \<le> sz" by (simp add: md5_size_def)
  then show ?thesis using key_rounds [OF assms] by (simp add: toSecretKey_def)
qed

text \<open>
  C19. Key expansion (spec 4.1 and the open question of section 9): for a digest of 16
  bytes, block \<open>i\<close> of the key holds the first 15 bytes of the MD5 of \<open>i + 1\<close>
  copies of the secret, and its last byte stays zero.
\<close>

theorem toSecretKey_block:
  assumes md5: "\<And>x. length (md5 x) = md5_size" and i: "i < sz div md5_size"
  shows "take (md5_size - 1) (drop (md5_size * i) (toSecretKey md5 secret sz))
           = take (md5_size - 1) (md5 (concat (replicate (i + 1) secret)))
       \<and> toSecretKey md5 secret sz ! (md5_size * i + (md5_size - 1)) = 0"
proof -
  have bound: "md5_size * i + md5_size \<le> sz"
    using i by (simp add: md5_size_def)
  note kb = toSecretKey_bytes [of md5 secret sz, OF md5]
  have nthk: "take (md5_size - 1) (drop (md5_size * i) (toSecretKey md5 secret sz)) ! k
        = take (md5_size - 1) (md5 (concat (replicate (i + 1) secret))) ! k"
    if k: "k < md5_size - 1" for k
  proof -
    have dk: "(md5_size * i + k) div md5_size = i" "(md5_size * i + k) mod md5_size = k"
      using k by (simp_all add: md5_size_def)
    show ?thesis using kb bound k dk i md5 by (simp add: key_byte_def)
  qed
  have l1: "length (take (md5_size - 1) (drop (md5_size * i) (toSecretKey md5 secret sz))) = md5_size - 1"
    using kb bound by (simp add: md5_size_def)
  have l2: "length (take (md5_size - 1) (md5 (concat (replicate (i + 1) secret)))) = md5_size - 1"
    using md5 by (simp add: md5_size_def)
  have blk: "take (md5_size - 1) (drop (md5_size * i) (toSecretKey md5 secret sz))
           = take (md5_size - 1) (md5 (concat (replicate (i + 1) secret)))"
    by (rule nth_equalityI) (simp_all only: l1 l2 nthk)
  moreover have "toSecretKey md5 secret sz ! (md5_size * i + (md5_size - 1)) = 0"
  proof -
    have "(md5_size * i + (md5_size - 1)) mod md5_size = md5_size - 1" by (simp add: md5_size_def)
    then show ?thesis using kb bound by (simp add: key_byte_def md5_size_def)
  qed
  ultimately show ?thesis by (rule conjI)
qed

theorem toSecretKey_block_witness:
  "take 15 (toSecretKey (\<lambda>x. replicate 16 7) [1, 2, 3] 16) = replicate 15 7
   \<and> toSecretKey (\<lambda>x. replicate 16 7) [1, 2, 3] 16 ! 15 = 0"
  using toSecretKey_block [of "\<lambda>x. replicate 16 7" 0 16 "[1, 2, 3]"] by (simp add: md5_size_def)

text \<open>
  C20. \<open>NewCipherFactory\<close> succeeds exactly for the three names of the table, with a
  key of 16 bytes for RC4 and AES128CFB and 32 bytes for AES256CFB; any other name
  is the nil dereference (the spec's \<open>UNSUPPORTED_CIPHER\<close> is never raised).
\<close>

theorem NewCipherFactory_result:
  assumes md5: "\<And>x. length (md5 x) = md5_size"
  shows "(NewCipherFactory md5 name secret = None \<longleftrightarrow> name \<notin> {''RC4'', ''AES128CFB'', ''AES256CFB''})
       \<and> (\<forall>cf. NewCipherFactory md5 name secret = Some cf \<longrightarrow>
            cf_key cf = toSecretKey md5 secret (if name = ''AES256CFB'' then 32 else 16)
            \<and> length (cf_key cf) = (if name = ''AES256CFB'' then 32 else 16)
            \<and> cf_builder cf = (if name = ''RC4'' then NewRC4 else NewAES_CFB))"
  using toSecretKey_bytes [of md5 secret, OF md5]
  by (auto simp: NewCipherFactory_def availableCiphers_def)

theorem NewCipherFactory_result_witness:
  "NewCipherFactory (\<lambda>x. replicate 16 7) ''AES256CFB'' [1] \<noteq> None
   \<and> length (cf_key (the (NewCipherFactory (\<lambda>x. replicate 16 7) ''AES256CFB'' [1]))) = 32
   \<and> NewCipherFactory (\<lambda>x. replicate 16 7) ''DES'' [1] = None"
proof -
  have md5: "\<And>x. length ((\<lambda>x. replicate 16 (7::byte)) x) = md5_size" by (simp add: md5_size_def)
  show ?thesis
    using NewCipherFactory_result [of "\<lambda>x. replicate 16 7" "''AES256CFB''" "[1]", OF md5]
          NewCipherFactory_result [of "\<lambda>x. replicate 16 7" "''DES''" "[1]", OF md5]
    by auto
qed

lemma NewCipher_default_iv:
  "cf_builder cf = NewAES_CFB \<Longrightarrow> NewCipher cf None = Some \<lparr>ci_builder = NewAES_CFB, ci_key = cf_key cf, ci_iv = take 16 (cf_key cf)\<rparr>"
  by (simp add: aes_BlockSize_def)

end
