(* ===== verification/Negotiation.thy ===== *)
theory Negotiation
  imports Wire Exception Session Cipher
begin

text \<open>
  The handshake of \<open>src/tunnel/d5.go\<close>, server side (\<open>d5SNegotiation\<close>).  Its state is
  the record \<open>srv_st\<close>: the hashed connection, the cipher installed on it, the shared
  session manager, the random stream, and the two fields of the negotiation object
  (\<open>clientIdentity\<close>, \<open>tokenBuf\<close>).  Everything the server calls that is not under
  \<open>src/\<close> (RSA-OAEP decryption, the authentication backend, Diffie-Hellman, SHA-1, MD5)
  and the configuration constants are fields of \<open>srv_env\<close>.  A Go \<open>panic\<close>
  (\<open>ThrowErr\<close>, a nil dereference) is the outcome \<open>NegoPanic\<close>; a return is
  \<open>NegoRet session err\<close>.
\<close>

record srv_env =
  se_rsa_decrypt :: "bytes \<Rightarrow> bytes option"
  se_authenticate :: "bytes \<Rightarrow> bool \<times> exception"
  se_shared_key :: "bytes \<Rightarrow> bytes"
  se_dh_pub :: bytes
  se_dh_pubLen :: bytes
  se_md5 :: "bytes \<Rightarrow> bytes"
  se_sha1 :: "bytes \<Rightarrow> bytes"
  se_algo :: string
  se_version :: u32
  se_token_num :: nat
  se_ctl_ping :: nat
  se_dt_ping :: nat
  se_tun_qty :: byte

record srv_st =
  sv_conn :: hconn
  sv_cipher :: "cipher option"
  sv_mgr :: smgr
  sv_rng :: rng
  sv_identity :: string
  sv_tokenBuf :: bytes

datatype nego_out = NegoPanic panic_val | NegoRet "sid option" "exception option"

text \<open>\<open>ThrowIf\<close> panics with the given value when the condition holds.  \<open>setSoTimeout\<close> sets
  the connection's deadline and throws the error \<open>SetDeadline\<close> returns, given here as its
  text (\<open>None\<close> for a nil error).  \<open>NewConnWithHash\<close> (outside \<open>src/\<close>, section 4.5 of the
  specification) wraps a fresh connection, over the chunks the peer will send, with empty
  read and write logs.\<close>

definition ThrowIf :: "bool \<Rightarrow> panic_val \<Rightarrow> panic_val + unit" where
  "ThrowIf condition e = (if condition then Inl e else Inr ())"

definition setSoTimeout :: "string option \<Rightarrow> panic_val + unit" where
  "setSoTimeout e = (case e of None \<Rightarrow> Inr () | Some msg \<Rightarrow> Inl (PErr msg))"

definition NewConnWithHash :: "bytes list \<Rightarrow> hconn" where
  "NewConnWithHash chunks = \<lparr>hc_in = chunks, hc_rlog = [], hc_wlog = []\<rparr>"

definition io_panic :: "io_error \<Rightarrow> panic_val" where
  "io_panic e = PErr (case e of EOF \<Rightarrow> ''EOF'' | ErrUnexpectedEOF \<Rightarrow> ''unexpected EOF'')"

definition bytes_to_string :: "bytes \<Rightarrow> string" where
  "bytes_to_string bs = map (\<lambda>b. char_of (unat b)) bs"

definition sv_write :: "bytes \<Rightarrow> srv_st \<Rightarrow> srv_st" where
  "sv_write bs st = st\<lparr>sv_conn := conn_write bs (sv_conn st)\<rparr>"

subsection \<open>\<open>transSession\<close>: resuming a session with a token\<close>

definition transSession :: "bytes \<Rightarrow> srv_st \<Rightarrow> nego_out \<times> srv_st" where
  "transSession buf st =
     (case take_token (take TKSZ buf) (sv_mgr st) of
        (Some ss, m') \<Rightarrow> (NegoRet (Some ss) (Some DATATUN_SESSION), st\<lparr>sv_mgr := m', sv_tokenBuf := buf\<rparr>)
      | (None, m') \<Rightarrow> (NegoRet None (Some VALIDATION_FAILED), st\<lparr>sv_mgr := m'\<rparr>))"

subsection \<open>\<open>verifyThenDHExchange\<close>: identity block and client DH key\<close>

text \<open>
  The RSA block is decrypted (an error panics), the identity authenticated, and the
  client's DH key read with \<open>ReadFullByLen\<close> before the verdict is looked at; the read
  error is overwritten and so ignored.  A refused identity gets \<open>00 01 ff\<close> and the
  backend's exception; an accepted one is recorded, the shared key computed and the
  server's DH key (\<open>pubLen || pub\<close>) written.
\<close>

definition verifyThenDHExchange ::
  "srv_env \<Rightarrow> bytes \<Rightarrow> srv_st \<Rightarrow> (panic_val + bytes \<times> exception option) \<times> srv_st" where
  "verifyThenDHExchange env credBuf st =
     (case se_rsa_decrypt env credBuf of
        None \<Rightarrow> (Inl (PErr ''rsa: decryption error''), st)
      | Some userIdentity \<Rightarrow>
          (case se_authenticate env userIdentity of (allow, ex) \<Rightarrow>
            (case ReadFullByLen 2 (sv_conn st) of (cDHPub, _, c1) \<Rightarrow>
              let st1 = st\<lparr>sv_conn := c1\<rparr> in
              if \<not> allow then (Inr ([], Some ex), sv_write [0, 1, 0xff] st1)
              else (Inr (se_shared_key env cDHPub, None),
                    sv_write (se_dh_pubLen env @ se_dh_pub env)
                      (st1\<lparr>sv_identity := bytes_to_string userIdentity\<rparr>)))))"

subsection \<open>\<open>respondTestWithToken\<close>: parameters, tokens, hash check\<close>

text \<open>
  The 34-byte head is random with the fields written over it: the block length
  \<open>uint16(TUN_PARAMS_LEN + GENERATE_TOKEN_NUM * TKSZ)\<close>, the version, the two ping
  intervals (each \<open>uint16\<close>) and the tunnel count.  The tokens follow; then the server
  reads the client's hash with one \<open>Read\<close> of 20 bytes, compares it with its own
  write hash, and only on a match sends its read hash.
\<close>

definition tun_params_head :: "srv_env \<Rightarrow> bytes \<Rightarrow> bytes" where
  "tun_params_head env rnd =
     be16_put (of_nat (TUN_PARAMS_LEN + se_token_num env * TKSZ))
     @ ito4b (se_version env)
     @ be16_put (of_nat (se_ctl_ping env)) @ be16_put (of_nat (se_dt_ping env))
     @ [se_tun_qty env] @ drop 11 rnd"

definition respondTestWithToken ::
  "srv_env \<Rightarrow> sid \<Rightarrow> srv_st \<Rightarrow> (panic_val + exception option) \<times> srv_st" where
  "respondTestWithToken env s st =
     (case randArray (TUN_PARAMS_LEN + 2) (sv_rng st) of (rnd, g1) \<Rightarrow>
      let st1 = sv_write (tun_params_head env rnd) (st\<lparr>sv_rng := g1\<rparr>) in
      (case createTokens s (se_token_num env) g1 (sv_mgr st1) of (tokens, g2, m2) \<Rightarrow>
       let st2 = sv_write tokens (st1\<lparr>sv_rng := g2, sv_mgr := m2\<rparr>);
           rHash = se_sha1 env (hc_rlog (sv_conn st2));
           wHash = se_sha1 env (hc_wlog (sv_conn st2)) in
       (case conn_read TKSZ (sv_conn st2) of (oHash, e, c3) \<Rightarrow>
        let st3 = st2\<lparr>sv_conn := c3\<rparr> in
        (case e of
           Some err \<Rightarrow> (Inl (io_panic err), st3)
         | None \<Rightarrow>
             if wHash \<noteq> pad_to TKSZ oHash then (Inr (Some INCONSISTENT_HASH), st3)
             else (Inr None, sv_write rHash st3)))))"

subsection \<open>\<open>negotiate\<close>: classifying the first read\<close>

text \<open>
  The full handshake, the body of the \<open>nr == DMLEN1\<close> branch: verify the identity and
  exchange DH keys (an exception returned there is thrown), build the cipher factory
  (a nil dereference for an unknown algorithm), install the cipher, make the session
  and answer with parameters and tokens.
\<close>

definition negotiate_full :: "srv_env \<Rightarrow> bytes \<Rightarrow> srv_st \<Rightarrow> nego_out \<times> srv_st" where
  "negotiate_full env buf st1 =
     (case verifyThenDHExchange env (drop 256 buf) st1 of
        (Inl p, st2) \<Rightarrow> (NegoPanic p, st2)
      | (Inr (_, Some ex), st2) \<Rightarrow> (NegoPanic (PExc ex), st2)
      | (Inr (skey, None), st2) \<Rightarrow>
          (case NewCipherFactory (se_md5 env) (se_algo env) skey of
             None \<Rightarrow> (NegoPanic (PErr ''nil pointer dereference''), st2)
           | Some cf \<Rightarrow>
               let st3 = st2\<lparr>sv_cipher := NewCipher cf None\<rparr> in
               (case NewSession (sv_identity st3) (cf_key cf) (sv_mgr st3) of (s, m) \<Rightarrow>
                 (case respondTestWithToken env s (st3\<lparr>sv_mgr := m\<rparr>) of
                    (Inl p, st4) \<Rightarrow> (NegoPanic p, st4)
                  | (Inr err, st4) \<Rightarrow> (NegoRet (Some s) err, st4)))))"

definition negotiate :: "srv_env \<Rightarrow> srv_st \<Rightarrow> nego_out \<times> srv_st" where
  "negotiate env st =
     (case conn_read DMLEN1 (sv_conn st) of (r, e, c1) \<Rightarrow>
      let st1 = st\<lparr>sv_conn := c1\<rparr>; nr = length r; buf = pad_to DMLEN1 r in
      (case e of
        Some err \<Rightarrow> (NegoPanic (io_panic err), st1)
      | None \<Rightarrow>
        if nr = DMLEN2 \<and> d5SumValid (buf ! (TKSZ - 2)) (buf ! TKSZ)
                       \<and> d5SumValid (buf ! (TKSZ - 1)) (buf ! (TKSZ + 1))
        then transSession buf st1
        else if nr = DMLEN1 \<and> d5SumValid (buf ! 0xd5) (buf ! 0xff) then negotiate_full env buf st1
        else (NegoRet None (Some NEGOTIATION_FAILED), st1)))"

text \<open>The whole of \<open>d5SNegotiation.negotiate\<close>: the deadline is set first (the remote
  address it records only appears in log lines).\<close>

definition s_negotiate :: "string option \<Rightarrow> srv_env \<Rightarrow> srv_st \<Rightarrow> nego_out \<times> srv_st" where
  "s_negotiate dl env st =
     (case setSoTimeout dl of Inl p \<Rightarrow> (NegoPanic p, st) | Inr _ \<Rightarrow> negotiate env st)"

subsection \<open>A configuration for examples\<close>

text \<open>
  Closed instances of the theorems below run on this configuration: identity RSA and
  DH functions, an accepting authenticator, constant digests, two tokens per handshake.
\<close>

abbreviation example_env :: srv_env where
  "example_env \<equiv> \<lparr>se_rsa_decrypt = (\<lambda>x. Some x), se_authenticate = (\<lambda>x. (True, AUTH_FAILED)),
     se_shared_key = (\<lambda>x. x), se_dh_pub = [9, 9], se_dh_pubLen = [0, 2],
     se_md5 = (\<lambda>x. replicate 16 7), se_sha1 = (\<lambda>x. replicate 20 (of_nat (length x))),
     se_algo = ''RC4'', se_version = 0x0009088e, se_token_num = 2, se_ctl_ping = 30,
     se_dt_ping = 60, se_tun_qty = 2\<rparr>"

abbreviation example_st :: "bytes list \<Rightarrow> srv_st" where
  "example_st inp \<equiv> \<lparr>sv_conn = \<lparr>hc_in = inp, hc_rlog = [], hc_wlog = []\<rparr>, sv_cipher = None,
     sv_mgr = smgr_empty, sv_rng = \<lparr>rng_src = \<lambda>_. 0, rng_pos = 0\<rparr>, sv_identity = [],
     sv_tokenBuf = []\<rparr>"

subsection \<open>The resumption branch\<close>

lemma conn_read_whole_chunk:
  "hc_in h = c # cs \<Longrightarrow> c \<noteq> [] \<Longrightarrow> length c \<le> n \<Longrightarrow>
     conn_read n h = (c, None, h\<lparr>hc_in := cs, hc_rlog := hc_rlog h @ c\<rparr>)"
  by (cases n) (auto simp: conn_read_def)

lemma resume_markers:
  assumes "length t = TKSZ"
  shows "d5SumValid (pad_to DMLEN1 (t @ [d5Sub (t ! 18), d5Sub (t ! 19)]) ! (TKSZ - 2))
                    (pad_to DMLEN1 (t @ [d5Sub (t ! 18), d5Sub (t ! 19)]) ! TKSZ)
       \<and> d5SumValid (pad_to DMLEN1 (t @ [d5Sub (t ! 18), d5Sub (t ! 19)]) ! (TKSZ - 1))
                    (pad_to DMLEN1 (t @ [d5Sub (t ! 18), d5Sub (t ! 19)]) ! (TKSZ + 1))"
  using assms by (simp add: pad_to_def wire_consts nth_append d5SumValid_iff d5Sub_eq)

lemma negotiate_resume:
  assumes inp: "hc_in (sv_conn st) = (t @ [d5Sub (t ! 18), d5Sub (t ! 19)]) # cs" and t: "length t = TKSZ"
  shows "negotiate env st =
           transSession (pad_to DMLEN1 (t @ [d5Sub (t ! 18), d5Sub (t ! 19)]))
             (st\<lparr>sv_conn := (sv_conn st)\<lparr>hc_in := cs,
                 hc_rlog := hc_rlog (sv_conn st) @ t @ [d5Sub (t ! 18), d5Sub (t ! 19)]\<rparr>\<rparr>)"
proof -
  have rd: "conn_read DMLEN1 (sv_conn st) = (t @ [d5Sub (t ! 18), d5Sub (t ! 19)], None,
      (sv_conn st)\<lparr>hc_in := cs, hc_rlog := hc_rlog (sv_conn st) @ t @ [d5Sub (t ! 18), d5Sub (t ! 19)]\<rparr>)"
    using t by (intro conn_read_whole_chunk [OF inp]) (simp_all add: wire_consts)
  show ?thesis
    using rd resume_markers [OF t] t by (simp add: negotiate_def wire_consts)
qed

lemma transSession_token:
  "length t = TKSZ \<Longrightarrow>
   transSession (pad_to DMLEN1 (t @ x)) st =
     (case sm_tokens (sv_mgr st) t of
        Some s \<Rightarrow> (NegoRet (Some s) (Some DATATUN_SESSION),
                   st\<lparr>sv_mgr := (sv_mgr st)\<lparr>sm_tokens := (sm_tokens (sv_mgr st))(t := None)\<rparr>,
                      sv_tokenBuf := pad_to DMLEN1 (t @ x)\<rparr>)
      | None \<Rightarrow> (NegoRet None (Some VALIDATION_FAILED),
                 st\<lparr>sv_mgr := (sv_mgr st)\<lparr>sm_tokens := (sm_tokens (sv_mgr st))(t := None)\<rparr>\<rparr>))"
  by (simp add: transSession_def take_token_def pad_to_def wire_consts split: option.split)

lemma tun_params_head_length:
  "length rnd = TUN_PARAMS_LEN + 2 \<Longrightarrow> length (tun_params_head env rnd) = TUN_PARAMS_LEN + 2"
  by (simp add: tun_params_head_def ito4b_def wire_consts)

lemma respond_effect:
  assumes "respondTestWithToken env s st = (res, st')"
  shows "\<exists>tokens g2 rest.
    createTokens s (se_token_num env) (snd (randArray (TUN_PARAMS_LEN + 2) (sv_rng st))) (sv_mgr st)
      = (tokens, g2, sv_mgr st')
    \<and> hc_wlog (sv_conn st') = hc_wlog (sv_conn st)
         @ tun_params_head env (fst (randArray (TUN_PARAMS_LEN + 2) (sv_rng st))) @ tokens @ rest"
proof -
  obtain rnd g1 where r: "randArray (TUN_PARAMS_LEN + 2) (sv_rng st) = (rnd, g1)"
    by (cases "randArray (TUN_PARAMS_LEN + 2) (sv_rng st)")
  obtain tokens g2 m2 where c: "createTokens s (se_token_num env) g1 (sv_mgr st) = (tokens, g2, m2)"
    by (cases "createTokens s (se_token_num env) g1 (sv_mgr st)")
  let ?st2 = "sv_write tokens ((sv_write (tun_params_head env rnd) (st\<lparr>sv_rng := g1\<rparr>))\<lparr>sv_rng := g2, sv_mgr := m2\<rparr>)"
  obtain oh e c3 where rd: "conn_read TKSZ (sv_conn ?st2) = (oh, e, c3)"
    by (cases "conn_read TKSZ (sv_conn ?st2)")
  have w3: "hc_wlog c3 = hc_wlog (sv_conn ?st2)"
    using conn_read_log [OF rd] by simp
  have st': "st' = ?st2\<lparr>sv_conn := c3\<rparr> \<or>
             st' = sv_write (se_sha1 env (hc_rlog (sv_conn ?st2))) (?st2\<lparr>sv_conn := c3\<rparr>)"
    using assms r c rd
    by (auto simp: respondTestWithToken_def sv_write_def Let_def split: option.splits if_splits)
  have "sv_mgr st' = m2" using st' by (auto simp: sv_write_def)
  moreover have "\<exists>rest. hc_wlog (sv_conn st') = hc_wlog (sv_conn st) @ tun_params_head env rnd @ tokens @ rest"
    using st' w3 by (auto simp: sv_write_def conn_write_def)
  ultimately show ?thesis using r c by auto
qed

lemma respond_tokens:
  assumes res: "respondTestWithToken env s st = (res, st')" and i: "i < se_token_num env"
  shows "sm_tokens (sv_mgr st')
           (take TKSZ (drop (length (hc_wlog (sv_conn st)) + (TUN_PARAMS_LEN + 2) + i * TKSZ)
                             (hc_wlog (sv_conn st')))) = Some s
       \<and> length (take TKSZ (drop (length (hc_wlog (sv_conn st)) + (TUN_PARAMS_LEN + 2) + i * TKSZ)
                             (hc_wlog (sv_conn st')))) = TKSZ"
proof -
  obtain tokens g2 rest where
    c: "createTokens s (se_token_num env) (snd (randArray (TUN_PARAMS_LEN + 2) (sv_rng st))) (sv_mgr st)
          = (tokens, g2, sv_mgr st')"
    and w: "hc_wlog (sv_conn st') = hc_wlog (sv_conn st)
         @ tun_params_head env (fst (randArray (TUN_PARAMS_LEN + 2) (sv_rng st))) @ tokens @ rest"
    using respond_effect [OF res] by blast
  have hl: "length (tun_params_head env (fst (randArray (TUN_PARAMS_LEN + 2) (sv_rng st)))) = TUN_PARAMS_LEN + 2"
    by (simp add: tun_params_head_length)
  have tl: "length tokens = se_token_num env * TKSZ" using createTokens_length [OF c] .
  have "i * TKSZ + TKSZ \<le> length tokens" using tl i
    by (metis add.commute mult.commute mult_Suc_right mult_le_mono2 Suc_leI)
  then have tk: "take TKSZ (drop (i * TKSZ) (tokens @ rest)) = take TKSZ (drop (i * TKSZ) tokens)"
    by simp
  have eq: "take TKSZ (drop (length (hc_wlog (sv_conn st)) + (TUN_PARAMS_LEN + 2) + i * TKSZ) (hc_wlog (sv_conn st')))
          = take TKSZ (drop (i * TKSZ) tokens)"
    using w hl tk by (simp add: add.assoc)
  show ?thesis
    using createTokens_maps [OF c i] eq \<open>i * TKSZ + TKSZ \<le> length tokens\<close> by simp
qed

subsection \<open>Tokens handed out are redeemable once\<close>

text \<open>
  C1. Spec P1 and the token resumption of section 4.3, end to end on the server: the
  \<open>i\<close>-th token \<open>respondTestWithToken\<close> writes to a client (whatever the handshake's
  outcome) opens a later connection that presents it with its two D5 markers as a data
  tunnel of the same session; the same request on another connection afterwards is
  refused with \<open>VALIDATION_FAILED\<close>.
\<close>

theorem respond_tokens_resume_once:
  assumes res: "respondTestWithToken env s st = (res, st')" and i: "i < se_token_num env"
      and t: "t = take TKSZ (drop (length (hc_wlog (sv_conn st)) + (TUN_PARAMS_LEN + 2) + i * TKSZ)
                                 (hc_wlog (sv_conn st')))"
      and c: "hc_in c = (t @ [d5Sub (t ! 18), d5Sub (t ! 19)]) # cs"
  shows "fst (negotiate env (st'\<lparr>sv_conn := c\<rparr>)) = NegoRet (Some s) (Some DATATUN_SESSION)
       \<and> fst (negotiate env ((snd (negotiate env (st'\<lparr>sv_conn := c\<rparr>)))\<lparr>sv_conn := c\<rparr>))
           = NegoRet None (Some VALIDATION_FAILED)"
proof -
  have tok: "sm_tokens (sv_mgr st') t = Some s" and len: "length t = TKSZ"
    using respond_tokens [OF res i] t by simp_all
  let ?r = "t @ [d5Sub (t ! 18), d5Sub (t ! 19)]"
  let ?c1 = "c\<lparr>hc_in := cs, hc_rlog := hc_rlog c @ ?r\<rparr>"
  have first: "negotiate env (st'\<lparr>sv_conn := c\<rparr>) =
     (NegoRet (Some s) (Some DATATUN_SESSION),
      st'\<lparr>sv_conn := ?c1, sv_mgr := (sv_mgr st')\<lparr>sm_tokens := (sm_tokens (sv_mgr st'))(t := None)\<rparr>,
          sv_tokenBuf := pad_to DMLEN1 ?r\<rparr>)"
    using negotiate_resume [of "st'\<lparr>sv_conn := c\<rparr>" t cs env] c len tok
    by (simp add: transSession_token)
  have second: "fst (negotiate env ((snd (negotiate env (st'\<lparr>sv_conn := c\<rparr>)))\<lparr>sv_conn := c\<rparr>))
      = NegoRet None (Some VALIDATION_FAILED)"
    using negotiate_resume [of "(snd (negotiate env (st'\<lparr>sv_conn := c\<rparr>)))\<lparr>sv_conn := c\<rparr>" t cs env]
      c len first by (simp add: transSession_token)
  show ?thesis using first second by simp
qed

theorem respond_tokens_resume_once_witness:
  "fst (negotiate example_env ((snd (respondTestWithToken example_env 0 (example_st [])))\<lparr>sv_conn :=
      \<lparr>hc_in = [take TKSZ (drop (TUN_PARAMS_LEN + 2) (hc_wlog (sv_conn (snd (respondTestWithToken example_env 0 (example_st []))))))
         @ [d5Sub (take TKSZ (drop (TUN_PARAMS_LEN + 2) (hc_wlog (sv_conn (snd (respondTestWithToken example_env 0 (example_st [])))))) ! 18),
            d5Sub (take TKSZ (drop (TUN_PARAMS_LEN + 2) (hc_wlog (sv_conn (snd (respondTestWithToken example_env 0 (example_st [])))))) ! 19)]],
       hc_rlog = [], hc_wlog = []\<rparr>\<rparr>)) = NegoRet (Some 0) (Some DATATUN_SESSION)"
  using respond_tokens_resume_once [of example_env 0 "example_st []"
      "fst (respondTestWithToken example_env 0 (example_st []))"
      "snd (respondTestWithToken example_env 0 (example_st []))" 0
      "take TKSZ (drop (TUN_PARAMS_LEN + 2) (hc_wlog (sv_conn (snd (respondTestWithToken example_env 0 (example_st []))))))"
      "\<lparr>hc_in = [take TKSZ (drop (TUN_PARAMS_LEN + 2) (hc_wlog (sv_conn (snd (respondTestWithToken example_env 0 (example_st []))))))
         @ [d5Sub (take TKSZ (drop (TUN_PARAMS_LEN + 2) (hc_wlog (sv_conn (snd (respondTestWithToken example_env 0 (example_st [])))))) ! 18),
            d5Sub (take TKSZ (drop (TUN_PARAMS_LEN + 2) (hc_wlog (sv_conn (snd (respondTestWithToken example_env 0 (example_st [])))))) ! 19)]],
       hc_rlog = [], hc_wlog = []\<rparr>" "[]"]
  by (simp del: negotiate_def)


subsection \<open>Requests the server does not recognise\<close>

lemma negotiate_first_chunk:
  assumes "hc_in (sv_conn st) = c # cs" "c \<noteq> []" "length c \<le> DMLEN1"
  shows "negotiate env st =
    (let st1 = st\<lparr>sv_conn := (sv_conn st)\<lparr>hc_in := cs, hc_rlog := hc_rlog (sv_conn st) @ c\<rparr>\<rparr>;
         buf = pad_to DMLEN1 c in
     if length c = DMLEN2 \<and> d5SumValid (buf ! (TKSZ - 2)) (buf ! TKSZ)
                          \<and> d5SumValid (buf ! (TKSZ - 1)) (buf ! (TKSZ + 1))
     then transSession buf st1
     else if length c = DMLEN1 \<and> d5SumValid (buf ! 0xd5) (buf ! 0xff) then negotiate_full env buf st1
     else (NegoRet None (Some NEGOTIATION_FAILED), st1))"
  using conn_read_whole_chunk [OF assms] by (simp add: negotiate_def Let_def)

lemma negotiate_full_some:
  "fst (negotiate_full env buf st) \<noteq> NegoRet None e"
  by (auto simp: negotiate_full_def Let_def split: sum.splits option.splits prod.splits)

lemma transSession_not_failed:
  "fst (transSession buf st) \<noteq> NegoRet None (Some NEGOTIATION_FAILED)"
  by (auto simp: transSession_def VALIDATION_FAILED_def NEGOTIATION_FAILED_def NewW_def
           split: option.splits prod.splits)

lemma pad_to_nth_less: "j < length c \<Longrightarrow> length c \<le> n \<Longrightarrow> pad_to n c ! j = c ! j"
  by (simp add: pad_to_def nth_append)

text \<open>
  C2. Spec 4.3 and the boundary behaviours of section 8: the server answers the first
  read (one chunk of at most 384 bytes) with \<open>NEGOTIATION_FAILED\<close> exactly when it is
  neither a 22-byte resumption request with valid markers nor a 384-byte request
  with a valid marker pair at offsets \<open>0xd5\<close>/\<open>0xff\<close>; a resumption request naming
  no live token is refused with \<open>VALIDATION_FAILED\<close> instead.
\<close>

theorem negotiate_unrecognized:
  assumes inp: "hc_in (sv_conn st) = c # cs" and ne: "c \<noteq> []" and le: "length c \<le> DMLEN1"
  shows "(fst (negotiate env st) = NegoRet None (Some NEGOTIATION_FAILED) \<longleftrightarrow>
           \<not> (length c = DMLEN2 \<and> d5SumValid (c ! 18) (c ! 20) \<and> d5SumValid (c ! 19) (c ! 21))
         \<and> \<not> (length c = DMLEN1 \<and> d5SumValid (c ! 0xd5) (c ! 0xff)))
       \<and> (length c = DMLEN2 \<and> d5SumValid (c ! 18) (c ! 20) \<and> d5SumValid (c ! 19) (c ! 21)
           \<and> sm_tokens (sv_mgr st) (take TKSZ c) = None
           \<longrightarrow> fst (negotiate env st) = NegoRet None (Some VALIDATION_FAILED))"
proof -
  have ix: "pad_to DMLEN1 c ! j = c ! j" if "j < length c" for j
    using that le by (rule pad_to_nth_less)
  have tk: "take TKSZ (pad_to DMLEN1 c) = take TKSZ c" if "length c = DMLEN2"
    using le that by (simp add: pad_to_def wire_consts)
  show ?thesis
    using negotiate_first_chunk [OF inp ne le, of env] negotiate_full_some transSession_not_failed ix tk
    by (auto simp: wire_consts Let_def transSession_def take_token_def VALIDATION_FAILED_def
        NEGOTIATION_FAILED_def NewW_def split: option.splits)
qed

theorem negotiate_unrecognized_witness:
  "fst (negotiate example_env (example_st [[1, 2, 3]])) = NegoRet None (Some NEGOTIATION_FAILED)
   \<and> fst (negotiate example_env (example_st [replicate 20 1 @ [d5Sub 1, d5Sub 1]]))
       = NegoRet None (Some VALIDATION_FAILED)"
proof -
  have a: "fst (negotiate example_env (example_st [[1, 2, 3]])) = NegoRet None (Some NEGOTIATION_FAILED)"
    using negotiate_unrecognized [of "example_st [[1, 2, 3]]" "[1, 2, 3]" "[]" example_env]
    by (simp add: wire_consts)
  have b: "fst (negotiate example_env (example_st [replicate 20 1 @ [d5Sub 1, d5Sub 1]]))
       = NegoRet None (Some VALIDATION_FAILED)"
    using negotiate_unrecognized [of "example_st [replicate 20 1 @ [d5Sub 1, d5Sub 1]]"
        "replicate 20 1 @ [d5Sub 1, d5Sub 1]" "[]" example_env]
    by (simp add: wire_consts d5SumValid_iff d5Sub_eq nth_append smgr_empty_def)
  show ?thesis using a b by simp
qed

subsection \<open>The shared session manager stays well formed\<close>

lemma verify_mgr: "sv_mgr (snd (verifyThenDHExchange env b st)) = sv_mgr st"
  by (auto simp: verifyThenDHExchange_def sv_write_def Let_def split: option.splits prod.splits)

lemma negotiate_full_mgr_inv:
  assumes inv: "smgr_inv (sv_mgr st)"
  shows "smgr_inv (sv_mgr (snd (negotiate_full env buf st)))"
proof -
  obtain r st2 where v: "verifyThenDHExchange env (drop 256 buf) st = (r, st2)"
    by (cases "verifyThenDHExchange env (drop 256 buf) st")
  have m2: "sv_mgr st2 = sv_mgr st" using verify_mgr [of env "drop 256 buf" st] v by simp
  show ?thesis
  proof (cases "\<exists>skey cf. r = Inr (skey, None) \<and> NewCipherFactory (se_md5 env) (se_algo env) skey = Some cf")
    case False
    then have "snd (negotiate_full env buf st) = st2"
      using v by (auto simp: negotiate_full_def split: sum.splits option.splits prod.splits)
    then show ?thesis using m2 inv by simp
  next
    case True
    then obtain skey cf where r: "r = Inr (skey, None)" and c: "NewCipherFactory (se_md5 env) (se_algo env) skey = Some cf"
      by blast
    let ?st3 = "st2\<lparr>sv_cipher := NewCipher cf None\<rparr>"
    obtain s m where ns: "NewSession (sv_identity ?st3) (cf_key cf) (sv_mgr ?st3) = (s, m)"
      by (cases "NewSession (sv_identity ?st3) (cf_key cf) (sv_mgr ?st3)")
    obtain res st4 where rs: "respondTestWithToken env s (?st3\<lparr>sv_mgr := m\<rparr>) = (res, st4)"
      by (cases "respondTestWithToken env s (?st3\<lparr>sv_mgr := m\<rparr>)")
    have out: "snd (negotiate_full env buf st) = st4"
      using v r c ns rs by (simp add: negotiate_full_def Let_def split: sum.splits)
    have im: "smgr_inv m"
      using smgr_step_inv [OF smgr_step.new [OF ns]] inv m2 by simp
    have sd: "s \<in> dom (sm_sessions m)" using ns by (auto simp: NewSession_def)
    obtain tokens g2 rest where ct: "createTokens s (se_token_num env)
        (snd (randArray (TUN_PARAMS_LEN + 2) (sv_rng (?st3\<lparr>sv_mgr := m\<rparr>)))) m = (tokens, g2, sv_mgr st4)"
      using respond_effect [OF rs] by auto
    show ?thesis using smgr_step_inv [OF smgr_step.create [OF sd ct] im] out by simp
  qed
qed



end
