(* ===== verification/ConnPool.thy ===== *)
theory ConnPool
  imports Prelude "HOL-Library.Multiset"
begin

text \<open>
  The tunnel pool of \<open>src/tunnel/connPool.go\<close>.  Tunnels (\<open>*Conn\<close>) are identified by
  \<open>tid\<close>; the pool is the slice of tunnel ids, and the priorities live in the tunnels
  themselves, so the state \<open>pool_st\<close> carries the \<open>rank\<close> of every tunnel as a signed
  64-bit word (\<open>int64\<close>, compared with \<open>sint\<close>, decremented with wrap-around) and the
  set of tunnels \<open>destroy\<close> closed.  \<open>sort.Sort\<close> with the reversed \<open>Less\<close> is
  modelled by a stable sort on the negated rank; which of several tunnels of the same
  rank comes first is the library's choice, and no theorem below depends on it.
\<close>

type_synonym tid = nat

record TSPriority =
  ts_last :: i64
  ts_rank :: i64

record pool_st =
  cp_pool :: "tid list"
  cp_prio :: "tid \<Rightarrow> TSPriority"
  cp_closed :: "tid list"

definition rank_of :: "pool_st \<Rightarrow> tid \<Rightarrow> int" where
  "rank_of st t = sint (ts_rank (cp_prio st t))"

definition NewConnPool :: "(tid \<Rightarrow> TSPriority) \<Rightarrow> pool_st" where
  "NewConnPool prio = \<lparr>cp_pool = [], cp_prio = prio, cp_closed = []\<rparr>"

definition Len :: "pool_st \<Rightarrow> nat" where
  "Len st = length (cp_pool st)"

definition Push :: "tid \<Rightarrow> pool_st \<Rightarrow> pool_st" where
  "Push x st = st\<lparr>cp_pool := cp_pool st @ [x]\<rparr>"

text \<open>
  \<open>Remove\<close> scans the whole slice and keeps the last index holding \<open>c\<close>, then cuts
  it out with one of three slice operations.
\<close>

fun last_index_from :: "tid \<Rightarrow> nat \<Rightarrow> tid list \<Rightarrow> int \<Rightarrow> int" where
  "last_index_from c i [] x = x"
| "last_index_from c i (y # ys) x = last_index_from c (Suc i) ys (if y = c then int i else x)"

definition Remove :: "tid \<Rightarrow> pool_st \<Rightarrow> bool \<times> pool_st" where
  "Remove c st =
     (let p = cp_pool st; n = length p; x = last_index_from c 0 p (-1) in
      if x < 0 then (False, st)
      else (True, st\<lparr>cp_pool :=
              (if x = 0 then drop 1 p
               else if x = int n - 1 then take (nat x) p
               else take (nat x) p @ drop (nat x + 1) p)\<rparr>))"

definition pool_sort :: "pool_st \<Rightarrow> tid list \<Rightarrow> tid list" where
  "pool_sort st p = sort_key (\<lambda>t. - rank_of st t) p"

definition Select :: "pool_st \<Rightarrow> tid option \<times> pool_st" where
  "Select st =
     (if length (cp_pool st) < 1 then (None, st)
      else (let p = pool_sort st (cp_pool st); selected = hd p;
                pr = cp_prio st selected in
            (Some selected,
             st\<lparr>cp_pool := p,
                cp_prio := (cp_prio st)(selected := pr\<lparr>ts_rank := ts_rank pr - 1\<rparr>)\<rparr>)))"

text \<open>A caller selecting \<open>n\<close> times in a row (the pushes of new streams).\<close>

fun select_n :: "nat \<Rightarrow> pool_st \<Rightarrow> tid option list \<times> pool_st" where
  "select_n 0 st = ([], st)"
| "select_n (Suc n) st =
     (case Select st of (r, st') \<Rightarrow> (case select_n n st' of (rs, st'') \<Rightarrow> (r # rs, st'')))"

definition destroy_pool :: "pool_st \<Rightarrow> pool_st" where
  "destroy_pool st = st\<lparr>cp_pool := [], cp_closed := cp_closed st @ cp_pool st\<rparr>"

lemma last_index_from_absent: "c \<notin> set ys \<Longrightarrow> last_index_from c i ys x = x"
  by (induction ys arbitrary: i x) auto

lemma last_index_from_split:
  "c \<notin> set bs \<Longrightarrow> last_index_from c i (as @ c # bs) x = int (i + length as)"
  by (induction as arbitrary: i x) (auto simp: last_index_from_absent)

lemma rev_remove1_rev_split:
  "c \<notin> set bs \<Longrightarrow> rev (remove1 c (rev (as @ c # bs))) = as @ bs"
  by (simp add: remove1_append)


lemma Remove_absent: "c \<notin> set (cp_pool st) \<Longrightarrow> Remove c st = (False, st)"
  by (simp add: Remove_def Let_def last_index_from_absent)

lemma Remove_split:
  assumes p: "cp_pool st = as @ c # bs" and bs: "c \<notin> set bs"
  shows "Remove c st = (True, st\<lparr>cp_pool := as @ bs\<rparr>)"
proof -
  have x: "last_index_from c 0 (cp_pool st) (-1) = int (length as)"
    using last_index_from_split [OF bs, of 0 as "-1"] p by simp
  have cut: "(if int (length as) = 0 then drop 1 (as @ c # bs)
              else if int (length as) = int (length (as @ c # bs)) - 1 then take (length as) (as @ c # bs)
              else take (length as) (as @ c # bs) @ drop (length as + 1) (as @ c # bs)) = as @ bs"
    by auto
  have r: "Remove c st = (True, st\<lparr>cp_pool :=
      (if int (length as) = 0 then drop 1 (cp_pool st)
       else if int (length as) = int (length (cp_pool st)) - 1 then take (length as) (cp_pool st)
       else take (length as) (cp_pool st) @ drop (length as + 1) (cp_pool st))\<rparr>)"
    by (simp add: Remove_def Let_def x) (metis nat_int)
  show ?thesis using r cut by (simp only: p)
qed

lemma sint_minus_one:
  "- (2 ^ 63) < sint (w :: 64 word) \<Longrightarrow> sint (w - 1) = sint w - 1"
proof -
  assume lo: "- (2 ^ 63) < sint w"
  have hi: "sint w < 2 ^ 63" using sint_lt [of w] by simp
  have "sint (w - 1) = signed_take_bit 63 (sint w - sint (1 :: 64 word))"
    by (simp add: sint_word_ariths)
  also have "\<dots> = sint w - 1"
    using lo hi by (simp add: signed_take_bit_int_eq_self)
  finally show ?thesis .
qed

lemma sint_min_minus_one: "sint (w :: 64 word) = - (2 ^ 63) \<Longrightarrow> sint (w - 1) = 2 ^ 63 - 1"
proof -
  assume "sint w = - (2 ^ 63)"
  then have "sint (w - 1) = signed_take_bit 63 (- (2 ^ 63) - 1)"
    by (simp add: sint_word_ariths)
  also have "\<dots> = 2 ^ 63 - 1" by (simp add: signed_take_bit_eq_take_bit_shift take_bit_eq_mod)
  finally show ?thesis .
qed

lemma sorted_key_hd:
  "sorted (map f xs) \<Longrightarrow> xs \<noteq> [] \<Longrightarrow> u \<in> set xs \<Longrightarrow> f (hd xs) \<le> f u"
  by (cases xs) auto

lemma Select_Some:
  assumes "Select st = (Some t, st')"
  shows "t \<in> set (cp_pool st) \<and> (\<forall>u \<in> set (cp_pool st). rank_of st u \<le> rank_of st t)
    \<and> mset (cp_pool st') = mset (cp_pool st)
    \<and> ts_rank (cp_prio st' t) = ts_rank (cp_prio st t) - 1
    \<and> (\<forall>u. u \<noteq> t \<longrightarrow> cp_prio st' u = cp_prio st u) \<and> cp_closed st' = cp_closed st"
proof -
  let ?p = "pool_sort st (cp_pool st)"
  have ne: "cp_pool st \<noteq> []" using assms by (auto simp: Select_def split: if_splits)
  have ms: "mset ?p = mset (cp_pool st)" by (simp add: pool_sort_def)
  then have set_p: "set ?p = set (cp_pool st)" by (metis set_mset_mset)
  have ne': "?p \<noteq> []" using ne ms by auto
  have srt: "sorted (map (\<lambda>t. - rank_of st t) ?p)" by (simp add: pool_sort_def)
  have t: "t = hd ?p" and st': "st' = st\<lparr>cp_pool := ?p, cp_prio := (cp_prio st)(t := (cp_prio st t)\<lparr>ts_rank := ts_rank (cp_prio st t) - 1\<rparr>)\<rparr>"
    using assms ne by (auto simp: Select_def Let_def)
  have "\<forall>u \<in> set (cp_pool st). rank_of st u \<le> rank_of st t"
    using sorted_key_hd [OF srt ne'] set_p t by fastforce
  moreover have "t \<in> set (cp_pool st)" using t ne' set_p by (metis list.set_sel(1))
  ultimately show ?thesis using st' ms by simp
qed

lemma Select_None: "fst (Select st) = None \<longleftrightarrow> cp_pool st = []"
  by (simp add: Select_def Let_def)

text \<open>One \<open>Select\<close> on a pool whose ranks are \<open>r\<close>, or \<open>r - 1\<close> on the set \<open>S\<close> of tunnels
  already selected, takes a tunnel outside \<open>S\<close> and leaves the same shape with that
  tunnel added to \<open>S\<close>.\<close>

lemma Select_unselected_step:
  assumes dist: "distinct (cp_pool st)"
      and ranks: "\<forall>u \<in> set (cp_pool st). rank_of st u = (if u \<in> S then r - 1 else r)"
      and r: "- (2 ^ 63) < r" and u: "u \<in> set (cp_pool st)" "u \<notin> S"
  shows "\<exists>t st'. Select st = (Some t, st') \<and> t \<in> set (cp_pool st) \<and> t \<notin> S
     \<and> set (cp_pool st') = set (cp_pool st) \<and> distinct (cp_pool st')
     \<and> (\<forall>v \<in> set (cp_pool st'). rank_of st' v = (if v \<in> insert t S then r - 1 else r))"
proof -
  obtain t st' where sel: "Select st = (Some t, st')"
    using u by (cases "Select st") (auto simp: Select_def Let_def split: if_splits)
  note sp = Select_Some [OF sel]
  have "rank_of st t \<ge> r" using sp u ranks by force
  then have rt: "rank_of st t = r" and tS: "t \<notin> S"
    using sp ranks by (auto split: if_splits)
  have set': "set (cp_pool st') = set (cp_pool st)" using sp by (metis set_mset_mset)
  have dist': "distinct (cp_pool st')" using sp dist by (metis mset_eq_imp_distinct_iff)
  have rt': "rank_of st' t = r - 1"
    using sp rt r sint_minus_one [of "ts_rank (cp_prio st t)"] by (simp add: rank_of_def)
  have "rank_of st' v = (if v \<in> insert t S then r - 1 else r)" if v: "v \<in> set (cp_pool st')" for v
  proof (cases "v = t")
    case True then show ?thesis using rt' by simp
  next
    case False
    then have "rank_of st' v = rank_of st v" using sp by (simp add: rank_of_def)
    then show ?thesis using False v set' ranks by simp
  qed
  then show ?thesis using sel sp tS set' dist' by blast
qed

lemma select_n_unselected:
  assumes "distinct (cp_pool st)"
      and "\<forall>u \<in> set (cp_pool st). rank_of st u = (if u \<in> S then r - 1 else r)"
      and "- (2 ^ 63) < r"
      and "n = card (set (cp_pool st) - S)"
  shows "\<exists>ts. fst (select_n n st) = map Some ts \<and> distinct ts \<and> set ts = set (cp_pool st) - S"
  using assms
proof (induction n arbitrary: st S)
  case 0
  then show ?case by simp
next
  case (Suc n)
  then obtain u where "u \<in> set (cp_pool st)" "u \<notin> S"
    by (metis Diff_iff all_not_in_conv card.empty nat.distinct(1))
  then obtain t st' where sel: "Select st = (Some t, st')" and t: "t \<in> set (cp_pool st)" "t \<notin> S"
      and set': "set (cp_pool st') = set (cp_pool st)" and dist': "distinct (cp_pool st')"
      and ranks': "\<forall>v \<in> set (cp_pool st'). rank_of st' v = (if v \<in> insert t S then r - 1 else r)"
    using Select_unselected_step [OF Suc.prems(1-3)] by blast
  have card': "n = card (set (cp_pool st') - insert t S)"
    using Suc.prems(4) set' t by (simp add: card_Diff_subset_Int)
  obtain ts' where ts': "fst (select_n n st') = map Some ts'" "distinct ts'" "set ts' = set (cp_pool st') - insert t S"
    using Suc.IH [OF dist' ranks' Suc.prems(3) card'] by blast
  have "fst (select_n (Suc n) st) = map Some (t # ts')"
    using sel ts'(1) by (simp add: case_prod_beta)
  moreover have "distinct (t # ts')" using ts' by simp
  moreover have "set (t # ts') = set (cp_pool st) - S" using ts' set' t by auto
  ultimately show ?case by blast
qed

text \<open>C24: \<open>Remove c\<close> reports whether \<open>c\<close> is in the pool and deletes exactly its
  last occurrence, i.e. the index arithmetic of the three slice cases is the
  reference operation "remove the last \<open>c\<close>" on the pool.\<close>

theorem Remove_eq:
  "Remove c st = (c \<in> set (cp_pool st), st\<lparr>cp_pool := rev (remove1 c (rev (cp_pool st)))\<rparr>)"
proof (cases "c \<in> set (cp_pool st)")
  case False
  then show ?thesis by (simp add: Remove_absent remove1_idem)
next
  case True
  then obtain as bs where p: "cp_pool st = as @ c # bs" and bs: "c \<notin> set bs"
    using split_list_last by metis
  show ?thesis using Remove_split [OF p bs] rev_remove1_rev_split [OF bs, of as] p by simp
qed

text \<open>C21: \<open>Select\<close> on a non-empty pool returns a tunnel of the pool with the highest
  rank, keeps the pool a permutation of itself, lowers the selected tunnel's rank by one
  (as an \<open>int64\<close>, wrapping at the minimum) and leaves every other tunnel's priority
  unchanged; on an empty pool it returns \<open>nil\<close> and changes nothing.\<close>

theorem Select_max_rank:
  "cp_pool st \<noteq> [] \<Longrightarrow>
   \<exists>t. fst (Select st) = Some t \<and> t \<in> set (cp_pool st)
     \<and> (\<forall>u \<in> set (cp_pool st). rank_of st u \<le> rank_of st t)
     \<and> mset (cp_pool (snd (Select st))) = mset (cp_pool st)
     \<and> rank_of (snd (Select st)) t =
          (if rank_of st t = - (2 ^ 63) then 2 ^ 63 - 1 else rank_of st t - 1)
     \<and> (\<forall>u. u \<noteq> t \<longrightarrow> cp_prio (snd (Select st)) u = cp_prio st u)"
proof -
  assume ne: "cp_pool st \<noteq> []"
  then obtain t st' where sel: "Select st = (Some t, st')"
    by (cases "Select st") (auto simp: Select_def Let_def split: if_splits)
  note sp = Select_Some [OF sel]
  have "rank_of st' t = (if rank_of st t = - (2 ^ 63) then 2 ^ 63 - 1 else rank_of st t - 1)"
    using sp sint_minus_one sint_min_minus_one sint_ge [of "ts_rank (cp_prio st t)"]
    by (auto simp: rank_of_def)
  then show ?thesis using sp sel by auto
qed

text \<open>C22: round robin.  Over a pool of distinct tunnels of one equal rank above the
  \<open>int64\<close> minimum, as many consecutive \<open>Select\<close> calls as there are tunnels return
  every tunnel exactly once.\<close>

theorem Select_round_robin:
  assumes "distinct (cp_pool st)"
      and "\<forall>u \<in> set (cp_pool st). rank_of st u = r"
      and "- (2 ^ 63) < r"
  shows "\<exists>ts. fst (select_n (length (cp_pool st)) st) = map Some ts
           \<and> distinct ts \<and> set ts = set (cp_pool st)"
  using select_n_unselected [of st "{}" r] assms by (simp add: distinct_card)

text \<open>\<open>destroy\<close> closes every pooled tunnel once, in pool order, and empties the
  pool, so a later \<open>Select\<close> returns \<open>nil\<close>.\<close>

lemma destroy_pool_closes:
  "cp_closed (destroy_pool st) = cp_closed st @ cp_pool st
   \<and> fst (Select (destroy_pool st)) = None"
  by (simp add: destroy_pool_def Select_None)

text \<open>Witnesses at concrete pools.\<close>

theorem Select_max_rank_witness:
  "fst (Select \<lparr>cp_pool = [1, 2], cp_prio = (\<lambda>_. \<lparr>ts_last = 0, ts_rank = 0\<rparr>)(2 := \<lparr>ts_last = 0, ts_rank = 0x8000000000000000\<rparr>), cp_closed = []\<rparr>) = Some 1
   \<and> rank_of (snd (Select \<lparr>cp_pool = [2], cp_prio = (\<lambda>_. \<lparr>ts_last = 0, ts_rank = 0x8000000000000000\<rparr>), cp_closed = []\<rparr>)) 2 = 2 ^ 63 - 1"
proof -
  let ?st = "\<lparr>cp_pool = [2::nat], cp_prio = (\<lambda>_. \<lparr>ts_last = 0, ts_rank = 0x8000000000000000\<rparr>), cp_closed = []\<rparr>"
  obtain t where "fst (Select ?st) = Some t" "t \<in> set (cp_pool ?st)"
     "rank_of (snd (Select ?st)) t = (if rank_of ?st t = - (2 ^ 63) then 2 ^ 63 - 1 else rank_of ?st t - 1)"
    using Select_max_rank [of ?st] by auto
  then have "rank_of (snd (Select ?st)) 2 = 2 ^ 63 - 1" by (simp add: rank_of_def)
  moreover have "fst (Select \<lparr>cp_pool = [1, 2], cp_prio = (\<lambda>_. \<lparr>ts_last = 0, ts_rank = 0\<rparr>)(2 := \<lparr>ts_last = 0, ts_rank = 0x8000000000000000\<rparr>), cp_closed = []\<rparr>) = Some 1"
    by (simp add: Select_def pool_sort_def rank_of_def)
  ultimately show ?thesis by simp
qed

theorem Select_round_robin_witness:
  "\<exists>ts. fst (select_n 3 \<lparr>cp_pool = [4, 5, 6], cp_prio = (\<lambda>_. \<lparr>ts_last = 0, ts_rank = 7\<rparr>), cp_closed = []\<rparr>) = map Some ts
     \<and> distinct ts \<and> set ts = {4, 5, 6}"
  using Select_round_robin [of "\<lparr>cp_pool = [4, 5, 6], cp_prio = (\<lambda>_. \<lparr>ts_last = 0, ts_rank = 7\<rparr>), cp_closed = []\<rparr>" 7]
  by (simp add: rank_of_def numeral_3_eq_3 del: select_n.simps)

end
