(* ===== verification/PoolSpec.thy ===== *)
theory PoolSpec
  imports ConnPool
begin

text \<open>
  An abstract specification of the tunnel pool of \<open>src/tunnel/connPool.go\<close> and the
  refinement of \<open>ConnPool\<close> to it.  Abstractly the pool is a multiset of tunnels, each
  with an integer rank, together with the multiset of tunnels \<open>destroy\<close> closed; the
  order of the slice, which \<open>Select\<close> re-sorts and \<open>Remove\<close> searches from the end, is
  not part of the contract.  \<open>Select\<close> is specified as a relation: any tunnel of maximal
  rank may be returned, and its rank goes down by one as an \<open>int64\<close> (wrapping at the
  minimum).  The abstraction \<open>pool_abs\<close> forgets the order; every operation of the code
  commutes with it, and so does every sequence of operations.
\<close>

record apool =
  ap_conns :: "tid multiset"
  ap_rank :: "tid \<Rightarrow> int"
  ap_closed :: "tid multiset"

definition pool_abs :: "pool_st \<Rightarrow> apool" where
  "pool_abs st = \<lparr>ap_conns = mset (cp_pool st), ap_rank = rank_of st, ap_closed = mset (cp_closed st)\<rparr>"

text \<open>\<open>int64\<close> decrement on the integer reading of the rank.\<close>

definition dec64 :: "int \<Rightarrow> int" where
  "dec64 r = signed_take_bit 63 (r - 1)"

datatype pool_op = PPush tid | PRemove tid | PSelect | PDestroy

text \<open>The specification: what each operation may return and how it changes the
  abstract pool.\<close>

inductive a_step :: "pool_op \<Rightarrow> apool \<Rightarrow> apool \<Rightarrow> bool" where
  a_push: "a_step (PPush t) A (A\<lparr>ap_conns := add_mset t (ap_conns A)\<rparr>)"
| a_remove_in: "t \<in># ap_conns A \<Longrightarrow> a_step (PRemove t) A (A\<lparr>ap_conns := ap_conns A - {#t#}\<rparr>)"
| a_remove_out: "t \<notin># ap_conns A \<Longrightarrow> a_step (PRemove t) A A"
| a_select_empty: "ap_conns A = {#} \<Longrightarrow> a_step PSelect A A"
| a_select: "t \<in># ap_conns A \<Longrightarrow> \<forall>u \<in># ap_conns A. ap_rank A u \<le> ap_rank A t \<Longrightarrow>
    a_step PSelect A (A\<lparr>ap_rank := (ap_rank A)(t := dec64 (ap_rank A t))\<rparr>)"
| a_destroy: "a_step PDestroy A (A\<lparr>ap_conns := {#}, ap_closed := ap_closed A + ap_conns A\<rparr>)"

inductive a_steps :: "pool_op list \<Rightarrow> apool \<Rightarrow> apool \<Rightarrow> bool" where
  a_nil: "a_steps [] A A"
| a_cons: "a_step op A B \<Longrightarrow> a_steps ops B C \<Longrightarrow> a_steps (op # ops) A C"

text \<open>The code's operations, as the multiplexer calls them under the pool's lock.\<close>

fun pool_exec :: "pool_op \<Rightarrow> pool_st \<Rightarrow> pool_st" where
  "pool_exec (PPush t) st = Push t st"
| "pool_exec (PRemove t) st = snd (Remove t st)"
| "pool_exec PSelect st = snd (Select st)"
| "pool_exec PDestroy st = destroy_pool st"

definition pool_run :: "pool_op list \<Rightarrow> pool_st \<Rightarrow> pool_st" where
  "pool_run ops st = fold pool_exec ops st"

lemma sint_dec: "sint (w - 1 :: 64 word) = dec64 (sint w)"
  by (simp add: dec64_def sint_word_ariths)

lemma Remove_mset:
  "fst (Remove c st) = (c \<in> set (cp_pool st))
   \<and> mset (cp_pool (snd (Remove c st))) = mset (cp_pool st) - {#c#}
   \<and> cp_prio (snd (Remove c st)) = cp_prio st \<and> cp_closed (snd (Remove c st)) = cp_closed st"
proof (cases "c \<in> set (cp_pool st)")
  case False
  then show ?thesis by (simp add: Remove_absent diff_single_trivial)
next
  case True
  then obtain as bs where p: "cp_pool st = as @ c # bs" and bs: "c \<notin> set bs"
    using split_list_last by metis
  show ?thesis using Remove_split [OF p bs] p by simp
qed

lemma Select_refines: "a_step PSelect (pool_abs st) (pool_abs (snd (Select st)))"
proof (cases "fst (Select st)")
  case None
  then have "cp_pool st = []" by (simp add: Select_None)
  then show ?thesis by (simp add: Select_def pool_abs_def a_select_empty)
next
  case (Some t)
  then obtain st' where sel: "Select st = (Some t, st')" by (cases "Select st") auto
  note sp = Select_Some [OF sel]
  have "pool_abs st' = (pool_abs st)\<lparr>ap_rank := (ap_rank (pool_abs st))(t := dec64 (ap_rank (pool_abs st) t))\<rparr>"
    using sp by (auto simp: pool_abs_def rank_of_def sint_dec)
  moreover have "t \<in># ap_conns (pool_abs st)" "\<forall>u \<in># ap_conns (pool_abs st). ap_rank (pool_abs st) u \<le> ap_rank (pool_abs st) t"
    using sp by (simp_all add: pool_abs_def)
  ultimately show ?thesis using sel a_select by fastforce
qed

lemma pool_exec_refines: "a_step op (pool_abs st) (pool_abs (pool_exec op st))"
proof (cases op)
  case (PPush t)
  have "pool_abs (Push t st) = (pool_abs st)\<lparr>ap_conns := add_mset t (ap_conns (pool_abs st))\<rparr>"
    by (simp add: pool_abs_def Push_def rank_of_def [abs_def])
  then show ?thesis using PPush a_push by simp
next
  case (PRemove t)
  note r = Remove_mset [of t st]
  show ?thesis
  proof (cases "t \<in> set (cp_pool st)")
    case True
    then have "pool_abs (snd (Remove t st)) = (pool_abs st)\<lparr>ap_conns := ap_conns (pool_abs st) - {#t#}\<rparr>"
      using r by (simp add: pool_abs_def rank_of_def [abs_def])
    then show ?thesis using PRemove True a_remove_in [of t "pool_abs st"] by (simp add: pool_abs_def)
  next
    case False
    then show ?thesis using PRemove a_remove_out [of t "pool_abs st"] by (simp add: Remove_absent pool_abs_def)
  qed
next
  case PSelect
  then show ?thesis using Select_refines by simp
next
  case PDestroy
  have "pool_abs (destroy_pool st) = (pool_abs st)\<lparr>ap_conns := {#}, ap_closed := ap_closed (pool_abs st) + ap_conns (pool_abs st)\<rparr>"
    by (simp add: pool_abs_def destroy_pool_def rank_of_def [abs_def])
  then show ?thesis using PDestroy a_destroy by simp
qed

lemma pool_run_abs: "a_steps ops (pool_abs st) (pool_abs (pool_run ops st))"
proof (induction ops arbitrary: st)
  case Nil
  then show ?case by (simp add: pool_run_def a_nil)
next
  case (Cons op ops)
  then show ?case
    using a_cons [OF pool_exec_refines [of op st], of ops] by (simp add: pool_run_def)
qed

text \<open>C23: The pool refines its specification: a new pool is empty, \<open>Len\<close> is the size of
  the abstract multiset, and every sequence of \<open>Push\<close>, \<open>Remove\<close>, \<open>Select\<close> and
  \<open>destroy\<close> calls on any pool moves its abstraction along a run of the specification
  (\<open>Remove\<close> takes one copy out and reports whether there was one, \<open>Select\<close> returns
  a tunnel of maximal rank and lowers its rank as an \<open>int64\<close>, \<open>destroy\<close> moves every
  tunnel to the closed ones).\<close>

theorem pool_run_refines:
  "ap_conns (pool_abs (NewConnPool prio)) = {#} \<and> Len st = size (ap_conns (pool_abs st))
   \<and> a_steps ops (pool_abs st) (pool_abs (pool_run ops st))"
  using pool_run_abs by (simp add: NewConnPool_def Len_def pool_abs_def)

end
