(* ===== verification/Queue.thy ===== *)
theory Queue
  imports Prelude Exception ConnPool "HOL-Library.AList"
begin

text \<open>
  The egress side of the multiplexer, \<open>src/tunnel/queue.go\<close>: the edges (\<open>edgeConn\<close>),
  the router that maps stream keys to edges (\<open>egressRouter\<close>) and the per-edge send
  queue (\<open>equeue\<close>) whose loop writes the queued frames to the edge's local socket.

  Edges are shared between the router, the frames that point back to them and the
  queues, so the model keeps them in an explicit store, \<open>mx_edges\<close>, a list indexed by
  edge id (\<open>eid\<close>): a new edge is appended.  An edge's \<open>queue\<close> is \<open>None\<close> while it is
  \<open>nil\<close>, and \<open>Some b\<close> once \<open>initEqueue\<close> ran, where the buffer \<open>b\<close> is \<open>Some fs\<close> while
  the loop runs and \<open>None\<close> once \<open>_close\<close> set it to \<open>nil\<close>.  The router's \<open>registry\<close>
  is an association list with distinct keys, \<open>None\<close> after \<open>destroy\<close> set it to
  \<open>nil\<close>.  Each loop iteration of \<open>sendLoop\<close> is one step \<open>sendLoop_step\<close>; the
  interleaving of the tunnel reader's deliveries and the send loops' iterations is an
  explicit list of events run by \<open>q_run\<close>.  The local socket answers each \<open>Write\<close> from
  a script of (bytes accepted, error) pairs, and accepts everything once the script is
  exhausted.  Frames and the frame actions belong to the multiplexer, whose source is not
  part of the repository; they follow the frame layout of the specification.
\<close>

datatype frame_action = FRAME_ACTION_SYN | FRAME_ACTION_DATA | FRAME_ACTION_CLOSE_R
  | FRAME_ACTION_CLOSE_W | FRAME_ACTION_CLOSE | FRAME_ACTION_PING | FRAME_ACTION_PONG

type_synonym eid = nat

record frame =
  fr_action :: frame_action
  fr_sid :: u16
  fr_length :: u16
  fr_data :: bytes
  fr_conn :: "eid option"

definition TCP_CLOSE_R :: byte where "TCP_CLOSE_R = 1"
definition TCP_CLOSE_W :: byte where "TCP_CLOSE_W = push_bit 1 1"
definition TCP_CLOSED :: byte where "TCP_CLOSED = TCP_CLOSE_R OR TCP_CLOSE_W"

record lconn =
  lc_out :: bytes
  lc_res :: "(nat \<times> bool) list"
  lc_addr :: bool
  lc_closed :: bool
  lc_wclosed :: bool

definition conn_Write :: "bytes \<Rightarrow> lconn \<Rightarrow> (nat \<times> bool) \<times> lconn" where
  "conn_Write d c =
     (case lc_res c of
        [] \<Rightarrow> ((length d, False), c\<lparr>lc_out := lc_out c @ d\<rparr>)
      | (n, err) # rs \<Rightarrow>
          (let k = min n (length d) in ((k, err), c\<lparr>lc_out := lc_out c @ take k d, lc_res := rs\<rparr>)))"

definition SafeClose :: "lconn \<Rightarrow> lconn" where
  "SafeClose c = c\<lparr>lc_closed := True\<rparr>"

definition closeW :: "lconn \<Rightarrow> lconn" where
  "closeW c = c\<lparr>lc_wclosed := True\<rparr>"

record edge =
  e_tun :: "tid option"
  e_conn :: lconn
  e_ready :: bool
  e_key :: string
  e_dest :: string
  e_queue :: "frame list option option"
  e_positive :: bool
  e_closed :: byte

record mux =
  mx_isClient :: bool
  mx_pool :: pool_st
  mx_tunid :: "tid \<Rightarrow> string"
  mx_tunalive :: "tid \<Rightarrow> bool"
  mx_tunout :: "(tid \<times> frame) list"
  mx_edges :: "edge list"
  mx_registry :: "(string \<times> eid) list option"
  mx_stopped :: bool

definition newEdgeConn :: "bool \<Rightarrow> string \<Rightarrow> string \<Rightarrow> tid option \<Rightarrow> lconn \<Rightarrow> edge" where
  "newEdgeConn isClient key dest tun conn =
     \<lparr>e_tun = tun, e_conn = conn, e_ready = isClient, e_key = key, e_dest = dest,
      e_queue = None, e_positive = False, e_closed = 0\<rparr>"

definition q_push :: "frame \<Rightarrow> frame list option \<Rightarrow> frame list option" where
  "q_push f b = (case b of Some fs \<Rightarrow> Some (fs @ [f]) | None \<Rightarrow> None)"

text \<open>The guard \<open>if e.queue != nil { e.queue._push(frm) }\<close> shared by \<open>deliver\<close>,
  \<open>destroy\<close> and \<open>cleanOfTun\<close>.\<close>

definition push_if_queue :: "frame \<Rightarrow> edge \<Rightarrow> edge" where
  "push_if_queue f e = (case e_queue e of Some b \<Rightarrow> e\<lparr>e_queue := Some (q_push f b)\<rparr> | None \<Rightarrow> e)"

definition update_edge :: "eid \<Rightarrow> (edge \<Rightarrow> edge) \<Rightarrow> mux \<Rightarrow> mux" where
  "update_edge i g mx = mx\<lparr>mx_edges := (mx_edges mx)[i := g (mx_edges mx ! i)]\<rparr>"

definition deliver :: "eid \<Rightarrow> frame \<Rightarrow> mux \<Rightarrow> mux" where
  "deliver i f mx = update_edge i (push_if_queue (f\<lparr>fr_conn := Some i\<rparr>)) mx"

definition initEqueue :: "edge \<Rightarrow> edge" where
  "initEqueue e = e\<lparr>e_queue := Some (Some [])\<rparr>"

definition close_frame :: frame where
  "close_frame = \<lparr>fr_action = FRAME_ACTION_CLOSE, fr_sid = 0, fr_length = 0, fr_data = [], fr_conn = None\<rparr>"

definition reg_of :: "mux \<Rightarrow> (string \<times> eid) list" where
  "reg_of mx = (case mx_registry mx of Some reg \<Rightarrow> reg | None \<Rightarrow> [])"

definition getRegistered :: "string \<Rightarrow> mux \<Rightarrow> eid option \<times> mux" where
  "getRegistered key mx =
     (case map_of (reg_of mx) key of
        Some i \<Rightarrow>
          (if TCP_CLOSED \<le> e_closed (mx_edges mx ! i)
           then (None, mx\<lparr>mx_registry := map_option (AList.delete key) (mx_registry mx)\<rparr>)
           else (Some i, mx))
      | None \<Rightarrow> (None, mx))"

definition clean :: "mux \<Rightarrow> mux" where
  "clean mx = mx\<lparr>mx_registry := map_option
     (filter (\<lambda>(k, i). \<not> (TCP_CLOSED \<le> e_closed (mx_edges mx ! i)
                           \<or> \<not> lc_addr (e_conn (mx_edges mx ! i)))))
     (mx_registry mx)\<rparr>"

definition register :: "string \<Rightarrow> string \<Rightarrow> tid option \<Rightarrow> lconn \<Rightarrow> bool \<Rightarrow> mux \<Rightarrow> panic_val + eid \<times> mux" where
  "register key dest tun conn positive mx =
     (case map_of (reg_of mx) key of
        Some i \<Rightarrow> Inr (i, mx)
      | None \<Rightarrow>
          (case mx_registry mx of
             None \<Rightarrow> Inl (PErr ''assignment to entry in nil map'')
           | Some reg \<Rightarrow>
               (let e0 = (newEdgeConn (mx_isClient mx) key dest tun conn)\<lparr>e_positive := positive\<rparr>;
                    e = (if \<not> positive then initEqueue e0 else e0);
                    i = length (mx_edges mx) in
                Inr (i, mx\<lparr>mx_edges := mx_edges mx @ [e],
                           mx_registry := Some (AList.update key i reg)\<rparr>))))"

definition push_all :: "((string \<times> eid) \<Rightarrow> bool) \<Rightarrow> (string \<times> eid) list \<Rightarrow> edge list \<Rightarrow> edge list" where
  "push_all sel reg es =
     fold (\<lambda>(k, i) es. if sel (k, i) then es[i := push_if_queue close_frame (es ! i)] else es) reg es"

definition router_destroy :: "mux \<Rightarrow> panic_val option \<times> mux" where
  "router_destroy mx =
     (let mx1 = mx\<lparr>mx_edges := push_all (\<lambda>_. True) (reg_of mx) (mx_edges mx)\<rparr> in
      if mx_stopped mx then (Some (PErr ''send on closed channel''), mx1)
      else (None, mx1\<lparr>mx_registry := None, mx_stopped := True\<rparr>))"

definition cleanOfTun :: "tid \<Rightarrow> mux \<Rightarrow> mux" where
  "cleanOfTun t mx =
     (let prefix = mx_tunid mx t;
          sel = (\<lambda>(k, i). HasPrefix k prefix \<and> e_queue (mx_edges mx ! i) \<noteq> None) in
      mx\<lparr>mx_edges := push_all sel (reg_of mx) (mx_edges mx),
         mx_registry := map_option (filter (Not \<circ> sel)) (mx_registry mx)\<rparr>)"

text \<open>\<open>_close\<close>: the buffer becomes \<open>nil\<close>; a forced close marks both directions closed
  and closes the local socket, otherwise only its write side is shut.\<close>

definition q_close :: "eid \<Rightarrow> bool \<Rightarrow> mux \<Rightarrow> mux" where
  "q_close i force mx = update_edge i (\<lambda>e.
     if force then e\<lparr>e_queue := Some None, e_closed := TCP_CLOSE_R OR TCP_CLOSE_W, e_conn := SafeClose (e_conn e)\<rparr>
     else e\<lparr>e_queue := Some None, e_conn := closeW (e_conn e)\<rparr>) mx"

text \<open>\<open>sendFrame\<close> writes to the socket of the edge the frame points to (\<open>frm.conn\<close>); it
  reports an error unless the socket accepted exactly \<open>frm.length\<close> bytes without error.\<close>

definition sendFrame :: "frame \<Rightarrow> mux \<Rightarrow> panic_val + bool \<times> mux" where
  "sendFrame f mx =
     (case fr_conn f of
        None \<Rightarrow> Inl (PErr ''invalid memory address or nil pointer dereference'')
      | Some j \<Rightarrow>
          (case conn_Write (fr_data f) (e_conn (mx_edges mx ! j)) of
             ((nw, ew), c') \<Rightarrow>
               Inr (\<not> (nw = unat (fr_length f) \<and> \<not> ew), update_edge j (\<lambda>e. e\<lparr>e_conn := c'\<rparr>) mx)))"

definition tunWrite2 :: "tid \<Rightarrow> frame \<Rightarrow> mux \<Rightarrow> mux" where
  "tunWrite2 t f mx = mx\<lparr>mx_tunout := mx_tunout mx @ [(t, f)]\<rparr>"

text \<open>The error branch of \<open>sendLoop\<close> before its \<open>_close\<close>: the first time the write side
  fails, the peer is told with a \<open>CLOSE_R\<close> on the edge's tunnel, or, on a client whose
  tunnel is gone, on a tunnel taken from the pool.\<close>

definition on_write_error :: "eid \<Rightarrow> frame \<Rightarrow> mux \<Rightarrow> mux" where
  "on_write_error i f mx =
     (let e = mx_edges mx ! i in
      if e_closed e AND TCP_CLOSE_W = 0 then
        (let mx1 = update_edge i (\<lambda>e. e\<lparr>e_closed := e_closed e OR TCP_CLOSE_W\<rparr>) mx;
             (tun, mx2) =
               (if (case e_tun e of None \<Rightarrow> True | Some t \<Rightarrow> \<not> mx_tunalive mx t) \<and> mx_isClient mx
                then (case Select (mx_pool mx1) of (s, p') \<Rightarrow> (s, mx1\<lparr>mx_pool := p'\<rparr>))
                else (e_tun e, mx1)) in
         (case tun of
            None \<Rightarrow> mx2
          | Some t \<Rightarrow> tunWrite2 t (f\<lparr>fr_length := 0, fr_action := FRAME_ACTION_CLOSE_R\<rparr>) mx2))
      else mx)"

definition pop_mx :: "eid \<Rightarrow> frame list \<Rightarrow> mux \<Rightarrow> mux" where
  "pop_mx i rest = update_edge i (\<lambda>e. e\<lparr>e_queue := Some (Some rest)\<rparr>)"

text \<open>One iteration of \<open>sendLoop\<close> on edge \<open>i\<close>: \<open>None\<close> when the loop cannot proceed
  (no queue, an exited queue, or an empty buffer, where it waits on the condition).\<close>

definition sendLoop_step :: "eid \<Rightarrow> mux \<Rightarrow> (panic_val + mux) option" where
  "sendLoop_step i mx =
     (if length (mx_edges mx) \<le> i then None
      else (case e_queue (mx_edges mx ! i) of
        Some (Some (f # rest)) \<Rightarrow>
          (let mx1 = pop_mx i rest mx in
           Some (case fr_action f of
             FRAME_ACTION_CLOSE \<Rightarrow> Inr (q_close i True mx1)
           | FRAME_ACTION_CLOSE_W \<Rightarrow> Inr (q_close i False mx1)
           | _ \<Rightarrow> (case sendFrame f mx1 of
                    Inl p \<Rightarrow> Inl p
                  | Inr (werr, mx2) \<Rightarrow>
                      Inr (if werr then q_close i True (on_write_error i f mx2) else mx2))))
      | _ \<Rightarrow> None))"

datatype qev = QDeliver eid frame | QSend eid

fun q_run :: "qev list \<Rightarrow> mux \<Rightarrow> panic_val + mux" where
  "q_run [] mx = Inr mx"
| "q_run (QDeliver i f # evs) mx = q_run evs (deliver i f mx)"
| "q_run (QSend i # evs) mx =
     (case sendLoop_step i mx of
        None \<Rightarrow> q_run evs mx
      | Some (Inl p) \<Rightarrow> Inl p
      | Some (Inr mx') \<Rightarrow> q_run evs mx')"

text \<open>Frames the loop hands to \<open>sendFrame\<close> and whose length field matches their payload.\<close>

definition sendable :: "frame \<Rightarrow> bool" where
  "sendable f = (fr_action f \<noteq> FRAME_ACTION_CLOSE \<and> fr_action f \<noteq> FRAME_ACTION_CLOSE_W
                 \<and> unat (fr_length f) = length (fr_data f))"

text \<open>Well-formed queues: every frame that a loop would send points back to the loop's
  own edge, as \<open>deliver\<close> arranges.\<close>

definition edge_wf :: "eid \<Rightarrow> edge \<Rightarrow> bool" where
  "edge_wf k e = (case e_queue e of
       Some (Some b) \<Rightarrow> list_all (\<lambda>f. fr_action f = FRAME_ACTION_CLOSE
                                   \<or> fr_action f = FRAME_ACTION_CLOSE_W \<or> fr_conn f = Some k) b
     | _ \<Rightarrow> True)"

definition q_wf :: "mux \<Rightarrow> bool" where
  "q_wf mx = (\<forall>k < length (mx_edges mx). edge_wf k (mx_edges mx ! k))"

text \<open>The frames an event sequence delivers to edge \<open>i\<close>, in order.\<close>

fun delivered :: "eid \<Rightarrow> qev list \<Rightarrow> frame list" where
  "delivered i [] = []"
| "delivered i (QDeliver j f # evs) = (if j = i then f # delivered i evs else delivered i evs)"
| "delivered i (QSend j # evs) = delivered i evs"

text \<open>The router's registry is well formed: distinct keys, distinct edges, every edge in
  the store.\<close>

definition reg_wf :: "mux \<Rightarrow> bool" where
  "reg_wf mx = (case mx_registry mx of
       None \<Rightarrow> True
     | Some reg \<Rightarrow> distinct (map fst reg) \<and> distinct (map snd reg)
                   \<and> list_all (\<lambda>(k, i). i < length (mx_edges mx)) reg)"

text \<open>The router's operations, as the multiplexer calls them.\<close>

datatype router_op = RRegister string string "tid option" lconn bool | RGet string
  | RClean | RCleanOfTun tid | RDestroy

fun router_apply :: "router_op \<Rightarrow> mux \<Rightarrow> panic_val + mux" where
  "router_apply (RRegister key dest tun conn positive) mx =
     (case register key dest tun conn positive mx of Inl p \<Rightarrow> Inl p | Inr (_, mx') \<Rightarrow> Inr mx')"
| "router_apply (RGet key) mx = Inr (snd (getRegistered key mx))"
| "router_apply RClean mx = Inr (clean mx)"
| "router_apply (RCleanOfTun t) mx = Inr (cleanOfTun t mx)"
| "router_apply RDestroy mx =
     (case router_destroy mx of (Some p, _) \<Rightarrow> Inl p | (None, mx') \<Rightarrow> Inr mx')"

text \<open>A server-side multiplexer with one tunnel \<open>0\<close> (identifier \<open>t0\<close>) and one edge
  \<open>t0#1\<close> with a running, empty queue, used by the examples below.\<close>

definition lconn0 :: lconn where
  "lconn0 = \<lparr>lc_out = [], lc_res = [], lc_addr = True, lc_closed = False, lc_wclosed = False\<rparr>"

definition edge0 :: edge where
  "edge0 = \<lparr>e_tun = Some 0, e_conn = lconn0, e_ready = False, e_key = ''t0#1'', e_dest = ''host'',
            e_queue = Some (Some []), e_positive = False, e_closed = 0\<rparr>"

definition mux0 :: "edge \<Rightarrow> mux" where
  "mux0 e = \<lparr>mx_isClient = False,
             mx_pool = \<lparr>cp_pool = [0], cp_prio = (\<lambda>_. \<lparr>ts_last = 0, ts_rank = 0\<rparr>), cp_closed = []\<rparr>,
             mx_tunid = (\<lambda>_. ''t0''), mx_tunalive = (\<lambda>_. True), mx_tunout = [],
             mx_edges = [e], mx_registry = Some [(''t0#1'', 0)], mx_stopped = False\<rparr>"

definition data_frame :: "bytes \<Rightarrow> frame" where
  "data_frame d = \<lparr>fr_action = FRAME_ACTION_DATA, fr_sid = 1, fr_length = of_nat (length d),
                   fr_data = d, fr_conn = None\<rparr>"

lemma update_edge_length [simp]: "length (mx_edges (update_edge j g mx)) = length (mx_edges mx)"
  by (simp add: update_edge_def)

lemma update_edge_nth [simp]:
  "mx_edges (update_edge j g mx) ! k = (if k = j \<and> j < length (mx_edges mx) then g (mx_edges mx ! j) else mx_edges mx ! k)"
  by (auto simp: update_edge_def nth_list_update list_update_beyond)

lemma update_edge_other [simp]:
  "mx_isClient (update_edge j g mx) = mx_isClient mx"
  "mx_pool (update_edge j g mx) = mx_pool mx"
  "mx_tunalive (update_edge j g mx) = mx_tunalive mx"
  "mx_tunout (update_edge j g mx) = mx_tunout mx"
  "mx_registry (update_edge j g mx) = mx_registry mx"
  "mx_tunid (update_edge j g mx) = mx_tunid mx"
  by (simp_all add: update_edge_def)

lemma on_write_error_edges:
  "length (mx_edges (on_write_error i f mx)) = length (mx_edges mx)"
  "k \<noteq> i \<Longrightarrow> mx_edges (on_write_error i f mx) ! k = mx_edges mx ! k"
  "e_queue (mx_edges (on_write_error i f mx) ! i) = e_queue (mx_edges mx ! i)"
  "e_conn (mx_edges (on_write_error i f mx) ! i) = e_conn (mx_edges mx ! i)"
  by (auto simp: on_write_error_def Let_def tunWrite2_def case_prod_beta split: option.splits prod.splits)

lemma sendFrame_Some:
  "fr_conn f = Some j \<Longrightarrow> conn_Write (fr_data f) (e_conn (mx_edges mx ! j)) = ((nw, ew), c') \<Longrightarrow>
   sendFrame f mx = Inr (\<not> (nw = unat (fr_length f) \<and> \<not> ew), update_edge j (\<lambda>e. e\<lparr>e_conn := c'\<rparr>) mx)"
  by (simp add: sendFrame_def)

lemma q_wf_frame:
  "edge_wf k e \<Longrightarrow> e_queue e = Some (Some (f # rest)) \<Longrightarrow> fr_action f \<noteq> FRAME_ACTION_CLOSE \<Longrightarrow>
   fr_action f \<noteq> FRAME_ACTION_CLOSE_W \<Longrightarrow> fr_conn f = Some k"
  by (simp add: edge_wf_def)

lemma edge_wf_pop: "edge_wf k e \<Longrightarrow> e_queue e = Some (Some (f # rest)) \<Longrightarrow> e_queue e' = Some (Some rest) \<Longrightarrow> edge_wf k e'"
  by (simp add: edge_wf_def)

lemma edge_wf_exited: "e_queue e = Some None \<Longrightarrow> edge_wf k e"
  by (simp add: edge_wf_def)

lemma edge_wf_queue: "e_queue e' = e_queue e \<Longrightarrow> edge_wf k e \<Longrightarrow> edge_wf k e'"
  by (simp add: edge_wf_def)

lemma q_wf_change:
  assumes "q_wf mx" "length (mx_edges mx') = length (mx_edges mx)"
      and "\<And>k. k \<noteq> j \<Longrightarrow> mx_edges mx' ! k = mx_edges mx ! k"
      and "j < length (mx_edges mx) \<Longrightarrow> edge_wf j (mx_edges mx' ! j)"
  shows "q_wf mx'"
  using assms unfolding q_wf_def by (metis)

lemma q_wf_deliver: "q_wf mx \<Longrightarrow> q_wf (deliver i f mx)"
  unfolding deliver_def
  by (rule q_wf_change [where j = i]) (auto simp: q_wf_def edge_wf_def push_if_queue_def q_push_def
      split: option.splits)

lemma q_close_wf: "q_wf mx \<Longrightarrow> q_wf (q_close j force mx)"
  unfolding q_close_def by (rule q_wf_change [where j = j]) (auto simp: edge_wf_def)

lemma q_close_other: "k \<noteq> j \<Longrightarrow> mx_edges (q_close j force mx) ! k = mx_edges mx ! k"
  "length (mx_edges (q_close j force mx)) = length (mx_edges mx)"
  by (simp_all add: q_close_def)

lemma sendLoop_step_eq:
  assumes "i < length (mx_edges mx)" "e_queue (mx_edges mx ! i) = Some (Some (f # rest))"
  shows "sendLoop_step i mx = Some
    (if fr_action f = FRAME_ACTION_CLOSE then Inr (q_close i True (pop_mx i rest mx))
     else if fr_action f = FRAME_ACTION_CLOSE_W then Inr (q_close i False (pop_mx i rest mx))
     else (case sendFrame f (pop_mx i rest mx) of
             Inl p \<Rightarrow> Inl p
           | Inr (werr, mx2) \<Rightarrow> Inr (if werr then q_close i True (on_write_error i f mx2) else mx2)))"
  using assms by (cases "fr_action f") (simp_all add: sendLoop_step_def Let_def pop_mx_def)

lemma sendLoop_step_None:
  "e_queue (mx_edges mx ! i) \<noteq> None \<Longrightarrow> e_queue (mx_edges mx ! i) \<noteq> Some None \<Longrightarrow>
   e_queue (mx_edges mx ! i) \<noteq> Some (Some []) \<Longrightarrow> i < length (mx_edges mx) \<Longrightarrow> sendLoop_step i mx \<noteq> None"
  by (auto simp: sendLoop_step_def Let_def split: option.splits list.splits)

lemma sendLoop_step_Some:
  "sendLoop_step i mx = Some r \<Longrightarrow> \<exists>f rest. i < length (mx_edges mx) \<and> e_queue (mx_edges mx ! i) = Some (Some (f # rest))"
  by (auto simp: sendLoop_step_def Let_def split: option.splits list.splits if_splits)

lemma pop_mx_wf:
  "q_wf mx \<Longrightarrow> i < length (mx_edges mx) \<Longrightarrow> e_queue (mx_edges mx ! i) = Some (Some (f # rest)) \<Longrightarrow> q_wf (pop_mx i rest mx)"
  unfolding pop_mx_def
  by (rule q_wf_change [where j = i]) (auto simp: q_wf_def intro: edge_wf_pop)

lemma on_write_error_wf: "q_wf mx \<Longrightarrow> q_wf (on_write_error i f mx)"
  by (rule q_wf_change [where j = i]) (auto simp: on_write_error_edges q_wf_def intro: edge_wf_queue)

lemma sendLoop_step_other:
  assumes wf: "q_wf mx" and st: "sendLoop_step j mx = Some r"
  shows "\<exists>mx'. r = Inr mx' \<and> q_wf mx' \<and> length (mx_edges mx') = length (mx_edges mx)
           \<and> (\<forall>k. k \<noteq> j \<longrightarrow> mx_edges mx' ! k = mx_edges mx ! k)"
proof -
  obtain f rest where j: "j < length (mx_edges mx)" and q: "e_queue (mx_edges mx ! j) = Some (Some (f # rest))"
    using sendLoop_step_Some [OF st] by blast
  let ?mx1 = "pop_mx j rest mx"
  have wf1: "q_wf ?mx1" using pop_mx_wf [OF wf j q] .
  have o1: "\<forall>k. k \<noteq> j \<longrightarrow> mx_edges ?mx1 ! k = mx_edges mx ! k" "length (mx_edges ?mx1) = length (mx_edges mx)"
    by (simp_all add: pop_mx_def)
  show ?thesis
  proof (cases "fr_action f = FRAME_ACTION_CLOSE \<or> fr_action f = FRAME_ACTION_CLOSE_W")
    case True
    then show ?thesis using st sendLoop_step_eq [OF j q] wf1 o1
      by (auto simp: q_close_wf q_close_other)
  next
    case False
    have c: "fr_conn f = Some j" using q_wf_frame [OF _ q] False wf j by (simp add: q_wf_def)
    obtain nw ew c' where w: "conn_Write (fr_data f) (e_conn (mx_edges ?mx1 ! j)) = ((nw, ew), c')"
      by (metis prod.exhaust)
    let ?mx2 = "update_edge j (\<lambda>e. e\<lparr>e_conn := c'\<rparr>) ?mx1"
    have wf2: "q_wf ?mx2"
      by (rule q_wf_change [where j = j]) (use wf1 in \<open>auto simp: q_wf_def intro: edge_wf_queue\<close>)
    have o2: "\<forall>k. k \<noteq> j \<longrightarrow> mx_edges ?mx2 ! k = mx_edges mx ! k" "length (mx_edges ?mx2) = length (mx_edges mx)"
      using o1 by simp_all
    have r: "r = Inr (if \<not> (nw = unat (fr_length f) \<and> \<not> ew) then q_close j True (on_write_error j f ?mx2) else ?mx2)"
      using st sendLoop_step_eq [OF j q] False sendFrame_Some [OF c w] by simp
    show ?thesis using r wf2 o2
      by (auto simp: q_close_wf q_close_other on_write_error_wf on_write_error_edges)
  qed
qed

lemma sendFrame_queue:
  "sendFrame f mx = Inr (w, mx2) \<Longrightarrow>
   length (mx_edges mx2) = length (mx_edges mx) \<and> (\<forall>k. e_queue (mx_edges mx2 ! k) = e_queue (mx_edges mx ! k))"
  by (auto simp: sendFrame_def split: option.splits prod.splits)

lemma sendLoop_step_queue:
  assumes st: "sendLoop_step i mx = Some (Inr mx')"
  shows "\<exists>f rest. e_queue (mx_edges mx ! i) = Some (Some (f # rest))
           \<and> (e_queue (mx_edges mx' ! i) = Some (Some rest) \<or> e_queue (mx_edges mx' ! i) = Some None)"
proof -
  obtain f rest where j: "i < length (mx_edges mx)" and q: "e_queue (mx_edges mx ! i) = Some (Some (f # rest))"
    using sendLoop_step_Some [OF st] by blast
  have p: "e_queue (mx_edges (pop_mx i rest mx) ! i) = Some (Some rest)" "i < length (mx_edges (pop_mx i rest mx))"
    using j by (simp_all add: pop_mx_def)
  have "e_queue (mx_edges mx' ! i) = Some (Some rest) \<or> e_queue (mx_edges mx' ! i) = Some None"
  proof (cases "fr_action f = FRAME_ACTION_CLOSE \<or> fr_action f = FRAME_ACTION_CLOSE_W")
    case True
    then show ?thesis using st sendLoop_step_eq [OF j q] p(2) by (auto simp: q_close_def)
  next
    case False
    then obtain w mx2 where sf: "sendFrame f (pop_mx i rest mx) = Inr (w, mx2)"
      and r: "mx' = (if w then q_close i True (on_write_error i f mx2) else mx2)"
      using st sendLoop_step_eq [OF j q] by (auto split: sum.splits)
    show ?thesis using sendFrame_queue [OF sf] p r
      by (auto simp: q_close_def on_write_error_edges)
  qed
  then show ?thesis using q by blast
qed

lemma sendable_conn [simp]: "sendable (f\<lparr>fr_conn := x\<rparr>) = sendable f"
  by (simp add: sendable_def)

lemma sendLoop_step_empty: "e_queue (mx_edges mx ! i) = Some (Some []) \<Longrightarrow> sendLoop_step i mx = None"
  by (simp add: sendLoop_step_def)

lemma sendLoop_step_self:
  assumes j: "i < length (mx_edges mx)" and q: "e_queue (mx_edges mx ! i) = Some (Some (f # rest))"
      and s: "sendable f" and c: "fr_conn f = Some i" and r: "lc_res (e_conn (mx_edges mx ! i)) = []"
  shows "sendLoop_step i mx = Some (Inr (update_edge i (\<lambda>e. e\<lparr>e_queue := Some (Some rest),
            e_conn := (e_conn e)\<lparr>lc_out := lc_out (e_conn e) @ fr_data f\<rparr>\<rparr>) mx))"
proof -
  have w: "conn_Write (fr_data f) (e_conn (mx_edges (pop_mx i rest mx) ! i))
           = ((length (fr_data f), False), (e_conn (mx_edges mx ! i))\<lparr>lc_out := lc_out (e_conn (mx_edges mx ! i)) @ fr_data f\<rparr>)"
    using j r by (simp add: pop_mx_def conn_Write_def)
  show ?thesis
    using sendLoop_step_eq [OF j q] sendFrame_Some [OF c w] s j
    by (simp add: sendable_def pop_mx_def update_edge_def)
qed

lemma deliver_self:
  "i < length (mx_edges mx) \<Longrightarrow> e_queue (mx_edges mx ! i) = Some (Some b) \<Longrightarrow>
   e_queue (mx_edges (deliver i f mx) ! i) = Some (Some (b @ [f\<lparr>fr_conn := Some i\<rparr>]))
   \<and> e_conn (mx_edges (deliver i f mx) ! i) = e_conn (mx_edges mx ! i)"
  by (simp add: deliver_def push_if_queue_def q_push_def)

lemma deliver_other:
  "j \<noteq> i \<Longrightarrow> mx_edges (deliver j f mx) ! i = mx_edges mx ! i"
  "length (mx_edges (deliver j f mx)) = length (mx_edges mx)"
  by (simp_all add: deliver_def)

lemma deliver_exited:
  "e_queue (mx_edges mx ! i) = Some None \<Longrightarrow> mx_edges (deliver i f mx) ! i = mx_edges mx ! i"
  by (simp add: deliver_def push_if_queue_def q_push_def)

lemma q_run_exited:
  "q_wf mx \<Longrightarrow> e_queue (mx_edges mx ! i) = Some None \<Longrightarrow>
   \<exists>mx'. q_run evs mx = Inr mx' \<and> mx_edges mx' ! i = mx_edges mx ! i"
proof (induction evs arbitrary: mx)
  case Nil
  then show ?case by simp
next
  case (Cons ev evs)
  show ?case
  proof (cases ev)
    case (QDeliver j f)
    have "mx_edges (deliver j f mx) ! i = mx_edges mx ! i"
      using Cons.prems(2) deliver_exited deliver_other by (cases "j = i") auto
    then show ?thesis using Cons.IH [OF q_wf_deliver [OF Cons.prems(1), of j f]] Cons.prems(2) QDeliver by simp
  next
    case (QSend j)
    show ?thesis
    proof (cases "sendLoop_step j mx")
      case None
      then show ?thesis using Cons QSend by simp
    next
      case (Some r)
      have "j \<noteq> i" using Some Cons.prems(2) sendLoop_step_Some by fastforce
      then obtain mx' where "r = Inr mx'" "q_wf mx'" "mx_edges mx' ! i = mx_edges mx ! i"
        using sendLoop_step_other [OF Cons.prems(1) Some] by metis
      then show ?thesis using Cons.IH [of mx'] Cons.prems(2) Some QSend by simp
    qed
  qed
qed

lemma push_all_nth:
  assumes "distinct (map snd reg)" "list_all (\<lambda>(k, i). i < length es) reg"
  shows "length (push_all sel reg es) = length es \<and>
    push_all sel reg es ! j = (if \<exists>k. (k, j) \<in> set reg \<and> sel (k, j) then push_if_queue close_frame (es ! j) else es ! j)"
  using assms
proof (induction reg arbitrary: es)
  case Nil
  then show ?case by (simp add: push_all_def)
next
  case (Cons p reg)
  obtain k i where p: "p = (k, i)" by (cases p)
  let ?es = "if sel (k, i) then es[i := push_if_queue close_frame (es ! i)] else es"
  have "push_all sel (p # reg) es = push_all sel reg ?es" by (simp add: push_all_def p)
  moreover have "length ?es = length es" by simp
  moreover have "j \<noteq> i \<Longrightarrow> ?es ! j = es ! j" by simp
  moreover have "?es ! i = (if sel (k, i) then push_if_queue close_frame (es ! i) else es ! i)"
    using Cons.prems(2) p by simp
  moreover have "i \<notin> snd ` set reg" using Cons.prems(1) p by simp
  ultimately show ?case
    using Cons.IH [of ?es] Cons.prems p by (cases "j = i") (auto simp: image_iff)
qed

lemma map_of_filter_distinct:
  "distinct (map fst reg) \<Longrightarrow> (k, i) \<in> set reg \<Longrightarrow>
   map_of (filter P reg) k = (if P (k, i) then Some i else None)"
  by (induction reg) (auto simp: map_of_eq_None_iff image_iff)

lemma distinct_snd_eq:
  "distinct (map snd reg) \<Longrightarrow> (k, i) \<in> set reg \<Longrightarrow> (k', i) \<in> set reg \<Longrightarrow> k' = k"
  by (induction reg) (auto simp: image_iff)

lemma reg_wf_Some:
  "reg_wf mx \<Longrightarrow> mx_registry mx = Some reg \<Longrightarrow>
   distinct (map fst reg) \<and> distinct (map snd reg) \<and> list_all (\<lambda>(k, i). i < length (mx_edges mx)) reg"
  by (simp add: reg_wf_def)

lemma push_all_length [simp]: "length (push_all sel reg es) = length es"
  by (induction reg arbitrary: es) (auto simp: push_all_def)

lemma reg_wf_filter:
  "reg_wf mx \<Longrightarrow> length (mx_edges mx') = length (mx_edges mx) \<Longrightarrow>
   mx_registry mx' = map_option (filter P) (mx_registry mx) \<Longrightarrow> reg_wf mx'"
  by (auto simp: reg_wf_def list_all_iff distinct_map_filter split: option.splits)

lemma delete_filter: "AList.delete k = filter (\<lambda>p. fst p \<noteq> k)"
proof
  fix al :: "('a \<times> 'b) list"
  show "AList.delete k al = filter (\<lambda>p. fst p \<noteq> k) al" by (induction al) auto
qed

lemma register_reg_wf:
  assumes "reg_wf mx" "register key dest tun conn positive mx = Inr (i, mx')"
  shows "reg_wf mx'"
proof (cases "map_of (reg_of mx) key")
  case None
  then obtain reg where reg: "mx_registry mx = Some reg"
    using assms(2) by (auto simp: register_def split: option.splits)
  have nk: "key \<notin> fst ` set reg" using None reg by (simp add: reg_of_def map_of_eq_None_iff)
  have up: "AList.update key (length (mx_edges mx)) reg = reg @ [(key, length (mx_edges mx))]"
    using nk by (induction reg) auto
  have w: "distinct (map fst reg)" "distinct (map snd reg)" "list_all (\<lambda>(k, i). i < length (mx_edges mx)) reg"
    using assms(1) reg by (simp_all add: reg_wf_def)
  have ns: "length (mx_edges mx) \<notin> snd ` set reg" using w(3) by (auto simp: list_all_iff)
  have m: "mx' = mx\<lparr>mx_edges := mx_edges mx @ [if \<not> positive then initEqueue ((newEdgeConn (mx_isClient mx) key dest tun conn)\<lparr>e_positive := positive\<rparr>)
                                               else (newEdgeConn (mx_isClient mx) key dest tun conn)\<lparr>e_positive := positive\<rparr>],
                      mx_registry := Some (reg @ [(key, length (mx_edges mx))])\<rparr>"
    using assms(2) None reg up by (auto simp: register_def Let_def)
  show ?thesis using m w nk ns by (auto simp: reg_wf_def list_all_iff)
next
  case (Some j)
  then show ?thesis using assms by (simp add: register_def)
qed

lemma getRegistered_reg_wf: "reg_wf mx \<Longrightarrow> reg_wf (snd (getRegistered key mx))"
  unfolding getRegistered_def delete_filter
  by (auto split: option.splits intro: reg_wf_filter [where P = "\<lambda>p. fst p \<noteq> key"])

lemma destroy_reg_wf: "reg_wf mx \<Longrightarrow> router_destroy mx = (None, mx') \<Longrightarrow> reg_wf mx'"
  by (auto simp: router_destroy_def Let_def reg_wf_def split: if_splits)

text \<open>One iteration of edge \<open>i\<close>'s own loop on a non-empty buffer of sendable frames, on a
  socket that accepts every write, moves the head frame's payload from the buffer to the
  socket and keeps the queues well formed.\<close>

lemma sendLoop_step_in_order:
  assumes wf: "q_wf mx" and i: "i < length (mx_edges mx)"
      and q: "e_queue (mx_edges mx ! i) = Some (Some b)" and res: "lc_res (e_conn (mx_edges mx ! i)) = []"
      and sb: "list_all sendable b" and st: "sendLoop_step i mx = Some r"
  shows "\<exists>mx' rest. r = Inr mx' \<and> q_wf mx' \<and> length (mx_edges mx') = length (mx_edges mx)
      \<and> e_queue (mx_edges mx' ! i) = Some (Some rest) \<and> lc_res (e_conn (mx_edges mx' ! i)) = []
      \<and> list_all sendable rest
      \<and> lc_out (e_conn (mx_edges mx' ! i)) @ concat (map fr_data rest)
        = lc_out (e_conn (mx_edges mx ! i)) @ concat (map fr_data b)"
proof -
  obtain f rest where b: "b = f # rest"
    using st q sendLoop_step_empty by (cases b) auto
  have sf: "sendable f" "list_all sendable rest" using sb b by simp_all
  have c: "fr_conn f = Some i"
    using q_wf_frame [of i "mx_edges mx ! i" f rest] wf i q b sf(1) by (simp add: q_wf_def sendable_def)
  let ?mx' = "update_edge i (\<lambda>e. e\<lparr>e_queue := Some (Some rest),
      e_conn := (e_conn e)\<lparr>lc_out := lc_out (e_conn e) @ fr_data f\<rparr>\<rparr>) mx"
  have s: "sendLoop_step i mx = Some (Inr ?mx')"
    using sendLoop_step_self [OF i _ sf(1) c res] q b by simp
  have "q_wf ?mx'" using sendLoop_step_other [OF wf s] by auto
  then show ?thesis using s st i q res sf(2) b by auto
qed

text \<open>C3: Per-stream ordering (P4).  While the local socket accepts every write, under any
  interleaving of the tunnel reader's deliveries with the iterations of any edges' send loops,
  the bytes written to edge \<open>i\<close>'s socket followed by the payloads still queued are the bytes
  written and queued at the start followed by the payloads of the data frames delivered to
  \<open>i\<close>, in delivery order.\<close>

theorem equeue_in_order:
  assumes "q_wf mx" "i < length (mx_edges mx)" "e_queue (mx_edges mx ! i) = Some (Some b)"
      and "lc_res (e_conn (mx_edges mx ! i)) = []" "list_all sendable b" "list_all sendable (delivered i evs)"
  shows "\<exists>mx' b'. q_run evs mx = Inr mx' \<and> e_queue (mx_edges mx' ! i) = Some (Some b')
     \<and> lc_out (e_conn (mx_edges mx' ! i)) @ concat (map fr_data b')
       = lc_out (e_conn (mx_edges mx ! i)) @ concat (map fr_data b) @ concat (map fr_data (delivered i evs))"
  using assms
proof (induction evs arbitrary: mx b)
  case Nil
  then show ?case by simp
next
  case (Cons ev evs)
  show ?case
  proof (cases ev)
    case (QDeliver j f)
    show ?thesis
    proof (cases "j = i")
      case True
      have d: "e_queue (mx_edges (deliver i f mx) ! i) = Some (Some (b @ [f\<lparr>fr_conn := Some i\<rparr>]))"
              "e_conn (mx_edges (deliver i f mx) ! i) = e_conn (mx_edges mx ! i)"
        using deliver_self [OF Cons.prems(2,3)] by simp_all
      have "list_all sendable (b @ [f\<lparr>fr_conn := Some i\<rparr>])" "list_all sendable (delivered i evs)"
        using Cons.prems(5,6) QDeliver True by simp_all
      then show ?thesis
        using Cons.IH [OF q_wf_deliver [OF Cons.prems(1)] _ d(1)] Cons.prems(2,4) d(2) QDeliver True
        by (simp add: deliver_other)
    next
      case False
      then show ?thesis
        using Cons.IH [OF q_wf_deliver [OF Cons.prems(1), of j f], where b = b] Cons.prems(2-6) QDeliver
        by (simp add: deliver_other)
    qed
  next
    case (QSend j)
    show ?thesis
    proof (cases "sendLoop_step j mx")
      case None
      then show ?thesis using Cons QSend by simp
    next
      case (Some r)
      show ?thesis
      proof (cases "j = i")
        case False
        obtain mx' where r: "r = Inr mx'" "q_wf mx'" "length (mx_edges mx') = length (mx_edges mx)"
            "mx_edges mx' ! i = mx_edges mx ! i"
          using sendLoop_step_other [OF Cons.prems(1) Some] False by metis
        show ?thesis using Cons.IH [OF r(2), where b = b] Cons.prems(2-6) r Some QSend by simp
      next
        case True
        obtain mx' rest where r: "r = Inr mx'" "q_wf mx'" "length (mx_edges mx') = length (mx_edges mx)"
            "e_queue (mx_edges mx' ! i) = Some (Some rest)" "lc_res (e_conn (mx_edges mx' ! i)) = []"
            "list_all sendable rest"
            "lc_out (e_conn (mx_edges mx' ! i)) @ concat (map fr_data rest)
              = lc_out (e_conn (mx_edges mx ! i)) @ concat (map fr_data b)"
          using sendLoop_step_in_order [OF Cons.prems(1-5)] Some True by blast
        have e: "\<And>X. lc_out (e_conn (mx_edges mx' ! i)) @ concat (map fr_data rest) @ X
            = lc_out (e_conn (mx_edges mx ! i)) @ concat (map fr_data b) @ X"
          using r(7) by (metis append.assoc)
        show ?thesis
          using Cons.IH [OF r(2) _ r(4)] Cons.prems(2,6) r(3,5,6) e r(1) Some QSend True
          by simp
      qed
    qed
  qed
qed

text \<open>C4: Half close (P5).  When edge \<open>i\<close>'s loop takes a \<open>CLOSE_W\<close> frame it shuts
  the write side of the local socket and exits; whatever is delivered or run afterwards, not
  one more byte is written to that socket.\<close>

theorem close_w_stops:
  assumes "q_wf mx" "i < length (mx_edges mx)" "e_queue (mx_edges mx ! i) = Some (Some (f # rest))"
      and "fr_action f = FRAME_ACTION_CLOSE_W"
  shows "\<exists>mx'. q_run (QSend i # evs) mx = Inr mx'
     \<and> lc_out (e_conn (mx_edges mx' ! i)) = lc_out (e_conn (mx_edges mx ! i))
     \<and> lc_wclosed (e_conn (mx_edges mx' ! i)) \<and> e_queue (mx_edges mx' ! i) = Some None"
proof -
  let ?mx1 = "q_close i False (pop_mx i rest mx)"
  have st: "sendLoop_step i mx = Some (Inr ?mx1)" using sendLoop_step_eq [OF assms(2,3)] assms(4) by simp
  have wf1: "q_wf ?mx1" using sendLoop_step_other [OF assms(1) st] by auto
  have e1: "e_queue (mx_edges ?mx1 ! i) = Some None" "lc_wclosed (e_conn (mx_edges ?mx1 ! i))"
      "lc_out (e_conn (mx_edges ?mx1 ! i)) = lc_out (e_conn (mx_edges mx ! i))"
    using assms(2) by (simp_all add: q_close_def pop_mx_def closeW_def)
  show ?thesis using q_run_exited [OF wf1 e1(1), of evs] st e1 by auto
qed

text \<open>C5: The error path of \<open>sendLoop\<close>: a short or failed write of a data frame
  on an edge whose tunnel is alive sets both close flags, force-closes the local socket, ends
  the loop, and sends the peer one \<open>CLOSE_R\<close> for the frame's stream on that tunnel unless
  the write side had already been marked closed.\<close>

theorem write_error_close_r:
  assumes i: "i < length (mx_edges mx)" and q: "e_queue (mx_edges mx ! i) = Some (Some (f # rest))"
      and a: "fr_action f \<noteq> FRAME_ACTION_CLOSE" "fr_action f \<noteq> FRAME_ACTION_CLOSE_W"
      and c: "fr_conn f = Some i"
      and r: "lc_res (e_conn (mx_edges mx ! i)) = (n, err) # rs"
      and bad: "\<not> (min n (length (fr_data f)) = unat (fr_length f) \<and> \<not> err)"
      and t: "e_tun (mx_edges mx ! i) = Some t" "mx_tunalive mx t"
  shows "\<exists>mx'. sendLoop_step i mx = Some (Inr mx')
     \<and> e_queue (mx_edges mx' ! i) = Some None \<and> e_closed (mx_edges mx' ! i) = TCP_CLOSED
     \<and> lc_closed (e_conn (mx_edges mx' ! i))
     \<and> lc_out (e_conn (mx_edges mx' ! i)) = lc_out (e_conn (mx_edges mx ! i)) @ take n (fr_data f)
     \<and> mx_tunout mx' = mx_tunout mx @
         (if e_closed (mx_edges mx ! i) AND TCP_CLOSE_W = 0
          then [(t, f\<lparr>fr_length := 0, fr_action := FRAME_ACTION_CLOSE_R\<rparr>)] else [])"
proof -
  let ?c = "e_conn (mx_edges mx ! i)"
  let ?c' = "?c\<lparr>lc_out := lc_out ?c @ take (min n (length (fr_data f))) (fr_data f), lc_res := rs\<rparr>"
  let ?mx2 = "update_edge i (\<lambda>e. e\<lparr>e_conn := ?c'\<rparr>) (pop_mx i rest mx)"
  have w: "conn_Write (fr_data f) (e_conn (mx_edges (pop_mx i rest mx) ! i)) = ((min n (length (fr_data f)), err), ?c')"
    using i r by (simp add: pop_mx_def conn_Write_def Let_def)
  have st: "sendLoop_step i mx = Some (Inr (q_close i True (on_write_error i f ?mx2)))"
    using sendLoop_step_eq [OF i q] sendFrame_Some [OF c w] a bad by simp
  have e2: "mx_edges ?mx2 ! i = (mx_edges mx ! i)\<lparr>e_queue := Some (Some rest), e_conn := ?c'\<rparr>"
    using i by (simp add: pop_mx_def)
  have out: "mx_tunout (on_write_error i f ?mx2) = mx_tunout mx @
         (if e_closed (mx_edges mx ! i) AND TCP_CLOSE_W = 0
          then [(t, f\<lparr>fr_length := 0, fr_action := FRAME_ACTION_CLOSE_R\<rparr>)] else [])"
    using e2 t by (simp add: on_write_error_def Let_def tunWrite2_def pop_mx_def)
  let ?mx3 = "on_write_error i f ?mx2"
  have l3: "i < length (mx_edges ?mx3)" using i on_write_error_edges(1) [of i f ?mx2] by (simp add: pop_mx_def)
  have c3: "e_conn (mx_edges ?mx3 ! i) = ?c'" using e2 on_write_error_edges(4) [of i f ?mx2] by simp
  have tk: "take (min n (length (fr_data f))) (fr_data f) = take n (fr_data f)" by (simp add: min_def)
  have "TCP_CLOSE_R OR TCP_CLOSE_W = TCP_CLOSED" by (simp add: TCP_CLOSED_def)
  then show ?thesis
    using st out l3 c3 tk by (simp add: q_close_def SafeClose_def)
qed

text \<open>C25: \<open>cleanOfTun\<close>: a registered edge whose key starts with the tunnel's identifier and
  which has a queue is dropped from the registry and gets a \<open>CLOSE\<close> frame queued; every other
  registered edge, including one of that tunnel that has no queue yet, stays registered and
  untouched.\<close>

theorem cleanOfTun_effect:
  assumes "reg_wf mx" "mx_registry mx = Some reg" "(k, i) \<in> set reg"
  shows "map_of (reg_of (cleanOfTun t mx)) k =
           (if HasPrefix k (mx_tunid mx t) \<and> e_queue (mx_edges mx ! i) \<noteq> None then None else Some i)
     \<and> mx_edges (cleanOfTun t mx) ! i =
           (if HasPrefix k (mx_tunid mx t) \<and> e_queue (mx_edges mx ! i) \<noteq> None
            then push_if_queue close_frame (mx_edges mx ! i) else mx_edges mx ! i)"
proof -
  note w = reg_wf_Some [OF assms(1,2)]
  let ?sel = "\<lambda>(k, i). HasPrefix k (mx_tunid mx t) \<and> e_queue (mx_edges mx ! i) \<noteq> None"
  have ex: "(\<exists>k'. (k', i) \<in> set reg \<and> ?sel (k', i)) = ?sel (k, i)"
    using distinct_snd_eq [OF conjunct1 [OF conjunct2 [OF w]] assms(3)] assms(3) by blast
  have r: "reg_of (cleanOfTun t mx) = filter (Not \<circ> ?sel) reg"
    using assms(2) by (simp add: cleanOfTun_def reg_of_def Let_def)
  have e: "mx_edges (cleanOfTun t mx) = push_all ?sel reg (mx_edges mx)"
    using assms(2) by (simp add: cleanOfTun_def reg_of_def Let_def)
  have m: "map_of (filter (Not \<circ> ?sel) reg) k = (if ?sel (k, i) then None else Some i)"
    using map_of_filter_distinct [of reg k i "Not \<circ> ?sel"] w assms(3) by simp
  have n: "push_all ?sel reg (mx_edges mx) ! i = (if ?sel (k, i) then push_if_queue close_frame (mx_edges mx ! i) else mx_edges mx ! i)"
    using push_all_nth [of reg "mx_edges mx" ?sel i] w ex by simp
  show ?thesis using r e m n by simp
qed

text \<open>Every router operation that returns (\<open>register\<close>, \<open>getRegistered\<close>, \<open>clean\<close>,
  \<open>cleanOfTun\<close>, \<open>destroy\<close>) keeps the registry well formed.\<close>

lemma reg_wf_router:
  "reg_wf mx \<Longrightarrow> router_apply op mx = Inr mx' \<Longrightarrow> reg_wf mx'"
proof (cases op)
  case (RRegister key dest tun conn positive)
  then show "reg_wf mx \<Longrightarrow> router_apply op mx = Inr mx' \<Longrightarrow> reg_wf mx'"
    using register_reg_wf by (auto split: sum.splits)
next
  case RDestroy
  then show "reg_wf mx \<Longrightarrow> router_apply op mx = Inr mx' \<Longrightarrow> reg_wf mx'"
    using destroy_reg_wf by (auto split: prod.splits option.splits)
qed (auto simp: getRegistered_reg_wf clean_def cleanOfTun_def Let_def intro: reg_wf_filter)

text \<open>C27: After \<open>destroy\<close>, registering a new stream panics on the \<open>nil\<close> registry,
  and a second \<open>destroy\<close> panics on the closed stop channel.\<close>

theorem destroy_then_panics:
  "\<not> mx_stopped mx \<Longrightarrow>
   register key dest tun conn positive (snd (router_destroy mx)) = Inl (PErr ''assignment to entry in nil map'')
   \<and> fst (router_destroy (snd (router_destroy mx))) = Some (PErr ''send on closed channel'')"
  by (simp add: router_destroy_def register_def Let_def reg_of_def)

text \<open>Witnesses at the example multiplexer.\<close>

theorem equeue_in_order_witness:
  "\<exists>mx' b'. q_run [QDeliver 0 (data_frame [1, 2]), QSend 0, QDeliver 0 (data_frame [3])] (mux0 edge0) = Inr mx'
     \<and> e_queue (mx_edges mx' ! 0) = Some (Some b')
     \<and> lc_out (e_conn (mx_edges mx' ! 0)) @ concat (map fr_data b') = [1, 2, 3]"
  using equeue_in_order [of "mux0 edge0" 0 "[]" "[QDeliver 0 (data_frame [1, 2]), QSend 0, QDeliver 0 (data_frame [3])]"]
  by (simp add: q_wf_def edge_wf_def mux0_def edge0_def lconn0_def sendable_def data_frame_def)

theorem close_w_stops_witness:
  "\<exists>mx'. q_run [QSend 0, QDeliver 0 (data_frame [5]), QSend 0]
            (mux0 (edge0\<lparr>e_queue := Some (Some [data_frame []\<lparr>fr_action := FRAME_ACTION_CLOSE_W\<rparr>])\<rparr>)) = Inr mx'
     \<and> lc_out (e_conn (mx_edges mx' ! 0)) = [] \<and> lc_wclosed (e_conn (mx_edges mx' ! 0))"
proof -
  let ?f = "data_frame []\<lparr>fr_action := FRAME_ACTION_CLOSE_W\<rparr>"
  let ?m = "mux0 (edge0\<lparr>e_queue := Some (Some [?f])\<rparr>)"
  have h: "q_wf ?m" "0 < length (mx_edges ?m)" "e_queue (mx_edges ?m ! 0) = Some (Some [?f])"
       "fr_action ?f = FRAME_ACTION_CLOSE_W" "lc_out (e_conn (mx_edges ?m ! 0)) = []"
    by (simp_all add: q_wf_def edge_wf_def mux0_def edge0_def lconn0_def data_frame_def)
  obtain mx' where o: "q_run [QSend 0, QDeliver 0 (data_frame [5]), QSend 0] ?m = Inr mx'"
      "lc_out (e_conn (mx_edges mx' ! 0)) = lc_out (e_conn (mx_edges ?m ! 0))" "lc_wclosed (e_conn (mx_edges mx' ! 0))"
    using close_w_stops [OF h(1-4), of "[QDeliver 0 (data_frame [5]), QSend 0]"] by blast
  have "lc_out (e_conn (mx_edges mx' ! 0)) = []" using o(2) h(5) by (simp only:)
  then show ?thesis using o(1,3) by blast
qed

theorem write_error_close_r_witness:
  "\<exists>mx'. sendLoop_step 0 (mux0 (edge0\<lparr>e_conn := lconn0\<lparr>lc_res := [(1, True)]\<rparr>,
                              e_queue := Some (Some [data_frame [1, 2]\<lparr>fr_conn := Some 0\<rparr>])\<rparr>)) = Some (Inr mx')
     \<and> lc_out (e_conn (mx_edges mx' ! 0)) = [1] \<and> e_closed (mx_edges mx' ! 0) = TCP_CLOSED
     \<and> mx_tunout mx' = [(0, data_frame [1, 2]\<lparr>fr_conn := Some 0, fr_length := 0, fr_action := FRAME_ACTION_CLOSE_R\<rparr>)]"
proof -
  let ?f = "data_frame [1, 2]\<lparr>fr_conn := Some 0\<rparr>"
  let ?m = "mux0 (edge0\<lparr>e_conn := lconn0\<lparr>lc_res := [(1, True)]\<rparr>, e_queue := Some (Some [?f])\<rparr>)"
  have h: "0 < length (mx_edges ?m)" "e_queue (mx_edges ?m ! 0) = Some (Some [?f])"
      "fr_action ?f \<noteq> FRAME_ACTION_CLOSE" "fr_action ?f \<noteq> FRAME_ACTION_CLOSE_W" "fr_conn ?f = Some 0"
      "lc_res (e_conn (mx_edges ?m ! 0)) = [(1, True)]"
      "\<not> (min 1 (length (fr_data ?f)) = unat (fr_length ?f) \<and> \<not> True)"
      "e_tun (mx_edges ?m ! 0) = Some 0" "mx_tunalive ?m 0"
    by (simp_all add: mux0_def edge0_def lconn0_def data_frame_def)
  have v: "lc_out (e_conn (mx_edges ?m ! 0)) = []" "mx_tunout ?m = []" "e_closed (mx_edges ?m ! 0) = 0"
    by (simp_all add: mux0_def edge0_def lconn0_def)
  have t: "take 1 (fr_data ?f) = [1]" by (simp add: data_frame_def)
  obtain mx' where o: "sendLoop_step 0 ?m = Some (Inr mx')" "e_closed (mx_edges mx' ! 0) = TCP_CLOSED"
      "lc_out (e_conn (mx_edges mx' ! 0)) = lc_out (e_conn (mx_edges ?m ! 0)) @ take 1 (fr_data ?f)"
      "mx_tunout mx' = mx_tunout ?m @ (if e_closed (mx_edges ?m ! 0) AND TCP_CLOSE_W = 0
          then [(0, ?f\<lparr>fr_length := 0, fr_action := FRAME_ACTION_CLOSE_R\<rparr>)] else [])"
    using write_error_close_r [OF h] by blast
  have "lc_out (e_conn (mx_edges mx' ! 0)) = [1]" using o(3) v(1) t by (simp only: append_Nil)
  moreover have "mx_tunout mx' = [(0, ?f\<lparr>fr_length := 0, fr_action := FRAME_ACTION_CLOSE_R\<rparr>)]"
    using o(4) v(2,3) by simp
  ultimately show ?thesis using o(1,2) by blast
qed

theorem cleanOfTun_effect_witness:
  "map_of (reg_of (cleanOfTun 0 (mux0 edge0))) ''t0#1'' = None
   \<and> mx_edges (cleanOfTun 0 (mux0 edge0)) ! 0 = edge0\<lparr>e_queue := Some (Some [close_frame])\<rparr>
   \<and> map_of (reg_of (cleanOfTun 0 (mux0 (edge0\<lparr>e_queue := None\<rparr>)))) ''t0#1'' = Some 0"
  using cleanOfTun_effect [of "mux0 edge0" "[(''t0#1'', 0)]" "''t0#1''" 0 0]
    cleanOfTun_effect [of "mux0 (edge0\<lparr>e_queue := None\<rparr>)" "[(''t0#1'', 0)]" "''t0#1''" 0 0]
  by (simp add: reg_wf_def mux0_def edge0_def HasPrefix_def push_if_queue_def q_push_def)

theorem destroy_then_panics_witness:
  "register ''t0#2'' ''host'' (Some 0) lconn0 False (snd (router_destroy (mux0 edge0))) = Inl (PErr ''assignment to entry in nil map'')
   \<and> fst (router_destroy (snd (router_destroy (mux0 edge0)))) = Some (PErr ''send on closed channel'')"
  using destroy_then_panics [of "mux0 edge0" "''t0#2''" "''host''" "Some 0" lconn0 False] by (simp add: mux0_def)

end
