(* ===== verification/Router.thy ===== *)
theory Router
  imports Queue
begin

text \<open>
  The egress router as a whole, \<open>src/tunnel/queue.go\<close>: its construction
  \<open>newEgressRouter\<close>, the cleaner goroutine \<open>cleanTask\<close> and \<open>stopCleanTask\<close>, and the
  well-formedness of the multiplexer state that every operation of the router and of
  the queues preserves.

  The cleaner is a goroutine that selects between the buffered stop channel (capacity
  one) and the ticker's channel.  Its state is the stop channel's buffer, whether the
  channel is closed, whether the ticker was stopped, and whether the goroutine still
  runs; one event is one \<open>select\<close> case taken.  A receive on a closed, drained channel
  yields \<open>false\<close>, as in Go.  A tick already delivered to the ticker's channel can
  still be received after \<open>Stop\<close>, so the model lets a tick be taken whenever the
  goroutine runs.  The registry's \<open>nil\<close> after \<open>destroy\<close> is \<open>None\<close>, as in
  \<open>Queue\<close>.
\<close>

record cleaner =
  cl_stop_buf :: "bool list"
  cl_stop_closed :: bool
  cl_ticker_stopped :: bool
  cl_running :: bool

definition newEgressRouter :: "mux \<Rightarrow> mux \<times> cleaner" where
  "newEgressRouter mx =
     (mx\<lparr>mx_registry := Some [], mx_stopped := False\<rparr>,
      \<lparr>cl_stop_buf = [], cl_stop_closed = False, cl_ticker_stopped = False, cl_running = True\<rparr>)"

text \<open>\<open>stopCleanTask\<close>: a send on the closed channel panics; otherwise \<open>true\<close> goes into
  the empty buffer (the only sender closes the channel right after), the channel is
  closed and the ticker stopped.\<close>

definition stopCleanTask :: "cleaner \<Rightarrow> panic_val + cleaner" where
  "stopCleanTask cl =
     (if cl_stop_closed cl then Inl (PErr ''send on closed channel'')
      else Inr (cl\<lparr>cl_stop_buf := cl_stop_buf cl @ [True], cl_stop_closed := True, cl_ticker_stopped := True\<rparr>))"

datatype clean_ev = CStop | CTick

text \<open>One iteration of \<open>cleanTask\<close>'s loop; \<open>None\<close> when the chosen case cannot fire
  (the goroutine has returned, or the channel is empty and open).\<close>

fun cleanTask_step :: "clean_ev \<Rightarrow> mux \<times> cleaner \<Rightarrow> (mux \<times> cleaner) option" where
  "cleanTask_step CStop (mx, cl) =
     (if \<not> cl_running cl then None
      else (case cl_stop_buf cl of
              s # rest \<Rightarrow> Some (mx, cl\<lparr>cl_stop_buf := rest, cl_running := \<not> s\<rparr>)
            | [] \<Rightarrow> if cl_stop_closed cl then Some (mx, cl) else None))"
| "cleanTask_step CTick (mx, cl) =
     (if cl_running cl then Some (clean mx, cl) else None)"

fun cleanTask_run :: "clean_ev list \<Rightarrow> mux \<times> cleaner \<Rightarrow> mux \<times> cleaner" where
  "cleanTask_run [] s = s"
| "cleanTask_run (ev # evs) s =
     (case cleanTask_step ev s of None \<Rightarrow> cleanTask_run evs s | Some s' \<Rightarrow> cleanTask_run evs s')"

text \<open>The router's \<open>destroy\<close> with its call of \<open>stopCleanTask\<close> on the cleaner.\<close>

definition destroy_with_cleaner :: "mux \<times> cleaner \<Rightarrow> panic_val option \<times> mux \<times> cleaner" where
  "destroy_with_cleaner s =
     (case s of (mx, cl) \<Rightarrow>
        let mx1 = mx\<lparr>mx_edges := push_all (\<lambda>_. True) (reg_of mx) (mx_edges mx)\<rparr> in
        (case stopCleanTask cl of
           Inl p \<Rightarrow> (Some p, mx1, cl)
         | Inr cl' \<Rightarrow> (None, mx1\<lparr>mx_registry := None, mx_stopped := True\<rparr>, cl')))"

text \<open>All operations on the multiplexer state: the router's and the queues'.\<close>

datatype mux_ev = MRouter router_op | MQueue qev

fun mux_step :: "mux_ev \<Rightarrow> mux \<Rightarrow> panic_val + mux" where
  "mux_step (MRouter op) mx = router_apply op mx"
| "mux_step (MQueue (QDeliver i f)) mx = Inr (deliver i f mx)"
| "mux_step (MQueue (QSend i)) mx = (case sendLoop_step i mx of None \<Rightarrow> Inr mx | Some r \<Rightarrow> r)"

definition mux_wf :: "mux \<Rightarrow> bool" where
  "mux_wf mx \<longleftrightarrow> q_wf mx \<and> reg_wf mx"

subsection \<open>The cleaner after \<open>destroy\<close>\<close>

lemma clean_destroyed: "mx_registry mx = None \<Longrightarrow> clean mx = mx"
  by (simp add: clean_def)

lemma cleanTask_run_stopped: "\<not> cl_running cl \<Longrightarrow> cleanTask_run evs (mx, cl) = (mx, cl)"
proof (induction evs)
  case (Cons ev evs)
  then show ?case by (cases ev) simp_all
qed simp

text \<open>Before \<open>destroy\<close> the cleaner runs with an empty, open stop channel.\<close>

lemma cleanTask_run_before_stop:
  "cl_running cl \<Longrightarrow> cl_stop_buf cl = [] \<Longrightarrow> \<not> cl_stop_closed cl \<Longrightarrow>
   \<exists>mx'. cleanTask_run evs (mx, cl) = (mx', cl)"
proof (induction evs arbitrary: mx)
  case (Cons ev evs)
  then show ?case by (cases ev) simp_all
qed simp

lemma cleanTask_run_after_stop:
  assumes "mx_registry mx = None" "cl_stop_closed cl" "cl_running cl \<longrightarrow> cl_stop_buf cl = [True]"
  shows "fst (cleanTask_run evs (mx, cl)) = mx
    \<and> (CStop \<in> set evs \<longrightarrow> \<not> cl_running (snd (cleanTask_run evs (mx, cl))))"
  using assms
proof (induction evs arbitrary: cl)
  case Nil
  then show ?case by simp
next
  case (Cons ev evs)
  show ?case
  proof (cases "cl_running cl")
    case False
    then show ?thesis by (cases ev) (simp_all add: cleanTask_run_stopped)
  next
    case True
    show ?thesis
    proof (cases ev)
      case CStop
      then have "cleanTask_run (ev # evs) (mx, cl) = cleanTask_run evs (mx, cl\<lparr>cl_stop_buf := [], cl_running := False\<rparr>)"
        using True Cons.prems(3) by simp
      then show ?thesis using CStop by (simp add: cleanTask_run_stopped)
    next
      case CTick
      then show ?thesis using True Cons.IH [OF Cons.prems] Cons.prems(1) by (simp add: clean_destroyed)
    qed
  qed
qed

subsection \<open>Well-formedness of the multiplexer\<close>

lemma edge_wf_push_close: "edge_wf k e \<Longrightarrow> edge_wf k (push_if_queue close_frame e)"
  by (auto simp: edge_wf_def push_if_queue_def q_push_def close_frame_def split: option.splits)

lemma push_all_wf:
  "\<forall>k < length es. edge_wf k (es ! k) \<Longrightarrow> \<forall>k < length es. edge_wf k (push_all sel reg es ! k)"
proof (induction reg arbitrary: es)
  case Nil
  then show ?case by (simp add: push_all_def)
next
  case (Cons p reg)
  obtain key i where p: "p = (key, i)" by (cases p)
  let ?es = "if sel (key, i) then es[i := push_if_queue close_frame (es ! i)] else es"
  have "\<forall>k < length ?es. edge_wf k (?es ! k)"
    using Cons.prems
    by (cases "i < length es") (auto simp: nth_list_update list_update_beyond edge_wf_push_close)
  then have "\<forall>k < length ?es. edge_wf k (push_all sel reg ?es ! k)" by (rule Cons.IH)
  then show ?case by (simp add: push_all_def p)
qed

lemma q_wf_router: "q_wf mx \<Longrightarrow> router_apply op mx = Inr mx' \<Longrightarrow> q_wf mx'"
proof (cases op)
  case (RRegister key dest tun conn positive)
  assume wf: "q_wf mx" and r: "router_apply op mx = Inr mx'"
  have "mx' = mx \<or> (\<exists>e. mx_edges mx' = mx_edges mx @ [e] \<and> e_queue e \<in> {None, Some (Some [])})"
    using r RRegister
    by (auto simp: register_def Let_def initEqueue_def newEdgeConn_def split: option.splits sum.splits if_splits)
  then show ?thesis
    using wf by (auto simp: q_wf_def nth_append edge_wf_def less_Suc_eq)
next
  case RDestroy
  then show "q_wf mx \<Longrightarrow> router_apply op mx = Inr mx' \<Longrightarrow> q_wf mx'"
    using push_all_wf by (auto simp: router_destroy_def Let_def q_wf_def split: if_splits)
next
  case (RCleanOfTun t)
  then show "q_wf mx \<Longrightarrow> router_apply op mx = Inr mx' \<Longrightarrow> q_wf mx'"
    using push_all_wf by (auto simp: cleanOfTun_def Let_def q_wf_def)
qed (auto simp: q_wf_def getRegistered_def clean_def split: option.splits if_splits)

lemma reg_wf_edges: "reg_wf mx \<Longrightarrow> mx_registry mx' = mx_registry mx \<Longrightarrow>
  length (mx_edges mx') = length (mx_edges mx) \<Longrightarrow> reg_wf mx'"
  by (simp add: reg_wf_def split: option.splits)

lemma sendLoop_step_registry:
  "sendLoop_step i mx = Some (Inr mx') \<Longrightarrow> mx_registry mx' = mx_registry mx"
  by (auto simp: sendLoop_step_def Let_def pop_mx_def q_close_def sendFrame_def on_write_error_def
      tunWrite2_def split: option.splits list.splits frame_action.splits sum.splits prod.splits if_splits)

text \<open>C37: The cleaner goroutine does not outlive the router: whatever it did before,
  \<open>destroy\<close> stops it without panicking; afterwards no tick changes the multiplexer
  (the registry is \<open>nil\<close>), and once the goroutine takes the stop case it has
  returned.\<close>

theorem cleaner_exits_after_destroy:
  "\<exists>mx2 cl2. destroy_with_cleaner (cleanTask_run evs0 (newEgressRouter mx)) = (None, mx2, cl2)
     \<and> fst (cleanTask_run evs (mx2, cl2)) = mx2
     \<and> (CStop \<in> set evs \<longrightarrow> \<not> cl_running (snd (cleanTask_run evs (mx2, cl2))))"
proof -
  obtain mx1 where r: "cleanTask_run evs0 (newEgressRouter mx) = (mx1, snd (newEgressRouter mx))"
    using cleanTask_run_before_stop [of "snd (newEgressRouter mx)" evs0 "fst (newEgressRouter mx)"]
    by (auto simp: newEgressRouter_def)
  let ?mx2 = "mx1\<lparr>mx_edges := push_all (\<lambda>_. True) (reg_of mx1) (mx_edges mx1), mx_registry := None, mx_stopped := True\<rparr>"
  let ?cl2 = "\<lparr>cl_stop_buf = [True], cl_stop_closed = True, cl_ticker_stopped = True, cl_running = True\<rparr>"
  have d: "destroy_with_cleaner (cleanTask_run evs0 (newEgressRouter mx)) = (None, ?mx2, ?cl2)"
    using r by (simp add: destroy_with_cleaner_def stopCleanTask_def newEgressRouter_def)
  show ?thesis using d cleanTask_run_after_stop [of ?mx2 ?cl2 evs] by simp
qed

text \<open>C8: Type of the multiplexer state: with the registry keys and edges distinct and
  in the store, and every frame queued for sending pointing back to its own edge, every
  operation of the router (\<open>register\<close>, \<open>getRegistered\<close>, \<open>clean\<close>, \<open>cleanOfTun\<close>,
  \<open>destroy\<close>) and of the queues (a delivery, a send-loop iteration) that does not panic
  yields a state of the same kind.\<close>

theorem mux_step_wf:
  assumes wf: "mux_wf mx" and st: "mux_step ev mx = Inr mx'"
  shows "mux_wf mx'"
proof (cases ev)
  case (MRouter op)
  then show ?thesis using wf st q_wf_router reg_wf_router by (auto simp: mux_wf_def)
next
  case (MQueue q)
  show ?thesis
  proof (cases q)
    case (QDeliver i f)
    then have m: "mx' = deliver i f mx" using st MQueue by simp
    have "reg_wf (deliver i f mx)" using wf by (auto simp: mux_wf_def deliver_def intro: reg_wf_edges)
    then show ?thesis using q_wf_deliver [of mx i f] wf m by (simp add: mux_wf_def)
  next
    case (QSend i)
    show ?thesis
    proof (cases "sendLoop_step i mx")
      case None
      then show ?thesis using wf st MQueue QSend by simp
    next
      case (Some r)
      then have s: "sendLoop_step i mx = Some (Inr mx')" using st MQueue QSend by simp
      then show ?thesis
        using sendLoop_step_other [OF _ s] sendLoop_step_registry [OF s] wf
        by (auto simp: mux_wf_def intro: reg_wf_edges)
    qed
  qed
qed

theorem mux_step_wf_witness:
  "\<exists>mx'. mux_step (MRouter (RRegister ''t0#2'' ''host'' (Some 0) lconn0 False)) (mux0 edge0) = Inr mx'
     \<and> mux_wf mx'"
proof -
  have w: "mux_wf (mux0 edge0)"
    by (simp add: mux_wf_def q_wf_def edge_wf_def reg_wf_def mux0_def edge0_def)
  obtain mx' where e: "mux_step (MRouter (RRegister ''t0#2'' ''host'' (Some 0) lconn0 False)) (mux0 edge0) = Inr mx'"
    by (simp add: register_def reg_of_def mux0_def)
  show ?thesis using mux_step_wf [OF w e] e by blast
qed

theorem cleaner_exits_after_destroy_witness:
  "\<exists>mx2 cl2. destroy_with_cleaner (cleanTask_run [CTick] (newEgressRouter (mux0 edge0))) = (None, mx2, cl2)
     \<and> fst (cleanTask_run [CTick, CStop] (mx2, cl2)) = mx2
     \<and> \<not> cl_running (snd (cleanTask_run [CTick, CStop] (mx2, cl2)))"
  using cleaner_exits_after_destroy [of "[CTick]" "mux0 edge0" "[CTick, CStop]"] by simp

end
