(* ===== verification/SendLoop.thy ===== *)
theory SendLoop
  imports Queue
begin

text \<open>
  The whole of \<open>equeue.sendLoop\<close> (\<open>src/tunnel/queue.go\<close>) as a total function: the
  loop repeats \<open>sendLoop_step\<close> until a step cannot proceed, which is where the Go loop
  waits on its condition variable (empty buffer) or has returned (exited queue), or until
  a step panics.  Termination is by the length of the edge's buffer, which every
  iteration shortens or discards; the theorems show that the loop always reaches such a
  point, and that on a socket that accepts every write it drains the buffer: the
  payloads up to the first close frame are written in order and the queue is then empty
  and waiting, or closed.
\<close>

function sendLoop_run :: "eid \<Rightarrow> mux \<Rightarrow> panic_val + mux" where
  "sendLoop_run i mx =
     (case sendLoop_step i mx of
        None \<Rightarrow> Inr mx
      | Some (Inl p) \<Rightarrow> Inl p
      | Some (Inr mx') \<Rightarrow> sendLoop_run i mx')"
  by pat_completeness auto
termination
  by (relation "measure (\<lambda>(i, mx). case e_queue (mx_edges mx ! i) of Some (Some fs) \<Rightarrow> Suc (length fs) | _ \<Rightarrow> 0)")
     (auto dest!: sendLoop_step_queue)

text \<open>The frames that end the loop.\<close>

definition is_close :: "frame \<Rightarrow> bool" where
  "is_close f \<longleftrightarrow> fr_action f = FRAME_ACTION_CLOSE \<or> fr_action f = FRAME_ACTION_CLOSE_W"

declare sendLoop_run.simps [simp del]

lemma sendLoop_run_blocked: "sendLoop_step i mx = None \<Longrightarrow> sendLoop_run i mx = Inr mx"
  by (simp add: sendLoop_run.simps)

lemma sendLoop_run_next: "sendLoop_step i mx = Some (Inr mx') \<Longrightarrow> sendLoop_run i mx = sendLoop_run i mx'"
  by (simp add: sendLoop_run.simps)

lemma q_close_self:
  "i < length (mx_edges mx) \<Longrightarrow> e_queue (mx_edges (q_close i force mx) ! i) = Some None
   \<and> lc_out (e_conn (mx_edges (q_close i force mx) ! i)) = lc_out (e_conn (mx_edges mx ! i))"
  by (simp add: q_close_def SafeClose_def closeW_def)

text \<open>C7: \<open>sendLoop\<close> always comes to rest: from every state the loop either panics or
  reaches, after finitely many iterations, a state where it can make no further step
  (it waits on an empty buffer, or its queue has exited).\<close>

theorem sendLoop_run_settles:
  "(\<exists>p. sendLoop_run i mx = Inl p) \<or> (\<exists>mx'. sendLoop_run i mx = Inr mx' \<and> sendLoop_step i mx' = None)"
proof (induction i mx rule: sendLoop_run.induct)
  case (1 i mx)
  show ?case
  proof (cases "sendLoop_step i mx")
    case None
    then show ?thesis by (simp add: sendLoop_run_blocked)
  next
    case (Some r)
    then show ?thesis
    proof (cases r)
      case (Inl p)
      then show ?thesis using Some by (simp add: sendLoop_run.simps)
    next
      case (Inr mx')
      then show ?thesis using Some "1" by (simp add: sendLoop_run_next)
    qed
  qed
qed

text \<open>C6: On a well-formed multiplexer whose edge socket accepts every write, the loop
  of an edge holding the frames \<open>fs\<close> (data frames of matching length and close frames)
  runs to completion without panicking: it writes the payloads of the frames before the
  first close frame, in order, and ends with its queue closed if \<open>fs\<close> holds a close
  frame, and empty and waiting otherwise.\<close>

theorem sendLoop_drains:
  assumes "q_wf mx" "i < length (mx_edges mx)" "e_queue (mx_edges mx ! i) = Some (Some fs)"
    "\<forall>f \<in> set fs. is_close f \<or> sendable f" "lc_res (e_conn (mx_edges mx ! i)) = []"
  shows "\<exists>mx'. sendLoop_run i mx = Inr mx'
     \<and> lc_out (e_conn (mx_edges mx' ! i)) = lc_out (e_conn (mx_edges mx ! i)) @ concat (map fr_data (takeWhile (\<lambda>g. \<not> is_close g) fs))
     \<and> e_queue (mx_edges mx' ! i) = (if list_ex is_close fs then Some None else Some (Some []))"
  using assms
proof (induction fs arbitrary: mx)
  case Nil
  then show ?case by (simp add: sendLoop_run_blocked sendLoop_step_empty)
next
  case (Cons f rest)
  show ?case
  proof (cases "is_close f")
    case True
    let ?mx1 = "q_close i (fr_action f = FRAME_ACTION_CLOSE) (pop_mx i rest mx)"
    have l: "i < length (mx_edges (pop_mx i rest mx))" using Cons.prems(2) by (simp add: pop_mx_def)
    have st: "sendLoop_step i mx = Some (Inr ?mx1)"
      using sendLoop_step_eq [OF Cons.prems(2,3)] True by (auto simp: is_close_def)
    have q1: "e_queue (mx_edges ?mx1 ! i) = Some None"
      and o1: "lc_out (e_conn (mx_edges ?mx1 ! i)) = lc_out (e_conn (mx_edges mx ! i))"
      using q_close_self [OF l] Cons.prems(2) by (simp_all add: pop_mx_def)
    have "sendLoop_step i ?mx1 = None" using q1 by (simp add: sendLoop_step_def)
    then show ?thesis using sendLoop_run_next [OF st] sendLoop_run_blocked q1 o1 True by simp
  next
    case False
    then have s: "sendable f" using Cons.prems(4) by simp
    have c: "fr_conn f = Some i"
      using q_wf_frame [OF _ Cons.prems(3)] False Cons.prems(1,2) by (simp add: q_wf_def is_close_def)
    let ?mx1 = "update_edge i (\<lambda>e. e\<lparr>e_queue := Some (Some rest),
                  e_conn := (e_conn e)\<lparr>lc_out := lc_out (e_conn e) @ fr_data f\<rparr>\<rparr>) mx"
    have st: "sendLoop_step i mx = Some (Inr ?mx1)"
      using sendLoop_step_self [OF Cons.prems(2,3) s c Cons.prems(5)] .
    have wf1: "q_wf ?mx1" using sendLoop_step_other [OF Cons.prems(1) st] by auto
    have "\<exists>mx'. sendLoop_run i ?mx1 = Inr mx'
       \<and> lc_out (e_conn (mx_edges mx' ! i)) = lc_out (e_conn (mx_edges ?mx1 ! i)) @ concat (map fr_data (takeWhile (\<lambda>g. \<not> is_close g) rest))
       \<and> e_queue (mx_edges mx' ! i) = (if list_ex is_close rest then Some None else Some (Some []))"
      using Cons.IH [OF wf1] Cons.prems by simp
    then show ?thesis using sendLoop_run_next [OF st] Cons.prems(2) False by auto
  qed
qed

theorem sendLoop_drains_witness:
  "\<exists>mx'. sendLoop_run 0 (mux0 (edge0\<lparr>e_queue := Some (Some [(data_frame [7, 8])\<lparr>fr_conn := Some 0\<rparr>, close_frame])\<rparr>)) = Inr mx'
     \<and> lc_out (e_conn (mx_edges mx' ! 0)) = [7, 8] \<and> e_queue (mx_edges mx' ! 0) = Some None"
proof -
  have "\<exists>mx'. sendLoop_run 0 (mux0 (edge0\<lparr>e_queue := Some (Some [(data_frame [7, 8])\<lparr>fr_conn := Some 0\<rparr>, close_frame])\<rparr>)) = Inr mx'
     \<and> lc_out (e_conn (mx_edges mx' ! 0)) = lc_out (e_conn (mx_edges (mux0 (edge0\<lparr>e_queue := Some (Some [(data_frame [7, 8])\<lparr>fr_conn := Some 0\<rparr>, close_frame])\<rparr>)) ! 0))
          @ concat (map fr_data (takeWhile (\<lambda>g. \<not> is_close g) [(data_frame [7, 8])\<lparr>fr_conn := Some 0\<rparr>, close_frame]))
     \<and> e_queue (mx_edges mx' ! 0) = (if list_ex is_close [(data_frame [7, 8])\<lparr>fr_conn := Some 0\<rparr>, close_frame] then Some None else Some (Some []))"
    by (rule sendLoop_drains)
       (simp_all add: q_wf_def edge_wf_def mux0_def edge0_def data_frame_def close_frame_def is_close_def
         sendable_def lconn0_def)
  then show ?thesis
    by (simp add: mux0_def edge0_def lconn0_def data_frame_def close_frame_def is_close_def)
qed

end
