(* ===== verification/Socks5.thy ===== *)
theory Socks5
  imports Wire Exception
begin

text \<open>
  The local front end of the client (\<open>src/tunnel/d5.go\<close>): the SOCKS5 method
  negotiation (\<open>S5Step1.Handshake\<close>, \<open>HandshakeAck\<close>), the request parser
  (\<open>parseSocks5Request\<close>), its reply (\<open>respondSocks5\<close>), and \<open>detectProtocol\<close>, which
  peeks at the first two bytes of a pushback stream.  The local connection is the
  connection record \<open>hconn\<close> of \<open>Wire\<close> (its input as the chunks successive \<open>Read\<close>
  calls return, its output log) with a flag for \<open>Close\<close>.  \<open>io.ReadAtLeast\<close> is
  \<open>chunks_atleast\<close>.  The text of an IPv6 address (\<open>net.IP.String\<close>, library code) is a
  parameter; IPv4 addresses, ports and the hex dump of \<open>fmt\<close> are computed.
\<close>

subsection \<open>Constants and text helpers\<close>

definition IPV4 :: byte where "IPV4 = 1"
definition DOMAIN :: byte where "DOMAIN = 3"
definition IPV6 :: byte where "IPV6 = 4"
definition SOCKS5_VER :: byte where "SOCKS5_VER = 5"
definition NULL :: string where "NULL = ''''"

definition REQ_PROT_UNKNOWN :: nat where "REQ_PROT_UNKNOWN = 1"
definition REQ_PROT_SOCKS5 :: nat where "REQ_PROT_SOCKS5 = 2"
definition REQ_PROT_HTTP :: nat where "REQ_PROT_HTTP = 3"

lemmas socks_consts = IPV4_def DOMAIN_def IPV6_def SOCKS5_VER_def NULL_def
  REQ_PROT_UNKNOWN_def REQ_PROT_SOCKS5_def REQ_PROT_HTTP_def

text \<open>\<open>strconv.Itoa\<close> on non-negative numbers.\<close>

fun Itoa :: "nat \<Rightarrow> string" where
  "Itoa n = (if n < 10 then [char_of (48 + n)] else Itoa (n div 10) @ [char_of (48 + n mod 10)])"

definition hex_digit :: "nat \<Rightarrow> char" where
  "hex_digit n = (if n < 10 then char_of (48 + n) else char_of (87 + n))"

definition hex2 :: "byte \<Rightarrow> string" where
  "hex2 b = [hex_digit (unat b div 16), hex_digit (unat b mod 16)]"

text \<open>\<open>fmt.Sprintf("[% x]", b)\<close>: the bytes in hex, separated by spaces.\<close>

fun hex_spaced :: "bytes \<Rightarrow> string" where
  "hex_spaced [] = []"
| "hex_spaced [b] = hex2 b"
| "hex_spaced (b # bs) = hex2 b @ '' '' @ hex_spaced bs"

definition fmt_hex :: "bytes \<Rightarrow> string" where
  "fmt_hex bs = ''['' @ hex_spaced bs @ '']''"

text \<open>\<open>net.IP(b).String()\<close> for a 4-byte address.\<close>

definition ip4_string :: "bytes \<Rightarrow> string" where
  "ip4_string b = Itoa (unat (b ! 0)) @ ''.'' @ Itoa (unat (b ! 1)) @ ''.''
                  @ Itoa (unat (b ! 2)) @ ''.'' @ Itoa (unat (b ! 3))"

definition bytes_string :: "bytes \<Rightarrow> string" where
  "bytes_string bs = map (\<lambda>b. char_of (unat b)) bs"

definition io_error_text :: "io_error \<Rightarrow> string" where
  "io_error_text e = (case e of EOF \<Rightarrow> ''EOF'' | ErrUnexpectedEOF \<Rightarrow> ''unexpected EOF'')"

subsection \<open>\<open>io.ReadAtLeast\<close>\<close>

text \<open>
  \<open>io.ReadAtLeast(r, buf, min)\<close> calls \<open>Read(buf[n:])\<close> until \<open>n \<ge> min\<close>; each call
  returns what the next chunk holds, at most the room left in \<open>buf\<close>.  \<open>room\<close> is
  \<open>len(buf) - n\<close>, \<open>need\<close> is \<open>min - n\<close>.  The error is fixed up as in Go: none once
  \<open>min\<close> bytes are in, \<open>ErrUnexpectedEOF\<close> after a partial read.
\<close>

fun chunks_atleast :: "nat \<Rightarrow> nat \<Rightarrow> bytes list \<Rightarrow> bytes \<times> io_error option \<times> bytes list" where
  "chunks_atleast room need [] = (if need = 0 then ([], None, []) else ([], Some EOF, []))"
| "chunks_atleast room need (c # cs) =
     (if need = 0 then ([], None, c # cs)
      else if c = [] then chunks_atleast room need cs
      else if room < length c then (take room c, None, drop room c # cs)
      else (case chunks_atleast (room - length c) (need - length c) cs of
              (r, e, rest) \<Rightarrow> (c @ r, e, rest)))"

definition read_at_least :: "nat \<Rightarrow> nat \<Rightarrow> hconn \<Rightarrow> bytes \<times> io_error option \<times> hconn" where
  "read_at_least buflen m h =
     (case chunks_atleast buflen m (hc_in h) of (r, e, rest) \<Rightarrow>
        (r, (if m \<le> length r then None
             else if r \<noteq> [] \<and> e = Some EOF then Some ErrUnexpectedEOF else e),
         h\<lparr>hc_in := rest, hc_rlog := hc_rlog h @ r\<rparr>))"

subsection \<open>\<open>S5Step1\<close>\<close>

record S5Step1 =
  s5_conn :: hconn
  s5_closed :: bool
  s5_err :: "exception option"
  s5_target :: bytes

definition Handshake :: "S5Step1 \<Rightarrow> S5Step1" where
  "Handshake s =
     (case read_full 2 (s5_conn s) of (buf, e, c1) \<Rightarrow>
      (case e of
         Some err \<Rightarrow> s\<lparr>s5_conn := c1, s5_err := Some (Apply INVALID_SOCKS5_HEADER (io_error_text err))\<rparr>
       | None \<Rightarrow>
           (let ver = buf ! 0; nmethods = unat (buf ! 1) in
            if ver \<noteq> SOCKS5_VER \<or> nmethods < 1
            then s\<lparr>s5_conn := c1, s5_err := Some (Apply INVALID_SOCKS5_HEADER (fmt_hex (take 2 buf)))\<rparr>
            else (case read_at_least (nmethods + 1) nmethods c1 of (r, e2, c2) \<Rightarrow>
                    if e2 \<noteq> None \<or> length r \<noteq> nmethods
                    then s\<lparr>s5_conn := c2, s5_err := Some INVALID_SOCKS5_HEADER\<rparr>
                    else s\<lparr>s5_conn := c2\<rparr>))))"

definition HandshakeAck :: "S5Step1 \<Rightarrow> bool \<times> S5Step1" where
  "HandshakeAck s =
     (case s5_err s of
        Some ex \<Rightarrow> (True, s\<lparr>s5_conn := conn_write [5, word_of_int (ex_code ex)] (s5_conn s), s5_closed := True\<rparr>)
      | None \<Rightarrow> (False, s\<lparr>s5_conn := conn_write [5, 0] (s5_conn s)\<rparr>))"

text \<open>
  \<open>parseSocks5Request\<close> reads the request with one \<open>Read\<close> into a zeroed 262-byte
  buffer (a read error panics through \<open>ThrowErr\<close>), keeps \<open>buf[3:]\<close> as the target, and
  formats \<open>host:port\<close>; the result is \<open>Inl\<close> of the panic or \<open>Inr\<close> of the returned
  string and the new state.
\<close>

text \<open>The \<open>switch atyp\<close> of \<open>parseSocks5Request\<close>: the host text and the offset of
  the port in \<open>buf[4:]\<close>, or \<open>None\<close> for an unknown address type.\<close>

definition s5_addr_switch :: "(bytes \<Rightarrow> string) \<Rightarrow> byte \<Rightarrow> bytes \<Rightarrow> (string \<times> nat) option" where
  "s5_addr_switch ip6_string atyp b =
     (if atyp = IPV4 then Some (ip4_string (take 4 b), 4)
      else if atyp = IPV6 then Some (ip6_string (take 16 b), 16)
      else if atyp = DOMAIN then
        (let dlen = unat (b ! 0) in Some (bytes_string (take dlen (drop 1 b)), dlen + 1))
      else None)"

definition parseSocks5Request :: "(bytes \<Rightarrow> string) \<Rightarrow> S5Step1 \<Rightarrow> panic_val + string \<times> S5Step1" where
  "parseSocks5Request ip6_string s =
     (case conn_read 262 (s5_conn s) of (r, e, c1) \<Rightarrow>
      (case e of
         Some err \<Rightarrow> Inl (PErr (io_error_text err))
       | None \<Rightarrow>
          (let buf = pad_to 262 r; s1 = s\<lparr>s5_conn := c1\<rparr>;
               ver = buf ! 0; cmd = buf ! 1; atyp = buf ! 3 in
           if ver \<noteq> SOCKS5_VER \<or> cmd \<noteq> 1 then Inr (NULL, s1\<lparr>s5_err := Some INVALID_SOCKS5_REQUEST\<rparr>)
           else
             (let s2 = s1\<lparr>s5_target := drop 3 buf\<rparr>; b = drop 4 buf in
              (case s5_addr_switch ip6_string atyp b of
                 None \<Rightarrow> Inr (NULL, s2\<lparr>s5_err := Some INVALID_SOCKS5_REQUEST\<rparr>)
               | Some (host, ofs) \<Rightarrow>
                   Inr (host @ '':'' @ Itoa (unat (the (be16_get (drop ofs b)))), s2))))))"

definition respondSocks5 :: "S5Step1 \<Rightarrow> bool \<times> S5Step1" where
  "respondSocks5 s =
     (case s5_err s of
        Some ex \<Rightarrow> (True, s\<lparr>s5_conn := conn_write [5, word_of_int (ex_code ex), 0, 1, 0, 0, 0, 0, 0, 0] (s5_conn s),
                             s5_closed := True\<rparr>)
      | None \<Rightarrow> (False, s\<lparr>s5_conn := conn_write [5, 0, 0, 1, 0, 0, 0, 0, 0, 0] (s5_conn s)\<rparr>))"

subsection \<open>\<open>detectProtocol\<close>\<close>

text \<open>
  The pushback stream is a chunk list; \<open>Unread\<close> puts the two bytes back in front.
  A short read panics with the text of \<open>io.ErrUnexpectedEOF\<close>.
\<close>

definition classify_head :: "byte \<Rightarrow> nat" where
  "classify_head head =
     (if head \<le> 5 then REQ_PROT_SOCKS5
      else if 0x41 \<le> head \<and> head \<le> 0x7a then REQ_PROT_HTTP
      else REQ_PROT_UNKNOWN)"

definition detectProtocol :: "bytes list \<Rightarrow> panic_val + nat \<times> bytes list" where
  "detectProtocol cs =
     (case chunks_full 2 cs of (b, e, rest) \<Rightarrow>
        if length b \<noteq> 2 then Inl (PStr ''unexpected EOF'')
        else (case e of
                Some err \<Rightarrow> Inl (PStr (io_error_text err))
              | None \<Rightarrow> Inr (classify_head (b ! 0), b # rest)))"

subsection \<open>Requests as a client encodes them\<close>

text \<open>The request a SOCKS5 client sends (RFC 1928): \<open>VER CMD RSV ATYP DST.ADDR DST.PORT\<close>,
  and the \<open>host:port\<close> text the client is meant to dial.\<close>

datatype s5_addr = A_IPv4 bytes | A_Domain bytes | A_IPv6 bytes

definition s5_addr_bytes :: "s5_addr \<Rightarrow> bytes" where
  "s5_addr_bytes a = (case a of A_IPv4 b \<Rightarrow> IPV4 # b | A_Domain d \<Rightarrow> DOMAIN # of_nat (length d) # d
                               | A_IPv6 b \<Rightarrow> IPV6 # b)"

definition s5_request :: "s5_addr \<Rightarrow> u16 \<Rightarrow> bytes" where
  "s5_request a port = [5, 1, 0] @ s5_addr_bytes a @ be16_put port"

definition s5_addr_ok :: "s5_addr \<Rightarrow> bool" where
  "s5_addr_ok a = (case a of A_IPv4 b \<Rightarrow> length b = 4 | A_Domain d \<Rightarrow> length d < 256
                           | A_IPv6 b \<Rightarrow> length b = 16)"

definition s5_host :: "(bytes \<Rightarrow> string) \<Rightarrow> s5_addr \<Rightarrow> string" where
  "s5_host ip6_string a = (case a of A_IPv4 b \<Rightarrow> ip4_string b | A_Domain d \<Rightarrow> bytes_string d
                                   | A_IPv6 b \<Rightarrow> ip6_string b)"

text \<open>A local connection with the given input, nothing written, no error.\<close>

definition s5_state :: "bytes list \<Rightarrow> S5Step1" where
  "s5_state cs = \<lparr>s5_conn = \<lparr>hc_in = cs, hc_rlog = [], hc_wlog = []\<rparr>, s5_closed = False, s5_err = None, s5_target = []\<rparr>"

lemma chunks_atleast_exact:
  "0 < m \<Longrightarrow> length ms = m \<Longrightarrow>
   chunks_atleast (m + k) m ((ms @ extra) # cs) =
     (if m + k < length ms + length extra then take (m + k) (ms @ extra)
      else ms @ extra, None,
      if m + k < length ms + length extra then drop (m + k) (ms @ extra) # cs else cs)"
  by (cases cs) auto

lemma s5_request_length:
  "s5_addr_ok a \<Longrightarrow> length (s5_request a port) \<le> 262"
  by (auto simp: s5_request_def s5_addr_bytes_def s5_addr_ok_def split: s5_addr.splits)

lemma unat_of_nat_byte: "n < 256 \<Longrightarrow> unat (of_nat n :: byte) = n"
  by (simp add: unat_of_nat)

lemma parse_body:
  "s5_addr_ok a \<Longrightarrow> \<exists>ofs. s5_addr_switch ip6 (hd (s5_addr_bytes a)) (tl (s5_addr_bytes a) @ rest)
      = Some (s5_host ip6 a, ofs) \<and> drop ofs (tl (s5_addr_bytes a) @ rest) = rest"
  by (cases a) (auto simp: s5_addr_switch_def s5_addr_bytes_def s5_addr_ok_def s5_host_def socks_consts
      Let_def unat_of_nat_byte)

text \<open>C9: SOCKS5 method negotiation.  A greeting \<open>05 n m1..mn\<close> that arrives as one
  segment is accepted and answered \<open>05 00\<close>; when further bytes follow the methods in the
  same segment (a client that pipelines its request), \<open>io.ReadAtLeast\<close> returns
  \<open>n + 1\<close> bytes and the greeting is refused with \<open>INVALID_SOCKS5_HEADER\<close>, answered
  \<open>05 ff\<close>.\<close>

theorem Handshake_greeting:
  assumes c: "hc_in (s5_conn s) = ([5, n] @ ms @ extra) # cs" and m: "length ms = unat n" "0 < unat n"
      and e: "s5_err s = None"
  shows "s5_err (Handshake s) = (if extra = [] then None else Some INVALID_SOCKS5_HEADER)
     \<and> hc_wlog (s5_conn (snd (HandshakeAck (Handshake s)))) =
         hc_wlog (s5_conn s) @ [5, if extra = [] then 0 else 0xff]
     \<and> fst (HandshakeAck (Handshake s)) = (extra \<noteq> [])"
proof -
  let ?c1 = "(s5_conn s)\<lparr>hc_in := (ms @ extra) # cs, hc_rlog := hc_rlog (s5_conn s) @ [5, n]\<rparr>"
  have rf: "read_full 2 (s5_conn s) = ([5, n], None, ?c1)"
    using c m by (simp add: read_full_def chunks_full_first)
  obtain r e2 c2 where ra: "read_at_least (unat n + 1) (unat n) ?c1 = (r, e2, c2)"
    by (metis prod.exhaust)
  have r: "e2 = None \<and> length r = (if extra = [] then unat n else unat n + 1) \<and> hc_wlog c2 = hc_wlog (s5_conn s)"
    using ra chunks_atleast_exact [OF m(2) m(1), of 1 extra cs] m(1)
    by (cases extra) (auto simp: read_at_least_def simp del: chunks_atleast.simps split: if_splits)
  have h: "Handshake s = (if extra = [] then s\<lparr>s5_conn := c2\<rparr> else s\<lparr>s5_conn := c2, s5_err := Some INVALID_SOCKS5_HEADER\<rparr>)"
    using rf ra r m by (simp add: Handshake_def socks_consts)
  have x: "ex_code INVALID_SOCKS5_HEADER = 255" by (simp add: exception_defs)
  show ?thesis
    using h e r x by (simp add: HandshakeAck_def conn_write_def)
qed

text \<open>C11: a greeting whose version byte is not 5 or that offers no method is answered
  \<open>05 ff\<close> (the code of \<open>INVALID_SOCKS5_HEADER\<close>) and the connection is closed
  (scenario 4 of the specification: \<open>04 01\<close> gets \<open>05 ff\<close>).\<close>

theorem Handshake_bad_header:
  assumes c: "hc_in (s5_conn s) = (v # n # rest) # cs" and bad: "v \<noteq> 5 \<or> n = 0"
  shows "\<exists>s'. HandshakeAck (Handshake s) = (True, s') \<and> s5_closed s'
     \<and> hc_wlog (s5_conn s') = hc_wlog (s5_conn s) @ [5, 0xff]"
proof -
  obtain r e h1 where rf0: "read_full 2 (s5_conn s) = (r, e, h1)" by (metis prod.exhaust)
  have rf: "r = [v, n] \<and> e = None \<and> hc_wlog h1 = hc_wlog (s5_conn s)"
    using chunks_full_enough [of 2 "hc_in (s5_conn s)"] c rf0 read_full_log [OF rf0]
    by (simp add: read_full_def case_prod_beta)
  have x: "ex_code (Apply INVALID_SOCKS5_HEADER a) = 255" for a by (simp add: exception_defs Apply_def)
  show ?thesis
    using rf rf0 bad x by (auto simp: Handshake_def HandshakeAck_def socks_consts conn_write_def Let_def)
qed

text \<open>C10: round trip of the request parser.  For every IPv4, IPv6 or domain address
  and port, the request a client encodes, read as one segment, is parsed to the text
  \<open>host:port\<close> of that address and port, with no error, consuming exactly that segment.\<close>

theorem parseSocks5Request_roundtrip:
  assumes ok: "s5_addr_ok a" and c: "hc_in (s5_conn s) = s5_request a port # cs"
  shows "\<exists>s'. parseSocks5Request ip6 s = Inr (s5_host ip6 a @ '':'' @ Itoa (unat port), s')
     \<and> s5_err s' = s5_err s \<and> hc_in (s5_conn s') = cs"
proof -
  let ?req = "s5_request a port"
  have cr: "conn_read 262 (s5_conn s) = (?req, None, (s5_conn s)\<lparr>hc_in := cs, hc_rlog := hc_rlog (s5_conn s) @ ?req\<rparr>)"
    using c s5_request_length [OF ok, of port] chunk_read_whole [of ?req 262 cs]
    by (simp add: conn_read_def s5_request_def)
  have ne: "s5_addr_bytes a \<noteq> []" by (cases a) (simp_all add: s5_addr_bytes_def)
  let ?rest = "be16_put port @ replicate (262 - length ?req) 0"
  let ?buf = "[5, 1, 0, hd (s5_addr_bytes a)] @ tl (s5_addr_bytes a) @ ?rest"
  have buf: "pad_to 262 ?req = ?buf"
    using ne s5_request_length [OF ok, of port] by (simp add: pad_to_def s5_request_def)
  have bb: "?buf ! 0 = 5" "?buf ! 1 = 1" "?buf ! 3 = hd (s5_addr_bytes a)"
    "drop 4 ?buf = tl (s5_addr_bytes a) @ ?rest" by simp_all
  obtain ofs where b: "s5_addr_switch ip6 (hd (s5_addr_bytes a)) (tl (s5_addr_bytes a) @ ?rest) = Some (s5_host ip6 a, ofs)"
      and d: "drop ofs (tl (s5_addr_bytes a) @ ?rest) = ?rest"
    using parse_body [OF ok] by blast
  have p: "the (be16_get ?rest) = port" by (simp add: be16_roundtrip)
  show ?thesis
    unfolding parseSocks5Request_def cr prod.case option.case Let_def buf bb
    using b d p by (simp add: SOCKS5_VER_def)
qed

text \<open>C26: \<open>detectProtocol\<close> peeks: with at least two bytes available it classifies the
  first byte and leaves the stream's bytes unconsumed; with fewer it panics with
  \<open>unexpected EOF\<close>.\<close>

theorem detectProtocol_peek:
  "(length (concat cs) < 2 \<longrightarrow> detectProtocol cs = Inl (PStr ''unexpected EOF''))
   \<and> (2 \<le> length (concat cs) \<longrightarrow>
        (\<exists>cs'. detectProtocol cs = Inr (classify_head (hd (concat cs)), cs') \<and> concat cs' = concat cs))"
proof (intro conjI impI)
  assume "length (concat cs) < 2"
  then show "detectProtocol cs = Inl (PStr ''unexpected EOF'')"
    using chunks_full_short [of cs 2] by (auto simp: detectProtocol_def split: prod.splits)
next
  assume l: "2 \<le> length (concat cs)"
  obtain b e rest where cf: "chunks_full 2 cs = (b, e, rest)" by (metis prod.exhaust)
  have be: "b = take 2 (concat cs)" "e = None" using chunks_full_enough [OF l] cf by simp_all
  have cc: "b @ concat rest = concat cs" using chunks_full_concat [OF cf] .
  have hb: "b ! 0 = hd (concat cs)" using l be(1) by (cases "concat cs") auto
  show "\<exists>cs'. detectProtocol cs = Inr (classify_head (hd (concat cs)), cs') \<and> concat cs' = concat cs"
    using cf be cc hb l by (simp add: detectProtocol_def)
qed

text \<open>Witnesses.\<close>

theorem Handshake_greeting_witness:
  "s5_err (Handshake (s5_state [[5, 1, 0]])) = None
   \<and> hc_wlog (s5_conn (snd (HandshakeAck (Handshake (s5_state [[5, 1, 0]]))))) = [5, 0]
   \<and> s5_err (Handshake (s5_state [[5, 1, 0, 5, 1, 0, 1]])) = Some INVALID_SOCKS5_HEADER
   \<and> hc_wlog (s5_conn (snd (HandshakeAck (Handshake (s5_state [[5, 1, 0, 5, 1, 0, 1]]))))) = [5, 0xff]"
  using Handshake_greeting [of "s5_state [[5, 1, 0]]" 1 "[0]" "[]" "[]"]
    Handshake_greeting [of "s5_state [[5, 1, 0, 5, 1, 0, 1]]" 1 "[0]" "[5, 1, 0, 1]" "[]"]
  by (simp add: s5_state_def)

theorem Handshake_bad_header_witness:
  "\<exists>s'. HandshakeAck (Handshake (s5_state [[4, 1]])) = (True, s') \<and> s5_closed s' \<and> hc_wlog (s5_conn s') = [5, 0xff]"
  using Handshake_bad_header [of "s5_state [[4, 1]]" 4 1 "[]" "[]"] by (simp add: s5_state_def)

theorem parseSocks5Request_roundtrip_witness:
  "\<exists>s'. parseSocks5Request (\<lambda>_. ''v6'') (s5_state [s5_request (A_Domain [97, 98]) 80]) = Inr (''ab:80'', s')
     \<and> s5_err s' = None"
proof -
  have t: "s5_host (\<lambda>_. ''v6'') (A_Domain [97, 98]) @ '':'' @ Itoa (unat (80 :: u16)) = ''ab:80''"
    by code_simp
  show ?thesis
    using parseSocks5Request_roundtrip [of "A_Domain [97, 98]" "s5_state [s5_request (A_Domain [97, 98]) 80]" 80 "[]" "\<lambda>_. ''v6''"]
    unfolding t by (auto simp add: s5_state_def s5_addr_ok_def)
qed

theorem detectProtocol_peek_witness:
  "(\<exists>cs'. detectProtocol [[0x5f], [0x5f]] = Inr (REQ_PROT_HTTP, cs') \<and> concat cs' = [0x5f, 0x5f])
   \<and> detectProtocol [[5]] = Inl (PStr ''unexpected EOF'')"
proof -
  have c: "classify_head (hd (concat [[0x5f], [0x5f :: byte]])) = REQ_PROT_HTTP"
    by (simp add: classify_head_def socks_consts)
  show ?thesis
    using detectProtocol_peek [of "[[0x5f], [0x5f]]"] detectProtocol_peek [of "[[5]]"] c by simp
qed

end
