(* ===== verification/ClientNego.thy ===== *)
theory ClientNego
  imports Negotiation Socks5
begin

text \<open>
  The client side of the handshake, \<open>d5CNegotiation\<close> of \<open>src/tunnel/d5.go\<close>:
  \<open>requestAuthAndDHExchange\<close> (obfuscated header, RSA identity block, DH public key),
  \<open>finishDHExThenSetupCipher\<close> (the server's DH key or its refusal),
  \<open>validateAndGetTokens\<close> (version check, tunnel parameters, tokens, hash cross-check)
  and \<open>negotiate\<close>, which runs them on a connected, hashed connection.  The state is
  \<open>cli_st\<close>: the connection, the random stream and the installed cipher; the result
  of a step is \<open>Inl\<close> of a panic or \<open>Inr\<close> of the error it returns.  RSA-OAEP, DH,
  SHA-1 and MD5 are fields of \<open>cli_env\<close>; the DH key pair keeps the public key and its
  length field as \<open>GenerateDHKeyPairs\<close> builds them.  The dial is its outcome: the
  chunks the server will send, or \<open>None\<close> for a failed \<open>DialTCP\<close>.
\<close>

record DHKeyPair =
  dh_pub :: bytes
  dh_pubLen :: bytes

definition GenerateDHKeyPairs :: "bytes \<Rightarrow> DHKeyPair" where
  "GenerateDHKeyPairs pub = \<lparr>dh_pub = pub, dh_pubLen = be16_put (of_nat (length pub))\<rparr>"

record cli_env =
  ce_user :: string
  ce_pass :: string
  ce_rsa_encrypt :: "bytes \<Rightarrow> bytes option"
  ce_dhKeys :: DHKeyPair
  ce_shared_key :: "bytes \<Rightarrow> bytes"
  ce_md5 :: "bytes \<Rightarrow> bytes"
  ce_sha1 :: "bytes \<Rightarrow> bytes"
  ce_algo :: string
  ce_version :: u32

record cli_st =
  cc_conn :: hconn
  cc_rng :: rng
  cc_cipher :: "cipher option"

record tunParams =
  tp_cipherFactory :: "cipher_factory option"
  tp_token :: bytes
  tp_stInterval :: nat
  tp_dtInterval :: nat
  tp_tunQty :: nat

definition tunParams0 :: tunParams where
  "tunParams0 = \<lparr>tp_cipherFactory = None, tp_token = [], tp_stInterval = 0, tp_dtInterval = 0, tp_tunQty = 0\<rparr>"

definition string_bytes :: "string \<Rightarrow> bytes" where
  "string_bytes s = map (\<lambda>c. of_nat (of_char c)) s"

text \<open>The error a step returns: an exception, or the I/O error of the last \<open>Read\<close>.\<close>

datatype cli_err = CExc exception | CIo io_error

subsection \<open>\<open>requestAuthAndDHExchange\<close>\<close>

text \<open>
  256 random bytes with the marker \<open>obf[0xff] = d5Sub(obf[0xd5])\<close>, the RSA block of
  \<open>user\0pass\<close> (nil when \<open>RSAEncrypt\<close> fails: the error is overwritten by the
  write's), the DH key's length field and the key, in one write.
\<close>

definition requestAuthAndDHExchange :: "cli_env \<Rightarrow> cli_st \<Rightarrow> cli_st" where
  "requestAuthAndDHExchange env st =
     (case randArray 256 (cc_rng st) of (obf0, g) \<Rightarrow>
      let obf = obf0[0xff := d5Sub (obf0 ! 0xd5)];
          identity = string_bytes (ce_user env @ [CHR 0x00] @ ce_pass env);
          idBlock = (case ce_rsa_encrypt env identity of Some b \<Rightarrow> b | None \<Rightarrow> []) in
      st\<lparr>cc_rng := g, cc_conn := conn_write (obf @ idBlock @ dh_pubLen (ce_dhKeys env) @ dh_pub (ce_dhKeys env))
                                   (cc_conn st)\<rparr>)"

subsection \<open>\<open>finishDHExThenSetupCipher\<close>\<close>

definition finishDHExThenSetupCipher ::
  "cli_env \<Rightarrow> cli_st \<Rightarrow> tunParams \<Rightarrow> (panic_val + exception option) \<times> cli_st \<times> tunParams" where
  "finishDHExThenSetupCipher env st t =
     (case ReadFullByLen 2 (cc_conn st) of (buf, e, c1) \<Rightarrow>
      let st1 = st\<lparr>cc_conn := c1\<rparr> in
      (case e of
         Some err \<Rightarrow> (Inl (io_panic err), st1, t)
       | None \<Rightarrow>
           if length buf = 1
           then (Inr (Some (if buf ! 0 = 0xff then AUTH_FAILED else Apply VALIDATION_FAILED ''indentity'')), st1, t)
           else (case NewCipherFactory (ce_md5 env) (ce_algo env) (ce_shared_key env buf) of
                   None \<Rightarrow> (Inl (PErr ''nil pointer dereference''), st1, t)
                 | Some cf \<Rightarrow> (Inr None, st1, t\<lparr>tp_cipherFactory := Some cf\<rparr>))))"

subsection \<open>\<open>validateAndGetTokens\<close>\<close>

text \<open>\<open>fmt.Sprintf("%d.%d.%04d", oVer>>24, (oVer>>16)&0xFF, oVer&0xFFFF)\<close>.\<close>

definition pad4 :: "string \<Rightarrow> string" where
  "pad4 s = replicate (4 - length s) (CHR ''0'') @ s"

definition ver_string :: "u32 \<Rightarrow> string" where
  "ver_string v = Itoa (unat (drop_bit 24 v)) @ ''.'' @ Itoa (unat (drop_bit 16 v AND 0xff)) @ ''.''
                  @ pad4 (Itoa (unat (v AND 0xffff)))"

text \<open>The version test: only a remote version above the local one is examined, and it
  is accepted (with a warning) when the upper 16 bits, major and minor, agree.\<close>

definition version_check :: "u32 \<Rightarrow> u32 \<Rightarrow> exception option" where
  "version_check tVer oVer =
     (if tVer < oVer \<and> drop_bit 16 tVer \<noteq> drop_bit 16 oVer
      then Some (Apply INCOMPATIBLE_VERSION (ver_string oVer)) else None)"

text \<open>
  The parameter block is read with \<open>ReadFullByLen\<close>; a block shorter than the fields
  it indexes panics (index or slice out of range).  The client then sends its read
  hash, reads the server's 20-byte hash with one \<open>Read\<close> and compares it with its own
  write hash; on a match it returns the error of that \<open>Read\<close>.
\<close>

definition validateAndGetTokens ::
  "cli_env \<Rightarrow> cli_st \<Rightarrow> tunParams \<Rightarrow> (panic_val + cli_err option) \<times> cli_st \<times> tunParams" where
  "validateAndGetTokens env st t =
     (case ReadFullByLen 2 (cc_conn st) of (buf, e, c1) \<Rightarrow>
      let st1 = st\<lparr>cc_conn := c1\<rparr> in
      (case e of
         Some err \<Rightarrow> (Inl (io_panic err), st1, t)
       | None \<Rightarrow>
           if length buf < 4 then (Inl (PErr ''index out of range''), st1, t)
           else (case version_check (ce_version env) (the (be32_get buf)) of
             Some ex \<Rightarrow> (Inr (Some (CExc ex)), st1, t)
           | None \<Rightarrow>
               if length buf < TUN_PARAMS_LEN then (Inl (PErr ''slice bounds out of range''), st1, t)
               else
                 (let t1 = t\<lparr>tp_stInterval := unat (the (be16_get (drop 4 buf))),
                              tp_dtInterval := unat (the (be16_get (drop 6 buf))),
                              tp_tunQty := unat (buf ! 8),
                              tp_token := drop TUN_PARAMS_LEN buf\<rparr>;
                      rHash = ce_sha1 env (hc_rlog c1);
                      wHash = ce_sha1 env (hc_wlog c1) in
                  (case conn_read TKSZ (conn_write rHash c1) of (oHash, e2, c3) \<Rightarrow>
                     if wHash \<noteq> pad_to TKSZ oHash
                     then (Inr (Some (CExc INCONSISTENT_HASH)), st\<lparr>cc_conn := c3\<rparr>, t1)
                     else (Inr (map_option CIo e2), st\<lparr>cc_conn := c3\<rparr>, t1))))))"

subsection \<open>\<open>negotiate\<close>\<close>

text \<open>Every error returned by a step is thrown (\<open>ThrowErr\<close>); the cipher is installed
  with the default IV between the DH exchange and the parameter block.\<close>

definition client_negotiate :: "cli_env \<Rightarrow> cli_st \<Rightarrow> (panic_val + tunParams) \<times> cli_st" where
  "client_negotiate env st =
     (let st1 = requestAuthAndDHExchange env st in
      (case finishDHExThenSetupCipher env st1 tunParams0 of
         (Inl p, st2, _) \<Rightarrow> (Inl p, st2)
       | (Inr (Some ex), st2, _) \<Rightarrow> (Inl (PExc ex), st2)
       | (Inr None, st2, t) \<Rightarrow>
           (let st3 = st2\<lparr>cc_cipher := (case tp_cipherFactory t of Some cf \<Rightarrow> NewCipher cf None | None \<Rightarrow> None)\<rparr> in
            (case validateAndGetTokens env st3 t of
               (Inl p, st4, _) \<Rightarrow> (Inl p, st4)
             | (Inr (Some (CExc ex)), st4, _) \<Rightarrow> (Inl (PExc ex), st4)
             | (Inr (Some (CIo err)), st4, _) \<Rightarrow> (Inl (io_panic err), st4)
             | (Inr None, st4, t2) \<Rightarrow> (Inr t2, st4)))))"

text \<open>The whole of \<open>d5CNegotiation.negotiate\<close>: \<open>DialTCP\<close> gives the chunks the server
  will send, or \<open>None\<close> when it fails, which throws \<open>D5SER_UNREACHABLE\<close>; the deadline is
  set, and the handshake runs on a fresh hashed connection.\<close>

definition d5c_negotiate ::
  "bytes list option \<Rightarrow> string option \<Rightarrow> cli_env \<Rightarrow> cli_st \<Rightarrow> (panic_val + tunParams) \<times> cli_st" where
  "d5c_negotiate dial dl env st =
     (case ThrowIf (dial = None) (PExc D5SER_UNREACHABLE) of
        Inl p \<Rightarrow> (Inl p, st)
      | Inr _ \<Rightarrow>
          (case setSoTimeout dl of
             Inl p \<Rightarrow> (Inl p, st)
           | Inr _ \<Rightarrow> client_negotiate env (st\<lparr>cc_conn := NewConnWithHash (the dial)\<rparr>)))"

subsection \<open>Parameter blocks and examples\<close>

text \<open>The 32 bytes of the server's parameter block after its length field.\<close>

definition tun_params_body :: "srv_env \<Rightarrow> bytes \<Rightarrow> bytes" where
  "tun_params_body env rnd = ito4b (se_version env) @ be16_put (of_nat (se_ctl_ping env))
     @ be16_put (of_nat (se_dt_ping env)) @ [se_tun_qty env] @ drop 11 rnd"

text \<open>A client configuration for the closed instances below: a constant RSA block, the
  DH key \<open>09 09\<close>, RC4, the same version as the example server.\<close>

definition example_cenv :: cli_env where
  "example_cenv = \<lparr>ce_user = ''u'', ce_pass = ''p'', ce_rsa_encrypt = (\<lambda>x. Some (replicate 128 1)),
     ce_dhKeys = GenerateDHKeyPairs [9, 9], ce_shared_key = (\<lambda>x. x), ce_md5 = (\<lambda>x. replicate 16 7),
     ce_sha1 = (\<lambda>x. replicate 20 (of_nat (length x))), ce_algo = ''RC4'', ce_version = 0x0009088e\<rparr>"

definition example_cst :: "bytes list \<Rightarrow> cli_st" where
  "example_cst inp = \<lparr>cc_conn = \<lparr>hc_in = inp, hc_rlog = [], hc_wlog = []\<rparr>,
     cc_rng = \<lparr>rng_src = \<lambda>i. of_nat i, rng_pos = 0\<rparr>, cc_cipher = None\<rparr>"

lemma tun_params_head_body:
  "tun_params_head env rnd = be16_put (of_nat (TUN_PARAMS_LEN + se_token_num env * TKSZ)) @ tun_params_body env rnd"
  by (simp add: tun_params_head_def tun_params_body_def)

lemma tun_params_body_length:
  "length rnd = TUN_PARAMS_LEN + 2 \<Longrightarrow> length (tun_params_body env rnd) = TUN_PARAMS_LEN"
  by (simp add: tun_params_body_def ito4b_def wire_consts)

lemma requestAuth_wlog:
  "hc_wlog (cc_conn (requestAuthAndDHExchange env st)) = hc_wlog (cc_conn st)
     @ (fst (randArray 256 (cc_rng st)))[0xff := d5Sub (fst (randArray 256 (cc_rng st)) ! 0xd5)]
     @ (case ce_rsa_encrypt env (string_bytes (ce_user env @ [CHR 0x00] @ ce_pass env)) of Some b \<Rightarrow> b | None \<Rightarrow> [])
     @ dh_pubLen (ce_dhKeys env) @ dh_pub (ce_dhKeys env)"
  by (simp add: requestAuthAndDHExchange_def conn_write_def Let_def split: prod.splits)

lemma randArray_length_256: "length (fst (randArray n g)) = n"
  by (simp add: randArray_def)

lemma obf_markers:
  assumes "length obf0 = 256"
  shows "d5SumValid (obf0[0xff := d5Sub (obf0 ! 0xd5)] ! 0xd5) (obf0[0xff := d5Sub (obf0 ! 0xd5)] ! 0xff)"
  using assms by (simp add: d5SumValid_iff d5Sub_eq)

lemma verify_refusal:
  "se_rsa_decrypt senv blk = Some uid \<Longrightarrow> se_authenticate senv uid = (False, ex) \<Longrightarrow>
   fst (verifyThenDHExchange senv blk sst) = Inr ([], Some ex)
   \<and> hc_wlog (sv_conn (snd (verifyThenDHExchange senv blk sst))) = hc_wlog (sv_conn sst) @ [0, 1, 0xff]"
  by (auto simp: verifyThenDHExchange_def sv_write_def conn_write_def ReadFullByLen_def conn_read_def
      read_full_def Let_def split: prod.splits)

text \<open>The fields of a parameter block, read back at the offsets \<open>validateAndGetTokens\<close> uses.\<close>

lemma tun_params_fields:
  assumes "length rnd = TUN_PARAMS_LEN + 2"
  shows "the (be32_get (tun_params_body env rnd @ tokens)) = se_version env"
        "the (be16_get (drop 4 (tun_params_body env rnd @ tokens))) = of_nat (se_ctl_ping env)"
        "the (be16_get (drop 6 (tun_params_body env rnd @ tokens))) = of_nat (se_dt_ping env)"
        "(tun_params_body env rnd @ tokens) ! 8 = se_tun_qty env"
        "drop TUN_PARAMS_LEN (tun_params_body env rnd @ tokens) = tokens"
  using tun_params_body_length [OF assms, of env]
  by (simp_all add: tun_params_body_def ito4b_def wire_simps nth_append)

text \<open>C14: round trip of the tunnel parameters across the two sides.  The block the
  server's \<open>respondTestWithToken\<close> writes (length, version, ping intervals, tunnel
  count, tokens), read by the client's \<open>validateAndGetTokens\<close> when the versions are
  compatible, yields exactly the server's intervals, tunnel count and tokens.\<close>

theorem tun_params_roundtrip:
  assumes rnd: "length rnd = TUN_PARAMS_LEN + 2"
      and tok: "length tokens = se_token_num senv * TKSZ"
      and lim: "TUN_PARAMS_LEN + se_token_num senv * TKSZ < 65536" "se_ctl_ping senv < 65536"
               "se_dt_ping senv < 65536"
      and ver: "version_check (ce_version cenv) (se_version senv) = None"
      and c: "hc_in (cc_conn cst) = (tun_params_head senv rnd @ tokens) # cs"
  shows "\<exists>r. fst (validateAndGetTokens cenv cst t) = Inr r
     \<and> snd (snd (validateAndGetTokens cenv cst t)) =
         t\<lparr>tp_stInterval := se_ctl_ping senv, tp_dtInterval := se_dt_ping senv,
           tp_tunQty := unat (se_tun_qty senv), tp_token := tokens\<rparr>"
proof -
  let ?b = "tun_params_body senv rnd @ tokens"
  have lb: "length ?b = TUN_PARAMS_LEN + se_token_num senv * TKSZ"
    using tun_params_body_length [OF rnd] tok by simp
  have ch: "hc_in (cc_conn cst) = (be16_put (of_nat (length ?b)) @ ?b) # cs"
    using c lb by (simp add: tun_params_head_body)
  obtain h1 where rf: "ReadFullByLen 2 (cc_conn cst) = (?b, None, h1)"
    using ReadFullByLen_block_eq [OF _ ch] lb lim(1) by auto
  note f = tun_params_fields [OF rnd, of senv tokens]
  have u: "unat (of_nat (se_ctl_ping senv) :: u16) = se_ctl_ping senv"
          "unat (of_nat (se_dt_ping senv) :: u16) = se_dt_ping senv"
    using lim(2,3) by (simp_all add: unat_of_nat)
  have l4: "\<not> length ?b < 4" "\<not> length ?b < TUN_PARAMS_LEN" using lb by (simp_all add: wire_consts)
  show ?thesis
    using rf f u l4 ver
    by (auto simp: validateAndGetTokens_def Let_def split: prod.splits)
qed

text \<open>C16: the client's version check.  \<open>validateAndGetTokens\<close> refuses the parameter
  block with \<open>INCOMPATIBLE_VERSION\<close> exactly when the remote version is above the local
  one and differs from it in its upper 16 bits (major and minor): a newer minor release is
  refused and an older release of another major is accepted.\<close>

theorem validate_version:
  assumes lb: "length b < 65536" "4 \<le> length b"
      and c: "hc_in (cc_conn cst) = (be16_put (of_nat (length b)) @ b) # cs"
  shows "fst (validateAndGetTokens cenv cst t) = Inr (Some (CExc (Apply INCOMPATIBLE_VERSION (ver_string (the (be32_get b))))))
     \<longleftrightarrow> ce_version cenv < the (be32_get b) \<and> drop_bit 16 (ce_version cenv) \<noteq> drop_bit 16 (the (be32_get b))"
proof -
  obtain h1 where rf: "ReadFullByLen 2 (cc_conn cst) = (b, None, h1)"
    using ReadFullByLen_block_eq [OF lb(1) c] by auto
  have d: "INCONSISTENT_HASH \<noteq> Apply INCOMPATIBLE_VERSION x" for x
    by (simp add: exception_defs Apply_def)
  show ?thesis
    using rf lb(2) d
    by (auto simp: validateAndGetTokens_def version_check_def Let_def split: prod.splits if_splits)
qed

text \<open>C15: a refused identity reaches the client as \<open>AUTH_FAILED\<close>.  When the
  server's authenticator rejects the identity, \<open>verifyThenDHExchange\<close> returns the
  backend's exception and the three bytes it writes make the client's
  \<open>finishDHExThenSetupCipher\<close> return \<open>AUTH_FAILED\<close>.\<close>

theorem server_refusal_auth_failed:
  assumes rsa: "se_rsa_decrypt senv blk = Some uid" and auth: "se_authenticate senv uid = (False, ex)"
      and c: "hc_in (cc_conn cst) = drop (length (hc_wlog (sv_conn sst)))
                 (hc_wlog (sv_conn (snd (verifyThenDHExchange senv blk sst)))) # cs"
  shows "fst (verifyThenDHExchange senv blk sst) = Inr ([], Some ex)
     \<and> fst (finishDHExThenSetupCipher cenv cst t) = Inr (Some AUTH_FAILED)"
proof -
  note v = verify_refusal [OF rsa auth, of sst]
  have c': "hc_in (cc_conn cst) = (be16_put (of_nat (length [0xff :: byte])) @ [0xff]) # cs"
    using c v by (simp add: be16_put_def)
  obtain h1 where "ReadFullByLen 2 (cc_conn cst) = ([0xff], None, h1)"
    using ReadFullByLen_block_eq [OF _ c'] by auto
  then show ?thesis using v by (simp add: finishDHExThenSetupCipher_def)
qed

text \<open>Witnesses.\<close>

theorem tun_params_roundtrip_witness:
  "\<exists>r. fst (validateAndGetTokens example_cenv (example_cst [tun_params_head example_env (replicate 34 0) @ replicate 40 3]) tunParams0) = Inr r
     \<and> snd (snd (validateAndGetTokens example_cenv (example_cst [tun_params_head example_env (replicate 34 0) @ replicate 40 3]) tunParams0))
        = tunParams0\<lparr>tp_stInterval := 30, tp_dtInterval := 60, tp_tunQty := 2, tp_token := replicate 40 3\<rparr>"
  using tun_params_roundtrip [of "replicate 34 0" "replicate 40 3" example_env example_cenv
      "example_cst [tun_params_head example_env (replicate 34 0) @ replicate 40 3]" "[]" tunParams0]
  by (simp add: example_cenv_def example_cst_def version_check_def wire_consts)

theorem validate_version_witness:
  "fst (validateAndGetTokens (example_cenv\<lparr>ce_version := 0x01020000\<rparr>)
          (example_cst [[0, 32] @ ito4b 0x01030000 @ replicate 28 0]) tunParams0)
     = Inr (Some (CExc (Apply INCOMPATIBLE_VERSION (ver_string 0x01030000))))
   \<and> fst (validateAndGetTokens (example_cenv\<lparr>ce_version := 0x01020000\<rparr>)
          (example_cst [[0, 32] @ ito4b 0x00090000 @ replicate 28 0]) tunParams0)
     \<noteq> Inr (Some (CExc (Apply INCOMPATIBLE_VERSION (ver_string 0x00090000))))"
proof -
  have b1: "be16_put (of_nat (length (ito4b (0x01030000 :: u32) @ replicate 28 0))) = [0, 32 :: byte]"
    by (simp add: ito4b_def be16_put_def)
  have b2: "be16_put (of_nat (length (ito4b (0x00090000 :: u32) @ replicate 28 0))) = [0, 32 :: byte]"
    by (simp add: ito4b_def be16_put_def)
  show ?thesis
    using validate_version [of "ito4b 0x01030000 @ replicate 28 0"
        "example_cst [[0, 32] @ ito4b 0x01030000 @ replicate 28 0]" "[]" "example_cenv\<lparr>ce_version := 0x01020000\<rparr>" tunParams0]
      validate_version [of "ito4b 0x00090000 @ replicate 28 0"
        "example_cst [[0, 32] @ ito4b 0x00090000 @ replicate 28 0]" "[]" "example_cenv\<lparr>ce_version := 0x01020000\<rparr>" tunParams0]
      b1 b2
    by (simp add: example_cst_def ito4b_def wire_simps)
qed

theorem server_refusal_auth_failed_witness:
  "fst (finishDHExThenSetupCipher example_cenv
          (example_cst [drop 0 (hc_wlog (sv_conn (snd (verifyThenDHExchange
              (example_env\<lparr>se_authenticate := \<lambda>x. (False, AUTH_FAILED)\<rparr>) [] (example_st [])))))]) tunParams0)
     = Inr (Some AUTH_FAILED)"
  using server_refusal_auth_failed [of "example_env\<lparr>se_authenticate := \<lambda>x. (False, AUTH_FAILED)\<rparr>" "[]" "[]"
      AUTH_FAILED "example_cst [drop 0 (hc_wlog (sv_conn (snd (verifyThenDHExchange
              (example_env\<lparr>se_authenticate := \<lambda>x. (False, AUTH_FAILED)\<rparr>) [] (example_st [])))))]" "example_st []" "[]"
      example_cenv tunParams0]
  by (simp add: example_cst_def)

end
