(* ===== verification/Boot.thy ===== *)
theory Boot
  imports ClientNego
begin

text \<open>
  The process-level code of \<open>src/version.go\<close> and \<open>src/bootContext.go\<close>: the packed
  version number and its text, the verbosity option, and the client manager that picks
  one of the configured servers' clients for every accepted local connection.  The
  clients themselves (\<open>tunnel.Client\<close>) are not under \<open>src/\<close>: a client is its atomic
  \<open>State\<close>, \<open>nil\<close> being \<open>None\<close>; the random draw \<open>rand.Intn(num<<4)\<close> is a parameter.
  Listening, accepting and flag parsing are I/O and are not modelled.
\<close>

subsection \<open>Version\<close>

definition app_name :: string where "app_name = ''deblocus''"
definition ver_major :: "8 word" where "ver_major = 0"
definition ver_minor :: "8 word" where "ver_minor = 9"
definition ver_build :: "16 word" where "ver_build = 10 * 223 + 0"

definition pack_version :: "8 word \<Rightarrow> 8 word \<Rightarrow> 16 word \<Rightarrow> u32" where
  "pack_version major minor build =
     ((0 OR push_bit 24 (ucast major)) OR push_bit 16 (ucast minor)) OR ucast build"

definition version :: u32 where
  "version = pack_version ver_major ver_minor ver_build"

definition versionString :: "string \<Rightarrow> string" where
  "versionString build_flag = app_name @ '' version: '' @ Itoa (unat ver_major) @ ''.'' @ Itoa (unat ver_minor)
     @ ''.'' @ pad4 (Itoa (unat ver_build)) @ build_flag @ ''\<newline>''"

subsection \<open>Verbosity\<close>

text \<open>\<open>setLogVerbose\<close>: the \<open>-v\<close> option, one byte of the command line, wins when it is
  a single decimal digit; otherwise the configured level applies, after a warning when
  the option was given.  The result is the level passed to \<open>log.Set_Verbose\<close> and the
  lines printed.\<close>

definition setLogVerbose :: "string \<Rightarrow> int \<Rightarrow> int \<times> string list" where
  "setLogVerbose vFlag level =
     (let (v, out) =
        (if 0 < length vFlag then
           (if length vFlag = 1 \<and> 48 \<le> (of_char (vFlag ! 0) :: nat) \<and> of_char (vFlag ! 0) \<le> (57 :: nat)
            then (int (of_char (vFlag ! 0)) - 48, [])
            else (-1, [''Warning: invalid option -v='' @ vFlag]))
         else (-1, []))
      in (if 0 \<le> v then v else level, out))"

subsection \<open>Client manager\<close>

text \<open>A client is the \<open>State\<close> word of its \<open>tunnel.Client\<close> (\<open>None\<close> for \<open>nil\<close>); it is
  usable when the state, an \<open>int32\<close>, is not negative.  The DH keys and the endpoint
  parameters are handed to \<open>NewClient\<close>, a parameter of \<open>NewClientMgr\<close>.\<close>

record clientMgr =
  cm_clients :: "32 word option list"
  cm_num :: nat
  cm_indexChain :: "byte list"

definition client_ok :: "32 word option \<Rightarrow> bool" where
  "client_ok w = (case w of None \<Rightarrow> False | Some s \<Rightarrow> 0 \<le> sint s)"

definition NewClientMgr :: "('p \<Rightarrow> 32 word) \<Rightarrow> 'p list \<Rightarrow> clientMgr" where
  "NewClientMgr NewClient d5pArray =
     (let num = length d5pArray;
          chain = (if 1 < num then map (\<lambda>i. of_nat (i mod num)) [0..<2 * num] else [])
      in \<lparr>cm_clients = map (\<lambda>p. Some (NewClient p)) d5pArray, cm_num = num,
          cm_indexChain = chain\<rparr>)"

text \<open>\<open>selectClient\<close>, with \<open>r\<close> the draw \<open>rand.Intn(num<<4)\<close>.  The result is the index
  of the chosen client, \<open>None\<close> for \<open>nil\<close> (after the log line and the rest interval);
  a slice or index out of range is a panic.\<close>

fun scan_clients :: "32 word option list \<Rightarrow> nat list \<Rightarrow> panic_val + nat option" where
  "scan_clients cs [] = Inr None"
| "scan_clients cs (v # vs) =
     (if length cs \<le> v then Inl (PStr ''index out of range'')
      else if client_ok (cs ! v) then Inr (Some v) else scan_clients cs vs)"

definition selectClient :: "clientMgr \<Rightarrow> nat \<Rightarrow> panic_val + nat option" where
  "selectClient m r =
     (if 1 < cm_num m then
        (let i = drop_bit 4 r in
         if length (cm_indexChain m) < i + cm_num m - 1 then Inl (PStr ''slice bounds out of range'')
         else scan_clients (cm_clients m) (map unat (take (cm_num m - 1) (drop i (cm_indexChain m)))))
      else if cm_clients m = [] then Inl (PStr ''index out of range'')
      else if client_ok (cm_clients m ! 0) then Inr (Some 0) else Inr None)"

text \<open>The manager's shape, as \<open>NewClientMgr\<close> builds it and as nothing later changes:
  one client slot per endpoint, and the doubled index chain for more than one.\<close>

definition mgr_wf :: "clientMgr \<Rightarrow> bool" where
  "mgr_wf m \<longleftrightarrow> length (cm_clients m) = cm_num m
     \<and> cm_indexChain m = (if 1 < cm_num m then map (\<lambda>i. of_nat (i mod cm_num m)) [0..<2 * cm_num m] else [])"

lemma NewClientMgr_wf:
  "mgr_wf (NewClientMgr NewClient ps) \<and> cm_num (NewClientMgr NewClient ps) = length ps"
  by (simp add: mgr_wf_def NewClientMgr_def Let_def)

lemma scan_clients_find:
  "\<forall>v\<in>set vs. v < length cs \<Longrightarrow> scan_clients cs vs = Inr (find (\<lambda>v. client_ok (cs ! v)) vs)"
  by (induction vs) auto

lemma scan_clients_Some:
  "scan_clients cs vs = Inr (Some j) \<Longrightarrow> j \<in> set vs \<and> j < length cs \<and> client_ok (cs ! j)"
  by (induction vs) (auto split: if_splits)

lemma chain_window:
  assumes "1 < n" "n \<le> 256" "i < n"
  shows "map unat (take (n - 1) (drop i (map (\<lambda>i. of_nat (i mod n) :: byte) [0..<2 * n])))
       = map (\<lambda>k. (i + k) mod n) [0..<n - 1]"
proof (rule nth_equalityI)
  show "length (map unat (take (n - 1) (drop i (map (\<lambda>i. of_nat (i mod n) :: byte) [0..<2 * n]))))
      = length (map (\<lambda>k. (i + k) mod n) [0..<n - 1])"
    using assms by simp
next
  fix k assume "k < length (map unat (take (n - 1) (drop i (map (\<lambda>i. of_nat (i mod n) :: byte) [0..<2 * n]))))"
  then have k: "k < n - 1" using assms by simp
  then have "i + k < 2 * n" using assms by linarith
  moreover have "(i + k) mod n < 256" using mod_less_divisor [of n "i + k"] assms by linarith
  ultimately show "map unat (take (n - 1) (drop i (map (\<lambda>i. of_nat (i mod n) :: byte) [0..<2 * n]))) ! k
      = map (\<lambda>k. (i + k) mod n) [0..<n - 1] ! k"
    using assms k by (simp add: unat_of_nat nth_upt)
qed

lemma mod_window_ne:
  assumes "1 < (n :: nat)" "k < n - 1"
  shows "(i + k) mod n \<noteq> (i + (n - 1)) mod n"
proof
  assume e: "(i + k) mod n = (i + (n - 1)) mod n"
  have le: "i + k \<le> i + (n - 1)" using assms(2) by auto
  from e [symmetric] have "n dvd (i + (n - 1)) - (i + k)"
    by (simp only: mod_eq_dvd_iff_nat [OF le])
  then have "n \<le> (i + (n - 1)) - (i + k)"
    using assms by (intro dvd_imp_le) auto
  then show False using assms by linarith
qed
text \<open>C18: For a manager of the shape \<open>NewClientMgr\<close> builds, with two to 256 endpoints, and a draw
  \<open>r\<close> of \<open>rand.Intn(num<<4)\<close>, \<open>selectClient\<close> returns the first usable client among
  the \<open>num - 1\<close> clients that follow the start \<open>r div 16\<close> in cyclic order, the start
  included, and \<open>nil\<close> when none of them is usable.\<close>

lemma selectClient_window:
  assumes wf: "mgr_wf m" and n: "1 < cm_num m" "cm_num m \<le> 256" and r: "r < 16 * cm_num m"
  shows "selectClient m r = Inr (find (\<lambda>j. client_ok (cm_clients m ! j))
                              (map (\<lambda>k. (r div 16 + k) mod cm_num m) [0..<cm_num m - 1]))"
proof -
  have i: "drop_bit 4 r = r div 16" "r div 16 < cm_num m" using r by (simp_all add: drop_bit_eq_div)
  have w: "map unat (take (cm_num m - 1) (drop (r div 16) (cm_indexChain m)))
         = map (\<lambda>k. (r div 16 + k) mod cm_num m) [0..<cm_num m - 1]"
    using chain_window [OF n i(2)] wf n(1) by (simp add: mgr_wf_def)
  have "\<forall>v\<in>set (map (\<lambda>k. (r div 16 + k) mod cm_num m) [0..<cm_num m - 1]). v < length (cm_clients m)"
    using wf n by (auto simp: mgr_wf_def)
  then show ?thesis
    using wf n i w by (simp add: selectClient_def mgr_wf_def scan_clients_find Let_def)
qed

text \<open>C17: The window is one short: for a manager with 2 to 256 endpoints (so that the
  byte index chain does not wrap), when the only usable client is the one just before
  the start in cyclic order, \<open>selectClient\<close> returns \<open>nil\<close> although a client is
  available (with two endpoints, every other draw).\<close>

lemma selectClient_skips_last:
  assumes wf: "mgr_wf m" and n: "1 < cm_num m" "cm_num m \<le> 256" and r: "r < 16 * cm_num m"
    and dead: "\<forall>k<cm_num m. k \<noteq> (r div 16 + (cm_num m - 1)) mod cm_num m \<longrightarrow> \<not> client_ok (cm_clients m ! k)"
  shows "selectClient m r = Inr None"
proof -
  have "\<forall>k<cm_num m - 1. \<not> client_ok (cm_clients m ! ((r div 16 + k) mod cm_num m))"
  proof (intro allI impI)
    fix k assume k: "k < cm_num m - 1"
    have "(r div 16 + k) mod cm_num m < cm_num m" using n(1) by simp
    moreover have "(r div 16 + k) mod cm_num m \<noteq> (r div 16 + (cm_num m - 1)) mod cm_num m"
      using mod_window_ne [OF n(1) k] .
    ultimately show "\<not> client_ok (cm_clients m ! ((r div 16 + k) mod cm_num m))"
      using dead by blast
  qed
  then show ?thesis
    using selectClient_window [OF wf n r] by (simp add: find_None_iff)
qed

text \<open>C28: A client that \<open>selectClient\<close> returns is a usable one, and its index is
  below 256, since the index chain holds bytes: endpoints beyond the 256th are never
  chosen.\<close>

lemma selectClient_Some:
  "selectClient m r = Inr (Some j) \<Longrightarrow> j < length (cm_clients m) \<and> client_ok (cm_clients m ! j) \<and> j < 256"
  by (auto simp: selectClient_def Let_def unat_byte_lt split: if_splits dest!: scan_clients_Some)

lemma pack_version_fields:
  "drop_bit 24 (pack_version M m b) = ucast M"
  "drop_bit 16 (pack_version M m b) AND 0xff = ucast m"
  "pack_version M m b AND 0xffff = ucast b"
  unfolding mask_ff_32 mask_ffff_32
  by (rule bit_word_eqI; auto simp: pack_version_def bit_simps dest: bit_imp_le_length)+

lemma ver_string_pack:
  "ver_string (pack_version M m b) = Itoa (unat M) @ ''.'' @ Itoa (unat m) @ ''.'' @ pad4 (Itoa (unat b))"
  by (simp add: ver_string_def pack_version_fields unat_ucast_up)

text \<open>C29: The packed version number reads back as its three fields: the text
  \<open>d5.go\<close> builds from a peer's version is major, minor and the zero-padded build,
  and the program's own \<open>versionString\<close> prints exactly that text of \<open>version\<close>.\<close>

lemma version_roundtrip:
  "ver_string (pack_version M m b) = Itoa (unat M) @ ''.'' @ Itoa (unat m) @ ''.'' @ pad4 (Itoa (unat b))
   \<and> versionString flag = app_name @ '' version: '' @ ver_string version @ flag @ ''\<newline>''"
  by (simp add: ver_string_pack version_def versionString_def)

text \<open>C30: \<open>setLogVerbose\<close> applies a \<open>-v\<close> option that is one decimal digit, any of
  0 to 9, and otherwise the configured level, warning when the option was given but
  is not a single digit.\<close>

lemma setLogVerbose_result:
  "setLogVerbose vFlag level =
     (case vFlag of
        [] \<Rightarrow> (level, [])
      | [c] \<Rightarrow> if 48 \<le> (of_char c :: nat) \<and> of_char c \<le> (57 :: nat) then (int (of_char c) - 48, [])
               else (level, [''Warning: invalid option -v='' @ vFlag])
      | _ \<Rightarrow> (level, [''Warning: invalid option -v='' @ vFlag]))"
  by (auto simp: setLogVerbose_def split: list.split)


lemma selectClient_window_witness:
  "selectClient (NewClientMgr (\<lambda>s. s) [-1, 0 :: 32 word]) 16 = Inr (Some 1)"
proof -
  have "selectClient (NewClientMgr (\<lambda>s. s) [-1, 0 :: 32 word]) 16
      = Inr (find (\<lambda>j. client_ok (cm_clients (NewClientMgr (\<lambda>s. s) [-1, 0 :: 32 word]) ! j))
              (map (\<lambda>k. (16 div 16 + k) mod cm_num (NewClientMgr (\<lambda>s. s) [-1, 0 :: 32 word]))
                 [0..<cm_num (NewClientMgr (\<lambda>s. s) [-1, 0 :: 32 word]) - 1]))"
    by (rule selectClient_window) (simp_all add: NewClientMgr_wf)
  then show ?thesis by (simp add: NewClientMgr_def client_ok_def)
qed

lemma selectClient_skips_last_witness:
  "selectClient (NewClientMgr (\<lambda>s. s) [-1, 0 :: 32 word]) 0 = Inr None
   \<and> client_ok (cm_clients (NewClientMgr (\<lambda>s. s) [-1, 0 :: 32 word]) ! 1)"
proof -
  have "selectClient (NewClientMgr (\<lambda>s. s) [-1, 0 :: 32 word]) 0 = Inr None"
    by (rule selectClient_skips_last)
       (simp_all add: NewClientMgr_def mgr_wf_def client_ok_def less_Suc_eq)
  then show ?thesis by (simp add: NewClientMgr_def client_ok_def)
qed

lemma selectClient_Some_witness:
  "selectClient (NewClientMgr (\<lambda>s. s) [-1, 0 :: 32 word]) 16 = Inr (Some 1)
   \<and> 1 < length (cm_clients (NewClientMgr (\<lambda>s. s) [-1, 0 :: 32 word]))
   \<and> client_ok (cm_clients (NewClientMgr (\<lambda>s. s) [-1, 0 :: 32 word]) ! 1) \<and> (1 :: nat) < 256"
proof -
  have s: "selectClient (NewClientMgr (\<lambda>s. s) [-1, 0 :: 32 word]) 16 = Inr (Some 1)"
    by code_simp
  show ?thesis using selectClient_Some [OF s] s by simp
qed

end
