(* ===== verification/BootContext.thy ===== *)
theory BootContext
  imports Boot
begin

text \<open>
  The start-up code of \<open>src/bootContext.go\<close> around the client manager: \<open>parse\<close>,
  which detects the role and the configuration file and publishes the version and the
  debug flag to the \<open>tunnel\<close> and \<open>exception\<close> packages; \<open>csc_process\<close>, which issues
  client credentials; \<open>selectClientServ\<close> and \<open>Stats\<close> of the client manager; and the
  accept loop of \<open>startClient\<close>.  What these call outside \<open>src/\<close> (the role and file
  detection, the configuration parser, the credential writer, \<open>tunnel.Client\<close>'s
  statistics) are parameters; printing is the list of lines printed, and an exit is the
  exit code with those lines.  The accept loop, which never ends, is modelled on a finite
  prefix of the listener's results: \<open>Some r\<close> an accepted connection whose goroutine
  draws \<open>r\<close>, \<open>None\<close> a failed \<open>Accept\<close>.
\<close>

record bootContext =
  bc_config :: string
  bc_isServ :: bool
  bc_csc :: bool
  bc_icc :: bool
  bc_verbosity :: string
  bc_debug :: bool

text \<open>The package variables \<open>parse\<close> assigns: \<open>tunnel.VERSION\<close>, \<open>tunnel.VER_STRING\<close>,
  \<open>tunnel.DEBUG\<close> and \<open>exception.DEBUG\<close>.\<close>

record globals =
  g_VERSION :: u32
  g_VER_STRING :: string
  g_DEBUG :: bool
  g_exDEBUG :: bool

definition publish :: "string \<Rightarrow> bootContext \<Rightarrow> globals \<Rightarrow> globals" where
  "publish build_flag c g =
     g\<lparr>g_VERSION := version, g_VER_STRING := versionString build_flag, g_DEBUG := bc_debug c,
       g_exDEBUG := bc_debug c\<rparr>"

text \<open>\<open>parse\<close>, with \<open>DetectRunAsServ ()\<close> and \<open>DetectFile\<close> as parameters.\<close>

definition parse ::
  "bool \<Rightarrow> (bool \<Rightarrow> string \<times> bool) \<Rightarrow> string \<Rightarrow> bootContext \<Rightarrow> globals
   \<Rightarrow> (nat \<times> string list) + bootContext \<times> globals" where
  "parse DetectRunAsServ DetectFile build_flag c g =
     (let c1 = (if \<not> bc_isServ c then c\<lparr>bc_isServ := bc_icc c \<or> DetectRunAsServ\<rparr> else c) in
      if bc_config c1 = '''' \<and> \<not> bc_csc c1 then
        (case DetectFile (bc_isServ c1) of
           (path, e) \<Rightarrow>
             if \<not> e then Inl (1, [''No such file '' @ path,
                                   ''Create/put config in typical path or indicate it explicitly.''])
             else Inr (c1\<lparr>bc_config := path\<rparr>, publish build_flag c1 g))
      else Inr (c1, publish build_flag c1 g))"

text \<open>\<open>csc_process\<close>: the loop over the user names, stopped by the first panic of
  \<open>CreateClientCredential\<close>, which the deferred \<open>recover\<close> prints.  The result is the
  users whose credentials were written, in order, and the lines printed.\<close>

fun create_all :: "(string \<Rightarrow> string option) \<Rightarrow> string list \<Rightarrow> string list \<times> string option" where
  "create_all create [] = ([], None)"
| "create_all create (u # us) =
     (case create u of
        Some err \<Rightarrow> ([], Some err)
      | None \<Rightarrow> (case create_all create us of (cs, e) \<Rightarrow> (u # cs, e)))"

definition csc_process ::
  "(string \<Rightarrow> bool \<times> string) \<Rightarrow> (string \<Rightarrow> string + 'c) \<Rightarrow> (string \<Rightarrow> string \<times> 'c \<Rightarrow> string \<Rightarrow> string option)
   \<Rightarrow> string \<Rightarrow> string list \<Rightarrow> string \<Rightarrow> string list \<times> string list" where
  "csc_process IsValidHost Parse_d5sFile CreateClientCredential config args output =
     (if 2 \<le> length args then
        (let addr = args ! 0 in
         case IsValidHost addr of
           (v, e) \<Rightarrow>
             if \<not> v then ([], [e])
             else (case Parse_d5sFile config of
                     Inl err \<Rightarrow> ([], [err])
                   | Inr d5sc \<Rightarrow>
                       (case create_all (CreateClientCredential output (addr, d5sc)) (tl args) of
                          (cs, None) \<Rightarrow> (cs, [])
                        | (cs, Some err) \<Rightarrow> (cs, [err]))))
      else ([], [''Which user do you issue client credential for?'']))"

text \<open>What happens to an accepted local connection.\<close>

datatype serve_action = ClientServe nat | SafeCloseConn | AcceptFailed

definition selectClientServ :: "clientMgr \<Rightarrow> nat \<Rightarrow> panic_val + serve_action" where
  "selectClientServ m r =
     (case selectClient m r of
        Inl p \<Rightarrow> Inl p
      | Inr (Some i) \<Rightarrow> Inr (ClientServe i)
      | Inr None \<Rightarrow> Inr SafeCloseConn)"

text \<open>\<open>strings.Join\<close> and the manager's \<open>Stats\<close>, with \<open>stats i\<close> the text of client
  \<open>i\<close>: the slice has \<open>num\<close> entries, so a non-\<open>nil\<close> client beyond it is an index out of
  range.\<close>

fun Join :: "string \<Rightarrow> string list \<Rightarrow> string" where
  "Join sep [] = []"
| "Join sep [x] = x"
| "Join sep (x # y # xs) = x @ sep @ Join sep (y # xs)"

definition mgr_Stats :: "(nat \<Rightarrow> string) \<Rightarrow> clientMgr \<Rightarrow> panic_val + string" where
  "mgr_Stats stats m =
     (if list_ex (\<lambda>i. cm_clients m ! i \<noteq> None) [cm_num m..<length (cm_clients m)]
      then Inl (PStr ''index out of range'')
      else Inr (Join ''\<newline>'' (map (\<lambda>i. if i < length (cm_clients m) \<and> cm_clients m ! i \<noteq> None then stats i else '''')
                                  [0..<cm_num m])))"

text \<open>The client configuration fields \<open>startClient\<close> reads, and its body after the
  configuration is parsed: the verbosity, the manager, and the accept loop.\<close>

record 'p d5c_conf =
  dc_ListenAddr :: string
  dc_Verbose :: int
  dc_D5PList :: "'p list"

definition startClient ::
  "bootContext \<Rightarrow> 'p d5c_conf \<Rightarrow> ('p \<Rightarrow> 32 word) \<Rightarrow> nat option list \<Rightarrow> int \<times> (panic_val + serve_action) list" where
  "startClient c conf NewClient accepts =
     (let lvl = fst (setLogVerbose (bc_verbosity c) (dc_Verbose conf));
          mgr = NewClientMgr NewClient (dc_D5PList conf) in
      (lvl, map (\<lambda>a. case a of None \<Rightarrow> Inr AcceptFailed | Some r \<Rightarrow> selectClientServ mgr r) accepts))"

text \<open>\<open>doStats\<close>: the text printed for the context's \<open>Statser\<close>, given as its \<open>Stats\<close>
  method (a panic of it propagates), or nothing when \<open>statser\<close> is \<open>nil\<close>.\<close>

definition doStats :: "(unit \<Rightarrow> panic_val + string) option \<Rightarrow> panic_val + string" where
  "doStats statser =
     (case statser of None \<Rightarrow> Inr ''''
      | Some st \<Rightarrow> (case st () of Inl p \<Rightarrow> Inl p | Inr s \<Rightarrow> Inr (s @ ''\<newline>'')))"

text \<open>\<open>startServer\<close>: the level \<open>setLogVerbose\<close> applies and what the accept loop does
  with each result of \<open>AcceptTCP\<close> (\<open>Some conn\<close> a connection, \<open>None\<close> an error), on a
  finite prefix of the listener's results.  \<open>Parse_d5sFile\<close>, \<open>GenerateDHKeyPairs\<close> and
  \<open>NewServer\<close> are outside \<open>src/\<close>: the configuration is a record of the fields used,
  and \<open>TunnelServe\<close> is the goroutine that serves a connection.\<close>

record d5s_conf =
  ds_ListenAddr :: string
  ds_Verbose :: int

datatype 'c server_action = TunnelServe 'c | SrvSafeClose

definition startServer :: "bootContext \<Rightarrow> d5s_conf \<Rightarrow> 'c option list \<Rightarrow> int \<times> 'c server_action list" where
  "startServer c conf accepts =
     (let lvl = fst (setLogVerbose (bc_verbosity c) (ds_Verbose conf)) in
      (lvl, map (\<lambda>a. case a of Some conn \<Rightarrow> TunnelServe conn | None \<Rightarrow> SrvSafeClose) accepts))"

text \<open>The deferred function of \<open>startClient\<close> and \<open>startServer\<close>: the accept loop never
  returns, so it runs only when the start panics, in practice when \<open>Parse_d5cFile\<close> or
  \<open>Parse_d5sFile\<close> throws on a bad configuration (given here as \<open>Inl\<close> of the panic);
  it logs the panic with \<open>CatchException\<close> and sends \<open>Bye\<close> on \<open>sigChan\<close>.  A failing
  \<open>ListenTCP\<close> calls \<open>log.Fatalln\<close>, which exits without running deferred functions,
  and is not modelled.\<close>

datatype boot_signal = Bye

definition startClient_main ::
  "bool \<Rightarrow> bootContext \<Rightarrow> panic_val + 'p d5c_conf \<Rightarrow> ('p \<Rightarrow> 32 word) \<Rightarrow> nat option list
   \<Rightarrow> (log_action \<times> boot_signal list) + int \<times> (panic_val + serve_action) list" where
  "startClient_main debug c parsed NewClient accepts =
     (case parsed of
        Inl p \<Rightarrow> Inl (fst (CatchException debug p), [Bye])
      | Inr conf \<Rightarrow> Inr (startClient c conf NewClient accepts))"

definition startServer_main ::
  "bool \<Rightarrow> bootContext \<Rightarrow> panic_val + d5s_conf \<Rightarrow> 'c option list
   \<Rightarrow> (log_action \<times> boot_signal list) + int \<times> 'c server_action list" where
  "startServer_main debug c parsed accepts =
     (case parsed of
        Inl p \<Rightarrow> Inl (fst (CatchException debug p), [Bye])
      | Inr conf \<Rightarrow> Inr (startServer c conf accepts))"

lemma chain_entries_lt:
  "x \<in> set (cm_indexChain (NewClientMgr f ps)) \<Longrightarrow> unat x < length ps"
proof -
  assume x: "x \<in> set (cm_indexChain (NewClientMgr f ps))"
  then obtain k where k: "x = of_nat (k mod length ps)" "1 < length ps"
    by (auto simp: NewClientMgr_def Let_def split: if_splits)
  have "unat x = (k mod length ps) mod 2 ^ LENGTH(8)" using k(1) by (simp add: unat_of_nat)
  also have "\<dots> \<le> k mod length ps" by (rule mod_less_eq_dividend)
  also have "\<dots> < length ps" using k(2) mod_less_divisor [of "length ps" k] by linarith
  finally show ?thesis .
qed

lemma selectClient_NewClientMgr_Inr:
  assumes ne: "ps \<noteq> []" and r: "r < 16 * length ps"
  shows "\<exists>res. selectClient (NewClientMgr f ps) r = Inr res"
proof (cases "1 < length ps")
  case False
  then show ?thesis using ne by (auto simp: selectClient_def NewClientMgr_def Let_def)
next
  case True
  let ?m = "NewClientMgr f ps"
  have n: "cm_num ?m = length ps" "length (cm_clients ?m) = length ps"
    "length (cm_indexChain ?m) = 2 * length ps"
    using True by (simp_all add: NewClientMgr_def Let_def)
  have i: "drop_bit 4 r < length ps" using r by (simp add: drop_bit_eq_div)
  have "\<forall>v \<in> set (map unat (take (cm_num ?m - 1) (drop (drop_bit 4 r) (cm_indexChain ?m)))). v < length (cm_clients ?m)"
    using chain_entries_lt [of _ f ps] n by (auto dest: in_set_takeD in_set_dropD)
  then show ?thesis
    using True n i by (simp add: selectClient_def Let_def scan_clients_find)
qed

lemma selectClient_usable:
  "selectClient m r = Inr (Some j) \<Longrightarrow> j < length (cm_clients m) \<and> client_ok (cm_clients m ! j)"
  by (auto simp: selectClient_def Let_def split: if_splits dest!: scan_clients_Some)

lemma create_all_ok: "\<forall>u \<in> set us. create u = None \<Longrightarrow> create_all create us = (us, None)"
  by (induction us) auto

lemma versionString_text: "versionString bf = ''deblocus version: 0.9.2230'' @ bf @ ''\<newline>''"
  by code_simp

text \<open>Once \<open>startClient\<close> has made the client manager the context's \<open>statser\<close>,
  \<open>doStats\<close> prints the statistics of every client, one per line, and never panics:
  \<open>NewClientMgr\<close> fills exactly \<open>num\<close> slots.\<close>

lemma doStats_client_mgr:
  "doStats (Some (\<lambda>_. mgr_Stats stats (NewClientMgr f ps)))
     = Inr (Join ''\<newline>'' (map stats [0..<length ps]) @ ''\<newline>'')"
proof -
  let ?m = "NewClientMgr f ps"
  have m: "map (\<lambda>i. if i < length (cm_clients ?m) \<and> cm_clients ?m ! i \<noteq> None then stats i else '''')
      [0..<cm_num ?m] = map stats [0..<length ps]"
    by (rule map_cong) (auto simp: NewClientMgr_def Let_def)
  have n: "cm_num ?m = length (cm_clients ?m)" by (simp add: NewClientMgr_def Let_def)
  have "\<not> list_ex (\<lambda>i. cm_clients ?m ! i \<noteq> None) [cm_num ?m..<length (cm_clients ?m)]"
    using n by simp
  then show ?thesis by (simp only: doStats_def mgr_Stats_def if_False m option.case sum.case)
qed

text \<open>C34: The accept loop of \<open>startClient\<close>: a failed \<open>Accept\<close> only closes; with no
  endpoint configured every accepted connection panics in its goroutine (which ends the
  process); with endpoints, every accepted connection is either served by a client whose
  state is not negative or closed, and never panics.\<close>

theorem startClient_outcomes:
  assumes k: "k < length accepts"
  shows "(accepts ! k = None \<longrightarrow> snd (startClient c conf NewClient accepts) ! k = Inr AcceptFailed)
   \<and> (\<forall>r. accepts ! k = Some r \<longrightarrow> dc_D5PList conf = [] \<longrightarrow> (\<exists>p. snd (startClient c conf NewClient accepts) ! k = Inl p))
   \<and> (\<forall>r. accepts ! k = Some r \<longrightarrow> dc_D5PList conf \<noteq> [] \<longrightarrow> r < 16 * length (dc_D5PList conf) \<longrightarrow>
        snd (startClient c conf NewClient accepts) ! k = Inr SafeCloseConn
        \<or> (\<exists>i. snd (startClient c conf NewClient accepts) ! k = Inr (ClientServe i)
               \<and> i < length (dc_D5PList conf) \<and> 0 \<le> sint (NewClient (dc_D5PList conf ! i))))"
proof (intro conjI impI allI)
  assume "accepts ! k = None"
  then show "snd (startClient c conf NewClient accepts) ! k = Inr AcceptFailed"
    using k by (simp add: startClient_def Let_def)
next
  fix r assume "accepts ! k = Some r" "dc_D5PList conf = []"
  then show "\<exists>p. snd (startClient c conf NewClient accepts) ! k = Inl p"
    using k by (simp add: startClient_def Let_def selectClientServ_def selectClient_def NewClientMgr_def)
next
  fix r assume a: "accepts ! k = Some r" and ne: "dc_D5PList conf \<noteq> []"
    and r: "r < 16 * length (dc_D5PList conf)"
  let ?m = "NewClientMgr NewClient (dc_D5PList conf)"
  obtain res where s: "selectClient ?m r = Inr res"
    using selectClient_NewClientMgr_Inr [OF ne r] by blast
  have o: "snd (startClient c conf NewClient accepts) ! k = selectClientServ ?m r"
    using k a by (simp add: startClient_def Let_def)
  show "snd (startClient c conf NewClient accepts) ! k = Inr SafeCloseConn
        \<or> (\<exists>i. snd (startClient c conf NewClient accepts) ! k = Inr (ClientServe i)
               \<and> i < length (dc_D5PList conf) \<and> 0 \<le> sint (NewClient (dc_D5PList conf ! i)))"
  proof (cases res)
    case None
    then show ?thesis using o s by (simp add: selectClientServ_def)
  next
    case (Some i)
    then have "i < length (dc_D5PList conf) \<and> 0 \<le> sint (NewClient (dc_D5PList conf ! i))"
      using selectClient_usable [of ?m r i] s by (auto simp: NewClientMgr_def client_ok_def Let_def)
    then show ?thesis using o s Some by (simp add: selectClientServ_def)
  qed
qed

text \<open>C35: \<open>parse\<close> exits with code 1 and its two messages exactly when no configuration
  is given, no credential is being issued and the detected file does not exist;
  otherwise \<open>-icc\<close> forces the server role and the tunnel package receives the version
  word, which reads \<open>0.9.2230\<close>, the text of \<open>versionString\<close> and the debug flag.\<close>

theorem parse_publishes:
  "(parse d df bf c g = Inl (1, [''No such file '' @ fst (df (bc_isServ c \<or> bc_icc c \<or> d)),
                                ''Create/put config in typical path or indicate it explicitly.''])
     \<longleftrightarrow> bc_config c = '''' \<and> \<not> bc_csc c \<and> \<not> snd (df (bc_isServ c \<or> bc_icc c \<or> d)))
   \<and> (\<forall>c' g'. parse d df bf c g = Inr (c', g') \<longrightarrow>
       g_VERSION g' = version \<and> ver_string (g_VERSION g') = ''0.9.2230''
       \<and> g_VER_STRING g' = ''deblocus version: 0.9.2230'' @ bf @ ''\<newline>''
       \<and> g_DEBUG g' = bc_debug c \<and> g_exDEBUG g' = bc_debug c \<and> (bc_icc c \<longrightarrow> bc_isServ c'))"
proof -
  have v: "ver_string version = ''0.9.2230''"
    by code_simp
  show ?thesis
    by (auto simp: parse_def Let_def publish_def v versionString_text split: prod.splits if_splits)
qed

text \<open>C36: Issuing credentials: for a valid listen address, a configuration that parses
  and a writer that succeeds, \<open>csc_process\<close> writes one credential per user name given
  after the address, in order, and prints nothing; with fewer than two arguments it only
  asks for a user.\<close>

theorem csc_process_creates:
  assumes "IsValidHost addr = (True, e)" "Parse_d5sFile config = Inr d"
    "\<forall>u \<in> set users. Create output (addr, d) u = None" "users \<noteq> []"
  shows "csc_process IsValidHost Parse_d5sFile Create config (addr # users) output = (users, [])
    \<and> csc_process IsValidHost Parse_d5sFile Create config [addr] output
        = ([], [''Which user do you issue client credential for?''])"
  using assms create_all_ok [OF assms(3)] by (simp add: csc_process_def Suc_le_eq)

theorem startClient_outcomes_witness:
  "snd (startClient \<lparr>bc_config = '''', bc_isServ = False, bc_csc = False, bc_icc = False, bc_verbosity = '''', bc_debug = False\<rparr>
         \<lparr>dc_ListenAddr = ''127.0.0.1:1080'', dc_Verbose = 0, dc_D5PList = [-1, 0 :: 32 word]\<rparr> (\<lambda>s. s) [None, Some 0]) ! 1
     = Inr SafeCloseConn
   \<or> (\<exists>i. snd (startClient \<lparr>bc_config = '''', bc_isServ = False, bc_csc = False, bc_icc = False, bc_verbosity = '''', bc_debug = False\<rparr>
         \<lparr>dc_ListenAddr = ''127.0.0.1:1080'', dc_Verbose = 0, dc_D5PList = [-1, 0 :: 32 word]\<rparr> (\<lambda>s. s) [None, Some 0]) ! 1
           = Inr (ClientServe i) \<and> i < 2 \<and> 0 \<le> sint ([-1, 0 :: 32 word] ! i))"
  using startClient_outcomes [of 1 "[None, Some 0]"
      "\<lparr>bc_config = '''', bc_isServ = False, bc_csc = False, bc_icc = False, bc_verbosity = '''', bc_debug = False\<rparr>"
      "\<lparr>dc_ListenAddr = ''127.0.0.1:1080'', dc_Verbose = 0, dc_D5PList = [-1, 0 :: 32 word]\<rparr>" "\<lambda>s. s"]
  by (simp add: numeral_2_eq_2)

theorem parse_publishes_witness:
  "parse False (\<lambda>_. (''client.d5c'', False)) ''''
      \<lparr>bc_config = '''', bc_isServ = False, bc_csc = False, bc_icc = False, bc_verbosity = '''', bc_debug = False\<rparr>
      \<lparr>g_VERSION = 0, g_VER_STRING = '''', g_DEBUG = False, g_exDEBUG = False\<rparr>
    = Inl (1, [''No such file client.d5c'', ''Create/put config in typical path or indicate it explicitly.''])
   \<and> (\<exists>c' g'. parse False (\<lambda>_. (''client.d5c'', True)) ''-beta''
      \<lparr>bc_config = '''', bc_isServ = False, bc_csc = False, bc_icc = True, bc_verbosity = '''', bc_debug = False\<rparr>
      \<lparr>g_VERSION = 0, g_VER_STRING = '''', g_DEBUG = False, g_exDEBUG = False\<rparr> = Inr (c', g')
      \<and> g_VER_STRING g' = ''deblocus version: 0.9.2230'' @ ''-beta'' @ ''\<newline>'')"
proof (intro conjI)
  show "parse False (\<lambda>_. (''client.d5c'', False)) ''''
      \<lparr>bc_config = '''', bc_isServ = False, bc_csc = False, bc_icc = False, bc_verbosity = '''', bc_debug = False\<rparr>
      \<lparr>g_VERSION = 0, g_VER_STRING = '''', g_DEBUG = False, g_exDEBUG = False\<rparr>
    = Inl (1, [''No such file client.d5c'', ''Create/put config in typical path or indicate it explicitly.''])"
  using conjunct1 [OF parse_publishes [of False "\<lambda>_. (''client.d5c'', False)" "''''"
      "\<lparr>bc_config = '''', bc_isServ = False, bc_csc = False, bc_icc = False, bc_verbosity = '''', bc_debug = False\<rparr>"
      "\<lparr>g_VERSION = 0, g_VER_STRING = '''', g_DEBUG = False, g_exDEBUG = False\<rparr>"]]
  by simp
next
  have "\<exists>c' g'. parse False (\<lambda>_. (''client.d5c'', True)) ''-beta''
      \<lparr>bc_config = '''', bc_isServ = False, bc_csc = False, bc_icc = True, bc_verbosity = '''', bc_debug = False\<rparr>
      \<lparr>g_VERSION = 0, g_VER_STRING = '''', g_DEBUG = False, g_exDEBUG = False\<rparr> = Inr (c', g')"
    by (simp add: parse_def Let_def)
  then obtain c' g' where e: "parse False (\<lambda>_. (''client.d5c'', True)) ''-beta''
      \<lparr>bc_config = '''', bc_isServ = False, bc_csc = False, bc_icc = True, bc_verbosity = '''', bc_debug = False\<rparr>
      \<lparr>g_VERSION = 0, g_VER_STRING = '''', g_DEBUG = False, g_exDEBUG = False\<rparr> = Inr (c', g')"
    by blast
  have "g_VER_STRING g' = ''deblocus version: 0.9.2230'' @ ''-beta'' @ ''\<newline>''"
    using conjunct2 [OF parse_publishes [of False "\<lambda>_. (''client.d5c'', True)" "''-beta''"
      "\<lparr>bc_config = '''', bc_isServ = False, bc_csc = False, bc_icc = True, bc_verbosity = '''', bc_debug = False\<rparr>"
      "\<lparr>g_VERSION = 0, g_VER_STRING = '''', g_DEBUG = False, g_exDEBUG = False\<rparr>"]] e
    by blast
  then show "\<exists>c' g'. parse False (\<lambda>_. (''client.d5c'', True)) ''-beta''
      \<lparr>bc_config = '''', bc_isServ = False, bc_csc = False, bc_icc = True, bc_verbosity = '''', bc_debug = False\<rparr>
      \<lparr>g_VERSION = 0, g_VER_STRING = '''', g_DEBUG = False, g_exDEBUG = False\<rparr> = Inr (c', g')
      \<and> g_VER_STRING g' = ''deblocus version: 0.9.2230'' @ ''-beta'' @ ''\<newline>''"
    using e by blast
qed

theorem csc_process_creates_witness:
  "csc_process (\<lambda>_. (True, '''')) (\<lambda>_. Inr ()) (\<lambda>_ _ _. None) ''server.d5s'' [''0.0.0.0:9008'', ''alice'', ''bob''] ''out''
     = ([''alice'', ''bob''], [])
   \<and> csc_process (\<lambda>_. (True, '''')) (\<lambda>_. Inr ()) (\<lambda>_ _ _. None) ''server.d5s'' [''0.0.0.0:9008''] ''out''
     = ([], [''Which user do you issue client credential for?''])"
  using csc_process_creates [of "\<lambda>_. (True, '''')" "''0.0.0.0:9008''" "''''" "\<lambda>_. Inr ()" "''server.d5s''" "()"
      "[''alice'', ''bob'']" "\<lambda>_ _ _. None" "''out''"]
  by simp

end
