(* ===== verification/HttpProxy.thy ===== *)
theory HttpProxy
  imports Queue Boot
begin

text \<open>
  The HTTP branch of the local front end, \<open>httpProxyHandshake\<close> of \<open>src/tunnel/d5.go\<close>.
  The request parser, the request writer and \<open>net.SplitHostPort\<close> belong to Go's
  \<open>net/http\<close> and \<open>net\<close> packages and are parameters (\<open>http_lib\<close>); what the handshake
  does with their results is modelled: the \<open>CONNECT\<close> reply, the removal of the
  \<open>Proxy*\<close> headers from a plain request and its push-back into the stream, the default
  port and the panics.  The connection is a \<open>hconn\<close>: \<open>Unread\<close> puts a chunk in front of
  the pending input, \<open>WriteString\<close> appends to the written bytes.  \<open>VER_STRING\<close> is the
  text \<open>bootContext.parse\<close> stores, \<open>versionString ()\<close>.
\<close>

definition REQ_PROT_HTTP_T :: nat where "REQ_PROT_HTTP_T = 4"
definition CRLF :: string where "CRLF = [CHR 0x0D, CHR 0x0A]"
definition HTTP_PROXY_VER_LINE :: string where
  "HTTP_PROXY_VER_LINE = ''HTTP/1.1 200 Connection established''"
definition HTTP_PROXY_AGENT :: string where "HTTP_PROXY_AGENT = ''Proxy-Agent: deblocus''"

lemmas http_consts = REQ_PROT_HTTP_T_def CRLF_def HTTP_PROXY_VER_LINE_def HTTP_PROXY_AGENT_def

text \<open>The fields of \<open>http.Request\<close> the handshake reads; the header is a map from
  canonical keys to values, as an association list.\<close>

record http_request =
  rq_method :: string
  rq_host :: string
  rq_header :: "(string \<times> string list) list"

record http_lib =
  hl_ReadRequest :: "bytes list \<Rightarrow> string + http_request \<times> bytes list"
  hl_Write :: "http_request \<Rightarrow> bytes"
  hl_SplitHostPort :: "string \<Rightarrow> string option"

definition WriteString :: "string \<Rightarrow> hconn \<Rightarrow> hconn" where
  "WriteString s conn = conn_write (string_bytes s) conn"

definition Unread :: "bytes \<Rightarrow> hconn \<Rightarrow> hconn" where
  "Unread b conn = conn\<lparr>hc_in := b # hc_in conn\<rparr>"

text \<open>The loop over \<open>req.Header\<close> that deletes every key beginning with \<open>Proxy\<close>.\<close>

definition drop_proxy_headers :: "(string \<times> string list) list \<Rightarrow> (string \<times> string list) list" where
  "drop_proxy_headers hs = filter (\<lambda>(k, _). \<not> HasPrefix k ''Proxy'') hs"

text \<open>The two branches on the method: the reply to \<open>CONNECT\<close>, or the rewritten request
  pushed back into the stream.\<close>

definition http_branch :: "http_lib \<Rightarrow> string \<Rightarrow> http_request \<Rightarrow> hconn \<Rightarrow> (nat \<times> string) \<times> hconn" where
  "http_branch lib VER_STRING req conn =
     (if rq_method req = ''CONNECT'' then
        ((REQ_PROT_HTTP_T, rq_host req),
         WriteString (CRLF @ CRLF)
          (WriteString (HTTP_PROXY_AGENT @ ''/'' @ VER_STRING)
            (WriteString CRLF (WriteString HTTP_PROXY_VER_LINE conn))))
      else
        ((REQ_PROT_HTTP, rq_host req),
         Unread (hl_Write lib (req\<lparr>rq_header := drop_proxy_headers (rq_header req)\<rparr>)) conn))"

text \<open>A panic leaves the connection as the handshake had changed it: the result pairs
  the outcome with the connection.\<close>

definition httpProxyHandshake ::
  "http_lib \<Rightarrow> string \<Rightarrow> hconn \<Rightarrow> (panic_val + nat \<times> string) \<times> hconn" where
  "httpProxyHandshake lib VER_STRING conn =
     (case hl_ReadRequest lib (hc_in conn) of
        Inl err \<Rightarrow> (Inl (PErr err), conn)
      | Inr (req, rest) \<Rightarrow>
          (case http_branch lib VER_STRING req (conn\<lparr>hc_in := rest\<rparr>) of
             ((req_prot, target), conn') \<Rightarrow>
               if target = NULL then (Inl (PStr ''missing host in address''), conn')
               else (case hl_SplitHostPort lib target of
                       None \<Rightarrow> (Inr (req_prot, target), conn')
                     | Some err \<Rightarrow>
                         if Contains err ''port'' \<and> rq_method req \<noteq> ''CONNECT''
                         then (Inr (req_prot, target @ '':80''), conn')
                         else (Inl (PStr err), conn'))))"

text \<open>The bytes the \<open>CONNECT\<close> branch writes, and an example library for the
  witnesses: its parser returns the given request and leaves no input.\<close>

definition connect_reply :: "string \<Rightarrow> bytes" where
  "connect_reply VER_STRING = string_bytes (HTTP_PROXY_VER_LINE @ CRLF @ HTTP_PROXY_AGENT @ ''/'' @ VER_STRING @ CRLF @ CRLF)"

definition lib_ex :: "http_request \<Rightarrow> string option \<Rightarrow> http_lib" where
  "lib_ex req sp = \<lparr>hl_ReadRequest = (\<lambda>_. Inr (req, [])), hl_Write = (\<lambda>r. string_bytes (rq_method r)),
                    hl_SplitHostPort = (\<lambda>_. sp)\<rparr>"

definition conn_ex :: hconn where
  "conn_ex = \<lparr>hc_in = [string_bytes ''CONNECT x''], hc_rlog = [], hc_wlog = []\<rparr>"

lemma WriteString_append: "WriteString t (WriteString s conn) = WriteString (s @ t) conn"
  by (simp add: WriteString_def conn_write_def string_bytes_def)

lemma http_branch_connect:
  "rq_method req = ''CONNECT'' \<Longrightarrow>
   http_branch lib v req conn = ((REQ_PROT_HTTP_T, rq_host req), conn\<lparr>hc_wlog := hc_wlog conn @ connect_reply v\<rparr>)"
  by (simp add: http_branch_def WriteString_append connect_reply_def) (simp add: WriteString_def conn_write_def)

lemma http_branch_plain:
  "rq_method req \<noteq> ''CONNECT'' \<Longrightarrow>
   http_branch lib v req conn = ((REQ_PROT_HTTP, rq_host req),
      conn\<lparr>hc_in := hl_Write lib (req\<lparr>rq_header := drop_proxy_headers (rq_header req)\<rparr>) # hc_in conn\<rparr>)"
  by (simp add: http_branch_def Unread_def)

lemma versionString_tail:
  "\<exists>pre. versionString flag @ CRLF @ CRLF = pre @ [CHR 0x0A, CHR 0x0D, CHR 0x0A, CHR 0x0D, CHR 0x0A]"
  by (simp add: versionString_def CRLF_def)

lemma connect_reply_tail:
  "drop (length (connect_reply (versionString flag)) - 5) (connect_reply (versionString flag)) = [10, 13, 10, 13, 10]"
proof -
  obtain pre where p: "versionString flag @ CRLF @ CRLF = pre @ [CHR 0x0A, CHR 0x0D, CHR 0x0A, CHR 0x0D, CHR 0x0A]"
    using versionString_tail by blast
  have "connect_reply (versionString flag)
      = string_bytes ((HTTP_PROXY_VER_LINE @ CRLF @ HTTP_PROXY_AGENT @ ''/'' @ pre) @ [CHR 0x0A, CHR 0x0D, CHR 0x0A, CHR 0x0D, CHR 0x0A])"
    by (simp only: connect_reply_def append_assoc p)
  also have "\<dots> = string_bytes (HTTP_PROXY_VER_LINE @ CRLF @ HTTP_PROXY_AGENT @ ''/'' @ pre) @ [10, 13, 10, 13, 10]"
    by (simp add: string_bytes_def)
  finally show ?thesis by simp
qed

lemma Contains_port: "Contains ''missing port in address'' ''port''"
  by (simp add: HasPrefix_def)

text \<open>C12: A \<open>CONNECT\<close> request with a host and port is answered with the
  \<open>200 Connection established\<close> line and the \<open>Proxy-Agent\<close> header carrying
  \<open>VER_STRING\<close>; as \<open>VER_STRING\<close> is \<open>versionString ()\<close>, which ends in a newline, the
  reply ends in \<open>LF CR LF CR LF\<close>: the header block closes one \<open>CRLF\<close> early and the
  browser receives two stray bytes as the start of the tunnelled stream.\<close>

lemma http_connect_reply:
  assumes "hl_ReadRequest lib (hc_in conn) = Inr (req, rest)" "rq_method req = ''CONNECT''"
    "rq_host req \<noteq> NULL" "hl_SplitHostPort lib (rq_host req) = None"
  shows "httpProxyHandshake lib (versionString flag) conn
           = (Inr (REQ_PROT_HTTP_T, rq_host req),
              conn\<lparr>hc_in := rest, hc_wlog := hc_wlog conn @ connect_reply (versionString flag)\<rparr>)
         \<and> drop (length (connect_reply (versionString flag)) - 5) (connect_reply (versionString flag))
             = [10, 13, 10, 13, 10]"
  using assms by (simp add: httpProxyHandshake_def http_branch_connect connect_reply_tail)

text \<open>C32: A plain request is pushed back into the stream rewritten without its
  \<open>Proxy*\<close> headers, nothing is written, and a host without a port gets \<open>:80\<close>; a host
  that \<open>SplitHostPort\<close> refuses for another reason panics.\<close>

lemma http_plain_request:
  assumes "hl_ReadRequest lib (hc_in conn) = Inr (req, rest)" "rq_method req \<noteq> ''CONNECT''"
    "rq_host req \<noteq> NULL"
  shows "httpProxyHandshake lib v conn
           = ((case hl_SplitHostPort lib (rq_host req) of
                 None \<Rightarrow> Inr (REQ_PROT_HTTP, rq_host req)
               | Some err \<Rightarrow> if Contains err ''port'' then Inr (REQ_PROT_HTTP, rq_host req @ '':80'')
                             else Inl (PStr err)),
              conn\<lparr>hc_in := hl_Write lib (req\<lparr>rq_header := drop_proxy_headers (rq_header req)\<rparr>) # rest\<rparr>)"
  using assms by (simp add: httpProxyHandshake_def http_branch_plain split: option.split)

text \<open>C31: A \<open>CONNECT\<close> request without a host, or with a host \<open>SplitHostPort\<close> refuses
  (a missing port included), panics only after the \<open>200 Connection established\<close> reply
  has been written: the browser is told the tunnel is up, then the connection drops.\<close>

lemma http_connect_fails_after_200:
  assumes "hl_ReadRequest lib (hc_in conn) = Inr (req, rest)" "rq_method req = ''CONNECT''"
    "rq_host req = NULL \<or> hl_SplitHostPort lib (rq_host req) \<noteq> None"
  shows "\<exists>p. httpProxyHandshake lib v conn
               = (Inl p, conn\<lparr>hc_in := rest, hc_wlog := hc_wlog conn @ connect_reply v\<rparr>)"
  using assms by (auto simp: httpProxyHandshake_def http_branch_connect split: option.split)

lemma http_connect_reply_witness:
  "fst (httpProxyHandshake (lib_ex \<lparr>rq_method = ''CONNECT'', rq_host = ''h:443'', rq_header = []\<rparr> None)
          (versionString '''') conn_ex) = Inr (REQ_PROT_HTTP_T, ''h:443'')
   \<and> drop (length (connect_reply (versionString '''')) - 5) (connect_reply (versionString ''''))
       = [10, 13, 10, 13, 10]"
  using http_connect_reply [of "lib_ex \<lparr>rq_method = ''CONNECT'', rq_host = ''h:443'', rq_header = []\<rparr> None"
      conn_ex "\<lparr>rq_method = ''CONNECT'', rq_host = ''h:443'', rq_header = []\<rparr>" "[]" "''''"]
  by (simp add: lib_ex_def NULL_def)

lemma http_plain_request_witness:
  "httpProxyHandshake (lib_ex \<lparr>rq_method = ''GET'', rq_host = ''h'', rq_header = [(''Proxy-Connection'', [''x''])]\<rparr>
       (Some ''missing port in address'')) '''' conn_ex
   = (Inr (REQ_PROT_HTTP, ''h:80''), conn_ex\<lparr>hc_in := [string_bytes ''GET'']\<rparr>)"
  using http_plain_request [of "lib_ex \<lparr>rq_method = ''GET'', rq_host = ''h'', rq_header = [(''Proxy-Connection'', [''x''])]\<rparr>
       (Some ''missing port in address'')" conn_ex "\<lparr>rq_method = ''GET'', rq_host = ''h'', rq_header = [(''Proxy-Connection'', [''x''])]\<rparr>" "[]" "''''"]
  by (simp add: lib_ex_def NULL_def Contains_port del: Contains.simps)

lemma http_connect_fails_after_200_witness:
  "\<exists>p. httpProxyHandshake (lib_ex \<lparr>rq_method = ''CONNECT'', rq_host = ''h'', rq_header = []\<rparr>
         (Some ''missing port in address'')) '''' conn_ex
       = (Inl p, conn_ex\<lparr>hc_in := [], hc_wlog := connect_reply ''''\<rparr>)"
  using http_connect_fails_after_200 [of "lib_ex \<lparr>rq_method = ''CONNECT'', rq_host = ''h'', rq_header = []\<rparr>
         (Some ''missing port in address'')" conn_ex "\<lparr>rq_method = ''CONNECT'', rq_host = ''h'', rq_header = []\<rparr>" "[]" "''''"]
  by (simp add: lib_ex_def conn_ex_def)

end
