(* ===== verification/Usage.thy ===== *)
theory Usage
  imports Boot "HOL-Library.AList"
begin

text \<open>
  \<open>showUsage\<close> of \<open>src/version.go\<close>: the help text built from the flag set.  A flag is
  its name, default value and usage string (\<open>flag.Flag\<close>, outside \<open>src/\<close>; \<open>VisitAll\<close>
  visits the flags in name order, given here as a list).  Each flag becomes a \<open>CArg\<close>
  whose group is the text before \<open>;;\<close> in the usage, and whose example is the text after
  \<open>//\<close>.  The regular expression \<open>(?i)true|false\<close> is unanchored: \<open>MatchString\<close> holds
  when the value contains \<open>true\<close> or \<open>false\<close> anywhere, in any case; the model folds
  ASCII letters only (Go also folds the long s U+017F to \<open>s\<close>, which a byte string
  cannot hold as one letter).  The groups are printed in the iteration order of a Go
  map, which is unspecified: it is a parameter, a permutation of the group names.
\<close>

record flag_info =
  fl_Name :: string
  fl_DefValue :: string
  fl_Usage :: string

record CArg =
  ca_literal :: string
  ca_usage :: string
  ca_example :: string

definition ascii_lower :: "char \<Rightarrow> char" where
  "ascii_lower c = (let n = (of_char c :: nat) in if 65 \<le> n \<and> n \<le> 90 then char_of (n + 32) else c)"

definition reBool_match :: "string \<Rightarrow> bool" where
  "reBool_match s \<longleftrightarrow> Contains (map ascii_lower s) ''true'' \<or> Contains (map ascii_lower s) ''false''"

text \<open>The body of the \<open>VisitAll\<close> callback for one flag: its group and its \<open>CArg\<close>.\<close>

definition mk_carg :: "flag_info \<Rightarrow> string \<times> CArg" where
  "mk_carg f =
     (let literal = (if 0 < length (fl_DefValue f) \<and> \<not> reBool_match (fl_DefValue f)
                     then ''-'' @ fl_Name f @ ''='' @ fl_DefValue f
                     else ''-'' @ fl_Name f);
          array0 = SplitN2 (fl_Usage f) '';;'';
          array = (if length array0 \<noteq> 2 then [''Common'', fl_Usage f] else array0);
          cArg = \<lparr>ca_literal = literal, ca_usage = array ! 1, ca_example = ''''\<rparr>
      in (array ! 0,
          if Contains (array ! 1) ''//'' then
            (let ue = SplitN2 (array ! 1) ''//'' in cArg\<lparr>ca_usage := ue ! 0, ca_example := ue ! 1\<rparr>)
          else cArg))"

text \<open>\<open>group[array[0]] = append(group[array[0]], cArg)\<close> over all flags.\<close>

definition group_add :: "flag_info \<Rightarrow> (string \<times> CArg list) list \<Rightarrow> (string \<times> CArg list) list" where
  "group_add f g =
     (case mk_carg f of (k, c) \<Rightarrow> AList.update k (case map_of g k of None \<Rightarrow> [c] | Some cs \<Rightarrow> cs @ [c]) g)"

definition group_args :: "flag_info list \<Rightarrow> (string \<times> CArg list) list" where
  "group_args fs = fold group_add fs []"

text \<open>\<open>%-12s\<close>: left-justified in a field of twelve.\<close>

definition pad12 :: "string \<Rightarrow> string" where
  "pad12 s = s @ replicate (12 - length s) (CHR '' '')"

definition usage_line :: "CArg \<Rightarrow> string" where
  "usage_line i =
     ''  '' @ pad12 (ca_literal i) @ '' '' @ ca_usage i @ ''\<newline>''
     @ (if ca_example i \<noteq> '''' then ''  '' @ pad12 '' '' @ '' '' @ ca_example i @ ''\<newline>'' else '''')"

definition print_group :: "string \<Rightarrow> CArg list \<Rightarrow> string" where
  "print_group k a = k @ '' options:\<newline>'' @ concat (map usage_line a)"

definition project_url :: string where "project_url = ''https://github.com/spance/delocus''"

definition showUsage :: "string \<Rightarrow> string \<Rightarrow> flag_info list \<Rightarrow> string list \<Rightarrow> string" where
  "showUsage prog build_flag fs order =
     ''Usage: '' @ prog @ '' [-OPTION=VALUE]...\<newline>''
     @ app_name @ '' project: <'' @ project_url @ ''>\<newline>''
     @ versionString build_flag @ ''\<newline>''
     @ concat (map (\<lambda>k. print_group k (the (map_of (group_args fs) k))) order)"

lemma ascii_lower_bool_words: "map ascii_lower ''true'' = ''true''" "map ascii_lower ''false'' = ''false''"
  by (simp_all add: ascii_lower_def)

lemma reBool_match_mid:
  "w \<in> {''true'', ''false''} \<Longrightarrow> reBool_match (a @ w @ b)"
proof -
  assume w: "w \<in> {''true'', ''false''}"
  then have "map ascii_lower w = w" using ascii_lower_bool_words by auto
  then have "Contains (map ascii_lower (a @ w @ b)) w" using Contains_mid by (metis map_append)
  then show ?thesis using w by (auto simp: reBool_match_def)
qed

lemma mk_carg_split:
  assumes "\<not> Contains (g @ '';'') '';;''" "\<not> Contains (u @ ''/'') ''//''"
    and that: "fl_Usage f = g @ '';;'' @ u @ ''//'' @ e"
  shows "mk_carg f = (g, \<lparr>ca_literal = ca_literal (snd (mk_carg f)), ca_usage = u, ca_example = e\<rparr>)"
proof -
  have s1: "SplitN2 (fl_Usage f) '';;'' = [g, u @ ''//'' @ e]"
    using that SplitN2_first [of g "'';;''"] assms(1) by simp
  have s2: "SplitN2 (u @ ''//'' @ e) ''//'' = [u, e]"
    using SplitN2_first [of u "''//''"] assms(2) by simp
  show ?thesis using s1 s2 Contains_mid [of u "''//''" e] by (simp add: mk_carg_def Let_def)
qed

lemma mk_carg_common:
  assumes "\<not> Contains (fl_Usage f) '';;''" "\<not> Contains (fl_Usage f) ''//''"
  shows "mk_carg f = (''Common'', \<lparr>ca_literal = ca_literal (snd (mk_carg f)), ca_usage = fl_Usage f, ca_example = ''''\<rparr>)"
  using assms SplitN2_none [OF assms(1)] by (simp add: mk_carg_def Let_def)


lemma concat_map_mid: "x \<in> set xs \<Longrightarrow> \<exists>p q. concat (map F xs) = p @ F x @ q"
proof -
  assume "x \<in> set xs"
  then obtain ys zs where "xs = ys @ x # zs" by (auto dest: split_list)
  then show ?thesis by (intro exI [of _ "concat (map F ys)"] exI [of _ "concat (map F zs)"]) simp
qed

lemma group_add_keeps:
  "map_of g k = Some cs \<Longrightarrow> c \<in> set cs \<Longrightarrow> \<exists>cs'. map_of (group_add f g) k = Some cs' \<and> c \<in> set cs'"
  by (auto simp: group_add_def update_conv' split: prod.split option.split)

lemma group_add_adds:
  "mk_carg f = (k, c) \<Longrightarrow> \<exists>cs'. map_of (group_add f g) k = Some cs' \<and> c \<in> set cs'"
  by (auto simp: group_add_def update_conv' split: option.split)

lemma fold_group_add_mem:
  "(\<exists>cs. map_of g k = Some cs \<and> c \<in> set cs) \<or> (\<exists>f \<in> set fs. mk_carg f = (k, c))
   \<Longrightarrow> \<exists>cs. map_of (fold group_add fs g) k = Some cs \<and> c \<in> set cs"
proof (induction fs arbitrary: g)
  case (Cons f fs)
  have "(\<exists>cs. map_of (group_add f g) k = Some cs \<and> c \<in> set cs) \<or> (\<exists>f' \<in> set fs. mk_carg f' = (k, c))"
    using Cons.prems group_add_keeps group_add_adds by fastforce
  then show ?case using Cons.IH by simp
qed simp

lemma group_args_mem:
  "f \<in> set fs \<Longrightarrow> \<exists>cs. map_of (group_args fs) (fst (mk_carg f)) = Some cs \<and> snd (mk_carg f) \<in> set cs"
  unfolding group_args_def by (rule fold_group_add_mem) auto


text \<open>C38: The usage text of a flag is read back as written: from \<open>g;;u//e\<close>, with no
  \<open>;;\<close> starting in \<open>g\<close> and no \<open>//\<close> starting in \<open>u\<close>, the flag is listed in group
  \<open>g\<close> with usage \<open>u\<close> and example \<open>e\<close>.\<close>

theorem mk_carg_usage_roundtrip:
  assumes "\<not> Contains (g @ '';'') '';;''" "\<not> Contains (u @ ''/'') ''//''"
  shows "fst (mk_carg \<lparr>fl_Name = n, fl_DefValue = d, fl_Usage = g @ '';;'' @ u @ ''//'' @ e\<rparr>) = g
       \<and> ca_usage (snd (mk_carg \<lparr>fl_Name = n, fl_DefValue = d, fl_Usage = g @ '';;'' @ u @ ''//'' @ e\<rparr>)) = u
       \<and> ca_example (snd (mk_carg \<lparr>fl_Name = n, fl_DefValue = d, fl_Usage = g @ '';;'' @ u @ ''//'' @ e\<rparr>)) = e"
  using mk_carg_split [OF assms, of "\<lparr>fl_Name = n, fl_DefValue = d, fl_Usage = g @ '';;'' @ u @ ''//'' @ e\<rparr>" e]
  by (metis CArg.select_convs(2,3) flag_info.select_convs(3) fst_conv snd_conv)

text \<open>C39: The printed help lists every flag of the set: its line, the padded literal and
  its usage, appears in \<open>showUsage\<close>'s output whatever the order the groups are
  visited in, as long as that order names every group.\<close>

theorem showUsage_lists_flag:
  assumes "f \<in> set fs" "set order = fst ` set (group_args fs)"
  shows "\<exists>pre post. showUsage prog build_flag fs order
           = pre @ usage_line (snd (mk_carg f)) @ post"
proof -
  obtain cs where m: "map_of (group_args fs) (fst (mk_carg f)) = Some cs" and c: "snd (mk_carg f) \<in> set cs"
    using group_args_mem [OF assms(1)] by blast
  have "fst (mk_carg f) \<in> set order" using assms(2) map_of_SomeD [OF m] by force
  then obtain p2 q2 where o: "concat (map (\<lambda>k. print_group k (the (map_of (group_args fs) k))) order)
      = p2 @ print_group (fst (mk_carg f)) (the (map_of (group_args fs) (fst (mk_carg f)))) @ q2"
    using concat_map_mid by metis
  obtain p1 q1 where l: "concat (map usage_line cs) = p1 @ usage_line (snd (mk_carg f)) @ q1"
    using concat_map_mid [OF c] by metis
  have o': "concat (map (\<lambda>k. print_group k (the (map_of (group_args fs) k))) order)
      = p2 @ print_group (fst (mk_carg f)) cs @ q2"
    using o m by simp
  have pg: "print_group (fst (mk_carg f)) cs
      = (fst (mk_carg f) @ '' options:\<newline>'' @ p1) @ usage_line (snd (mk_carg f)) @ q1"
    by (simp add: print_group_def l)
  define hd where "hd = ''Usage: '' @ prog @ '' [-OPTION=VALUE]...\<newline>''
     @ app_name @ '' project: <'' @ project_url @ ''>\<newline>''
     @ versionString build_flag @ ''\<newline>''"
  have "showUsage prog build_flag fs order
      = hd @ concat (map (\<lambda>k. print_group k (the (map_of (group_args fs) k))) order)"
    by (simp add: showUsage_def hd_def)
  then show ?thesis
    by (intro exI [of _ "hd @ p2 @ fst (mk_carg f) @ '' options:\<newline>'' @ p1"] exI [of _ "q1 @ q2"])
      (simp add: o' pg)
qed

text \<open>C40: The default value of a flag is hidden from its literal whenever it contains
  \<open>true\<close> or \<open>false\<close> anywhere, because the pattern \<open>(?i)true|false\<close> is not anchored:
  a path such as \<open>/etc/falsepos\<close> is shown as a bare \<open>-name\<close>.\<close>

theorem mk_carg_hides_bool_default:
  "w \<in> {''true'', ''false''} \<Longrightarrow>
   ca_literal (snd (mk_carg (f\<lparr>fl_DefValue := a @ w @ b\<rparr>))) = ''-'' @ fl_Name f"
  using reBool_match_mid [of w a b] by (simp add: mk_carg_def Let_def)

theorem mk_carg_usage_roundtrip_witness:
  "fst (mk_carg \<lparr>fl_Name = ''c'', fl_DefValue = '''', fl_Usage = ''Server'' @ '';;'' @ ''config file'' @ ''//'' @ ''-c=x''\<rparr>) = ''Server''
   \<and> ca_usage (snd (mk_carg \<lparr>fl_Name = ''c'', fl_DefValue = '''', fl_Usage = ''Server'' @ '';;'' @ ''config file'' @ ''//'' @ ''-c=x''\<rparr>)) = ''config file''
   \<and> ca_example (snd (mk_carg \<lparr>fl_Name = ''c'', fl_DefValue = '''', fl_Usage = ''Server'' @ '';;'' @ ''config file'' @ ''//'' @ ''-c=x''\<rparr>)) = ''-c=x''"
proof -
  have "\<not> Contains (''Server'' @ '';'') '';;''" "\<not> Contains (''config file'' @ ''/'') ''//''"
    by (simp_all add: HasPrefix_def)
  then show ?thesis using mk_carg_usage_roundtrip [of "''Server''" "''config file''" "''c''" "''''" "''-c=x''"] by blast
qed

theorem showUsage_lists_flag_witness:
  "\<exists>pre post. showUsage ''deblocus'' '''' [\<lparr>fl_Name = ''v'', fl_DefValue = ''3'', fl_Usage = ''verbosity''\<rparr>] [''Common'']
     = pre @ ''  -v=3         verbosity\<newline>'' @ post"
proof -
  have m: "mk_carg \<lparr>fl_Name = ''v'', fl_DefValue = ''3'', fl_Usage = ''verbosity''\<rparr>
      = (''Common'', \<lparr>ca_literal = ''-v=3'', ca_usage = ''verbosity'', ca_example = ''''\<rparr>)"
    by code_simp
  have "set [''Common''] = fst ` set (group_args [\<lparr>fl_Name = ''v'', fl_DefValue = ''3'', fl_Usage = ''verbosity''\<rparr>])"
    by (simp add: group_args_def group_add_def m)
  then show ?thesis
    using showUsage_lists_flag [of "\<lparr>fl_Name = ''v'', fl_DefValue = ''3'', fl_Usage = ''verbosity''\<rparr>"
      "[\<lparr>fl_Name = ''v'', fl_DefValue = ''3'', fl_Usage = ''verbosity''\<rparr>]" "[''Common'']" "''deblocus''" "''''"] m
    by (simp add: usage_line_def pad12_def numeral_eq_Suc)
qed

theorem mk_carg_hides_bool_default_witness:
  "''false'' \<in> {''true'', ''false''}
   \<and> ca_literal (snd (mk_carg \<lparr>fl_Name = ''c'', fl_DefValue = ''/etc/'' @ ''false'' @ ''pos'', fl_Usage = ''config''\<rparr>)) = ''-c''"
  using mk_carg_hides_bool_default [where w = "''false''" and f = "\<lparr>fl_Name = ''c'', fl_DefValue = ''x'', fl_Usage = ''config''\<rparr>"
    and a = "''/etc/''" and b = "''pos''"]
  by simp

end
