(* ===== verification/Handshake.thy ===== *)
theory Handshake
  imports ClientNego
begin

text \<open>
  The two sides of the handshake of \<open>src/tunnel/d5.go\<close> run against each other: the
  client's \<open>d5CNegotiation.negotiate\<close> and the server's \<open>d5SNegotiation.negotiate\<close>,
  each reading, one segment per write, what the other wrote.
\<close>

subsection \<open>Reads of whole segments\<close>

lemma ReadFullByLen_whole:
  assumes "length b < 65536" "hc_in h = (be16_put (of_nat (length b)) @ b) # cs"
  shows "ReadFullByLen 2 h = (b, None, h\<lparr>hc_in := cs, hc_rlog := hc_rlog h @ be16_put (of_nat (length b)) @ b\<rparr>)"
proof -
  have l2: "length (be16_put (of_nat (length b) :: 16 word)) = 2" by (simp add: be16_put_def)
  have lf: "len_field 2 (pad_to 2 (be16_put (of_nat (length b)))) = length b"
    using assms(1) by (rule len_field_be16)
  show ?thesis
  proof (cases b)
    case Nil
    have "conn_read 2 h = (be16_put (of_nat (length b)), None,
        h\<lparr>hc_in := cs, hc_rlog := hc_rlog h @ be16_put (of_nat (length b))\<rparr>)"
      using conn_read_whole_chunk [of h "be16_put (of_nat (length b))" cs 2] assms(2) l2 Nil
      by (auto simp: be16_put_def)
    then show ?thesis using lf Nil by (simp add: ReadFullByLen_def read_full_def)
  next
    case (Cons x xs)
    have r: "conn_read 2 h = (be16_put (of_nat (length b)), None,
        h\<lparr>hc_in := b # cs, hc_rlog := hc_rlog h @ be16_put (of_nat (length b))\<rparr>)"
      using conn_read_long_chunk [OF assms(2), of 2] l2 Cons by simp
    have f: "chunks_full (length b) (b # cs) = (b, None, cs)" using Cons by simp
    show ?thesis using r f lf by (simp add: ReadFullByLen_def read_full_def Let_def)
  qed
qed

subsection \<open>The server's run on a client's request\<close>

text \<open>The server reads a 384-byte request with valid markers followed, in the same segment,
  by the client's DH key, and then the client's hash as one segment: it verifies the
  identity, answers with its DH key, the parameter block and the tokens, and checks the
  hash.\<close>

lemma negotiate_run:
  assumes sin: "hc_in (sv_conn sst) = [obf @ blk @ be16_put (of_nat (length pubC)) @ pubC, hc]"
      and obf: "length obf = 256" "d5SumValid (obf ! 0xd5) (obf ! 0xff)" and blk: "length blk = 128"
      and pc: "length pubC < 65536"
      and dec: "se_rsa_decrypt senv blk = Some uid" and auth: "se_authenticate senv uid = (True, ex)"
      and cf: "NewCipherFactory (se_md5 senv) (se_algo senv) (se_shared_key senv pubC) = Some cf"
      and ns: "NewSession (bytes_to_string uid) (cf_key cf) (sv_mgr sst) = (s, m)"
      and ra: "randArray (TUN_PARAMS_LEN + 2) (sv_rng sst) = (rnd, g1)"
      and ct: "createTokens s (se_token_num senv) g1 m = (tokens, g2, m2)"
      and hc: "hc \<noteq> []" "length hc \<le> TKSZ"
  shows "negotiate senv sst =
    (let W = hc_wlog (sv_conn sst) @ se_dh_pubLen senv @ se_dh_pub senv @ tun_params_head senv rnd @ tokens;
         R = hc_rlog (sv_conn sst) @ obf @ blk @ be16_put (of_nat (length pubC)) @ pubC;
         ok = (se_sha1 senv W = pad_to TKSZ hc) in
     (NegoRet (Some s) (if ok then None else Some INCONSISTENT_HASH),
      sst\<lparr>sv_conn := (sv_conn sst)\<lparr>hc_in := [], hc_rlog := R @ hc,
                                       hc_wlog := W @ (if ok then se_sha1 senv R else [])\<rparr>,
          sv_cipher := NewCipher cf None, sv_mgr := m2, sv_rng := g2,
          sv_identity := bytes_to_string uid\<rparr>))"
proof -
  let ?L = "be16_put (of_nat (length pubC)) :: bytes"
  let ?c1 = "(sv_conn sst)\<lparr>hc_in := [?L @ pubC, hc], hc_rlog := hc_rlog (sv_conn sst) @ obf @ blk\<rparr>"
  let ?c2 = "(sv_conn sst)\<lparr>hc_in := [hc], hc_rlog := hc_rlog (sv_conn sst) @ obf @ blk @ ?L @ pubC\<rparr>"
  have r1: "conn_read DMLEN1 (sv_conn sst) = (obf @ blk, None, ?c1)"
    using conn_read_long_chunk [OF sin, of DMLEN1] obf(1) blk by (simp add: wire_consts be16_put_def)
  have mk: "d5SumValid ((obf @ blk) ! 0xd5) ((obf @ blk) ! 0xff)" using obf by (simp add: nth_append)
  have n1: "negotiate senv sst = negotiate_full senv (obf @ blk) (sst\<lparr>sv_conn := ?c1\<rparr>)"
    using r1 mk obf(1) blk by (simp add: negotiate_def Let_def wire_consts pad_to_def)
  have rf: "ReadFullByLen 2 ?c1 = (pubC, None, ?c2)"
    using ReadFullByLen_whole [OF pc, of ?c1 "[hc]"] by simp
  have v: "verifyThenDHExchange senv blk (sst\<lparr>sv_conn := ?c1\<rparr>)
      = (Inr (se_shared_key senv pubC, None),
         sv_write (se_dh_pubLen senv @ se_dh_pub senv) (sst\<lparr>sv_conn := ?c2, sv_identity := bytes_to_string uid\<rparr>))"
    using dec auth rf by (simp add: verifyThenDHExchange_def)
  have d: "drop 256 (obf @ blk) = blk" using obf(1) by simp
  have rc: "hc_in h = [hc] \<Longrightarrow> conn_read TKSZ h = (hc, None, h\<lparr>hc_in := [], hc_rlog := hc_rlog h @ hc\<rparr>)"
    for h using conn_read_whole_chunk [of h hc "[]" TKSZ] hc by simp
  show ?thesis
    using n1 v d cf ns ra ct rc
    by (simp add: negotiate_full_def respondTestWithToken_def sv_write_def conn_write_def Let_def)
qed

subsection \<open>The client's run on a server's answers\<close>

text \<open>The client sends its request, reads the server's DH key, the parameter block and the
  server's hash, each one segment, sends its own hash and checks the server's.\<close>

lemma client_negotiate_run:
  assumes cin: "hc_in (cc_conn cst) = [be16_put (of_nat (length P)) @ P, be16_put (of_nat (length b)) @ b, hs]"
      and P: "length P < 65536" "length P \<noteq> 1"
      and cf: "NewCipherFactory (ce_md5 cenv) (ce_algo cenv) (ce_shared_key cenv P) = Some cf"
      and b: "length b < 65536" "TUN_PARAMS_LEN \<le> length b"
      and ver: "version_check (ce_version cenv) (the (be32_get b)) = None"
      and hs: "hs \<noteq> []" "length hs \<le> TKSZ"
  shows "client_negotiate cenv cst =
    (let st1 = requestAuthAndDHExchange cenv cst;
         R = hc_rlog (cc_conn cst) @ be16_put (of_nat (length P)) @ P @ be16_put (of_nat (length b)) @ b;
         W = hc_wlog (cc_conn st1);
         t = tunParams0\<lparr>tp_cipherFactory := Some cf, tp_stInterval := unat (the (be16_get (drop 4 b))),
                        tp_dtInterval := unat (the (be16_get (drop 6 b))), tp_tunQty := unat (b ! 8),
                        tp_token := drop TUN_PARAMS_LEN b\<rparr> in
     (if ce_sha1 cenv W = pad_to TKSZ hs then Inr t else Inl (PExc INCONSISTENT_HASH),
      st1\<lparr>cc_conn := (cc_conn st1)\<lparr>hc_in := [], hc_rlog := R @ hs, hc_wlog := W @ ce_sha1 cenv R\<rparr>,
          cc_cipher := NewCipher cf None\<rparr>))"
proof -
  let ?st1 = "requestAuthAndDHExchange cenv cst"
  let ?LP = "be16_put (of_nat (length P)) :: bytes"
  let ?Lb = "be16_put (of_nat (length b)) :: bytes"
  have in1: "hc_in (cc_conn ?st1) = [?LP @ P, ?Lb @ b, hs]" "hc_rlog (cc_conn ?st1) = hc_rlog (cc_conn cst)"
    using cin by (simp_all add: requestAuthAndDHExchange_def conn_write_def split: prod.splits)
  have lP: "length P = 1 \<longleftrightarrow> False" using P(2) by simp
  have f: "finishDHExThenSetupCipher cenv ?st1 tunParams0
      = (Inr None, ?st1\<lparr>cc_conn := (cc_conn ?st1)\<lparr>hc_in := [?Lb @ b, hs], hc_rlog := hc_rlog (cc_conn ?st1) @ ?LP @ P\<rparr>\<rparr>,
         tunParams0\<lparr>tp_cipherFactory := Some cf\<rparr>)"
    using ReadFullByLen_whole [OF P(1) in1(1)] cf lP by (simp add: finishDHExThenSetupCipher_def)
  have rc: "hc_in h = [hs] \<Longrightarrow> conn_read TKSZ h = (hs, None, h\<lparr>hc_in := [], hc_rlog := hc_rlog h @ hs\<rparr>)"
    for h using conn_read_whole_chunk [of h hs "[]" TKSZ] hs by simp
  have b4: "\<not> length b < 4" "\<not> length b < TUN_PARAMS_LEN" using b(2) by (simp_all add: wire_consts)
  show ?thesis
    using f ReadFullByLen_whole [OF b(1), of "(cc_conn ?st1)\<lparr>hc_in := [?Lb @ b, hs], hc_rlog := hc_rlog (cc_conn ?st1) @ ?LP @ P\<rparr>" "[hs]"]
      ver b4 rc in1(2)
    by (simp add: client_negotiate_def validateAndGetTokens_def conn_write_def Let_def)
qed

subsection \<open>Failures before the handshake\<close>

text \<open>A failed dial throws \<open>D5SER_UNREACHABLE\<close>, which \<open>CatchException\<close> logs as an
  error line, never with a stack; a failed \<open>SetDeadline\<close> throws its error on either
  side before a byte is exchanged.\<close>

lemma negotiate_prologue_errors:
  "d5c_negotiate None dl cenv cst = (Inl (PExc D5SER_UNREACHABLE), cst)
   \<and> CatchException debug (PExc D5SER_UNREACHABLE) = (LogErrorln ''D5Server is unreachable'', True)
   \<and> d5c_negotiate (Some cs) (Some msg) cenv cst = (Inl (PErr msg), cst)
   \<and> s_negotiate (Some msg) senv sst = (NegoPanic (PErr msg), sst)"
  by (simp add: d5c_negotiate_def s_negotiate_def ThrowIf_def setSoTimeout_def CatchException_def
      D5SER_UNREACHABLE_def NewW_def)

subsection \<open>Agreement\<close>

text \<open>C13: the handshake succeeds end to end.  When the client reaches the server and both
  set their deadlines, the client's RSA block decrypts on the server to an identity the
  backend accepts, both sides derive the same DH secret, use the
  same algorithm, digest functions and compatible versions, and each side receives what
  the other writes (one segment per message), then the server returns a session and no
  error, the client returns the server's parameters and tokens, both install the same
  cipher, and every token the client holds names that session on the server.\<close>

theorem handshake_agreement:
  assumes fresh: "hc_rlog (sv_conn sst) = []" "hc_wlog (sv_conn sst) = []"
      and rsa: "ce_rsa_encrypt cenv (string_bytes (ce_user cenv @ [CHR 0x00] @ ce_pass cenv)) = Some blk"
               "length blk = 128" "se_rsa_decrypt senv blk = Some uid"
      and auth: "se_authenticate senv uid = (True, ex)"
      and dh: "ce_dhKeys cenv = GenerateDHKeyPairs pubC" "length pubC < 65536"
              "se_dh_pubLen senv = be16_put (of_nat (length (se_dh_pub senv)))"
              "length (se_dh_pub senv) < 65536" "length (se_dh_pub senv) \<noteq> 1"
      and key: "ce_shared_key cenv (se_dh_pub senv) = se_shared_key senv pubC"
      and same: "ce_md5 cenv = se_md5 senv" "ce_algo cenv = se_algo senv" "ce_sha1 cenv = se_sha1 senv"
      and cf: "NewCipherFactory (se_md5 senv) (se_algo senv) (se_shared_key senv pubC) = Some cf"
      and sha: "\<forall>x. length (se_sha1 senv x) = TKSZ"
      and ver: "version_check (ce_version cenv) (se_version senv) = None"
      and lim: "TUN_PARAMS_LEN + se_token_num senv * TKSZ < 65536" "se_ctl_ping senv < 65536"
               "se_dt_ping senv < 65536"
  shows "\<exists>s tokens.
    let M1 = hc_wlog (cc_conn (requestAuthAndDHExchange cenv (cst\<lparr>cc_conn := NewConnWithHash []\<rparr>)));
        M2 = se_dh_pubLen senv @ se_dh_pub senv;
        M3 = tun_params_head senv (fst (randArray (TUN_PARAMS_LEN + 2) (sv_rng sst))) @ tokens;
        Hc = ce_sha1 cenv (M2 @ M3);
        Hs = se_sha1 senv M1;
        srv = s_negotiate None senv (sst\<lparr>sv_conn := (sv_conn sst)\<lparr>hc_in := [M1, Hc]\<rparr>\<rparr>);
        cli = d5c_negotiate (Some [M2, M3, Hs]) None cenv cst in
    fst srv = NegoRet (Some s) None \<and> hc_wlog (sv_conn (snd srv)) = M2 @ M3 @ Hs
    \<and> fst cli = Inr (tunParams0\<lparr>tp_cipherFactory := Some cf, tp_stInterval := se_ctl_ping senv,
                     tp_dtInterval := se_dt_ping senv, tp_tunQty := unat (se_tun_qty senv), tp_token := tokens\<rparr>)
    \<and> hc_wlog (cc_conn (snd cli)) = M1 @ Hc
    \<and> cc_cipher (snd cli) = sv_cipher (snd srv) \<and> cc_cipher (snd cli) = NewCipher cf None
    \<and> length tokens = se_token_num senv * TKSZ
    \<and> (\<forall>i < se_token_num senv. sm_tokens (sv_mgr (snd srv)) (take TKSZ (drop (i * TKSZ) tokens)) = Some s)"
proof -
  obtain s m where ns: "NewSession (bytes_to_string uid) (cf_key cf) (sv_mgr sst) = (s, m)"
    by (cases "NewSession (bytes_to_string uid) (cf_key cf) (sv_mgr sst)")
  obtain rnd g1 where ra: "randArray (TUN_PARAMS_LEN + 2) (sv_rng sst) = (rnd, g1)"
    by (cases "randArray (TUN_PARAMS_LEN + 2) (sv_rng sst)")
  obtain tokens g2 m2 where ct: "createTokens s (se_token_num senv) g1 m = (tokens, g2, m2)"
    by (cases "createTokens s (se_token_num senv) g1 m")
  have lt: "length tokens = se_token_num senv * TKSZ" using createTokens_length [OF ct] .
  have lr: "length rnd = TUN_PARAMS_LEN + 2" using randArray_length_256 [of _ "sv_rng sst"] ra
    by (metis fst_conv)
  let ?o0 = "fst (randArray 256 (cc_rng cst))"
  let ?obf = "?o0[0xff := d5Sub (?o0 ! 0xd5)]"
  let ?L = "be16_put (of_nat (length pubC)) :: bytes"
  let ?M1 = "hc_wlog (cc_conn (requestAuthAndDHExchange cenv (cst\<lparr>cc_conn := NewConnWithHash []\<rparr>)))"
  let ?M2 = "se_dh_pubLen senv @ se_dh_pub senv"
  let ?b = "tun_params_body senv rnd @ tokens"
  let ?M3 = "tun_params_head senv rnd @ tokens"
  let ?Hc = "ce_sha1 cenv (?M2 @ ?M3)"
  let ?Hs = "se_sha1 senv ?M1"
  let ?sst = "sst\<lparr>sv_conn := (sv_conn sst)\<lparr>hc_in := [?M1, ?Hc]\<rparr>\<rparr>"
  let ?cst = "cst\<lparr>cc_conn := NewConnWithHash [?M2, ?M3, ?Hs]\<rparr>"
  have m1: "?M1 = ?obf @ blk @ ?L @ pubC"
    using requestAuth_wlog [of cenv "cst\<lparr>cc_conn := NewConnWithHash []\<rparr>"] rsa(1) dh(1)
    by (simp add: GenerateDHKeyPairs_def NewConnWithHash_def)
  have m1': "hc_wlog (cc_conn (requestAuthAndDHExchange cenv ?cst)) = ?M1"
    using requestAuth_wlog [of cenv ?cst] requestAuth_wlog [of cenv "cst\<lparr>cc_conn := NewConnWithHash []\<rparr>"]
    by (simp add: NewConnWithHash_def)
  have lo: "length ?obf = 256" "d5SumValid (?obf ! 0xd5) (?obf ! 0xff)"
    using obf_markers [of ?o0] by (simp_all add: randArray_length_256)
  have lb: "length ?b = TUN_PARAMS_LEN + se_token_num senv * TKSZ"
    using tun_params_body_length [OF lr] lt by simp
  have m3: "?M3 = be16_put (of_nat (length ?b)) @ ?b" using lb by (simp add: tun_params_head_body)
  have m2: "?M2 = be16_put (of_nat (length (se_dh_pub senv))) @ se_dh_pub senv" using dh(3) by simp
  have hcl: "length ?Hc = TKSZ" "length ?Hs = TKSZ" using sha same(3) by simp_all
  have hc: "?Hc \<noteq> []" "length ?Hc \<le> TKSZ" "pad_to TKSZ ?Hc = ?Hc"
    using hcl(1) by (auto simp: wire_consts)
  have hs: "?Hs \<noteq> []" "length ?Hs \<le> TKSZ" "pad_to TKSZ ?Hs = ?Hs"
    using hcl(2) by (auto simp: wire_consts)
  have srv: "negotiate senv ?sst =
      (NegoRet (Some s) None,
       ?sst\<lparr>sv_conn := (sv_conn ?sst)\<lparr>hc_in := [], hc_rlog := ?M1 @ ?Hc, hc_wlog := ?M2 @ ?M3 @ ?Hs\<rparr>,
           sv_cipher := NewCipher cf None, sv_mgr := m2, sv_rng := g2, sv_identity := bytes_to_string uid\<rparr>)"
    using negotiate_run [of ?sst ?obf blk pubC ?Hc senv uid ex cf s m rnd g1 tokens g2 m2]
      m1 lo rsa(2,3) dh(2) auth cf ns ra ct hc fresh same(3)
    by (simp add: Let_def)
  have cf': "NewCipherFactory (ce_md5 cenv) (ce_algo cenv) (ce_shared_key cenv (se_dh_pub senv)) = Some cf"
    using cf same key by simp
  have vb: "version_check (ce_version cenv) (the (be32_get ?b)) = None"
    using ver tun_params_fields [OF lr] by simp
  have cli: "client_negotiate cenv ?cst =
     (Inr (tunParams0\<lparr>tp_cipherFactory := Some cf, tp_stInterval := unat (the (be16_get (drop 4 ?b))),
                        tp_dtInterval := unat (the (be16_get (drop 6 ?b))), tp_tunQty := unat (?b ! 8),
                        tp_token := drop TUN_PARAMS_LEN ?b\<rparr>),
      (requestAuthAndDHExchange cenv ?cst)\<lparr>cc_conn := (cc_conn (requestAuthAndDHExchange cenv ?cst))\<lparr>hc_in := [],
          hc_rlog := ?M2 @ ?M3 @ ?Hs, hc_wlog := ?M1 @ ?Hc\<rparr>, cc_cipher := NewCipher cf None\<rparr>)"
    using client_negotiate_run [of ?cst "se_dh_pub senv" ?b ?Hs cenv cf] m2 m3 dh(4,5) cf' lim(1) lb vb hs
      m1' same(3)
    by (simp add: Let_def wire_consts NewConnWithHash_def)
  have u: "unat (the (be16_get (drop 4 ?b))) = se_ctl_ping senv"
          "unat (the (be16_get (drop 6 ?b))) = se_dt_ping senv"
          "unat (?b ! 8) = unat (se_tun_qty senv)" "drop TUN_PARAMS_LEN ?b = tokens"
    using tun_params_fields [OF lr, of senv tokens] lim(2,3) by (simp_all add: unat_of_nat)
  have tk: "\<forall>i < se_token_num senv. sm_tokens m2 (take TKSZ (drop (i * TKSZ) tokens)) = Some s"
    using createTokens_maps [OF ct] by blast
  have s0: "s_negotiate None senv ?sst = negotiate senv ?sst" by (simp add: s_negotiate_def setSoTimeout_def)
  have c0: "d5c_negotiate (Some [?M2, ?M3, ?Hs]) None cenv cst = client_negotiate cenv ?cst"
    by (simp add: d5c_negotiate_def ThrowIf_def setSoTimeout_def)
  show ?thesis
    apply (rule exI [of _ s], rule exI [of _ tokens])
    apply (unfold Let_def ra fst_conv s0 c0 srv cli u)
    apply (simp add: tk lt)
    done
qed

theorem handshake_agreement_witness:
  "\<exists>s tokens.
    let M1 = hc_wlog (cc_conn (requestAuthAndDHExchange example_cenv ((example_cst [])\<lparr>cc_conn := NewConnWithHash []\<rparr>)));
        M2 = se_dh_pubLen example_env @ se_dh_pub example_env;
        M3 = tun_params_head example_env (fst (randArray (TUN_PARAMS_LEN + 2) (sv_rng (example_st [])))) @ tokens;
        Hc = ce_sha1 example_cenv (M2 @ M3);
        Hs = se_sha1 example_env M1;
        srv = s_negotiate None example_env ((example_st [])\<lparr>sv_conn := (sv_conn (example_st []))\<lparr>hc_in := [M1, Hc]\<rparr>\<rparr>);
        cli = d5c_negotiate (Some [M2, M3, Hs]) None example_cenv (example_cst []) in
    fst srv = NegoRet (Some s) None \<and> hc_wlog (sv_conn (snd srv)) = M2 @ M3 @ Hs
    \<and> fst cli = Inr (tunParams0\<lparr>tp_cipherFactory := Some (the (NewCipherFactory (\<lambda>x. replicate 16 7) ''RC4'' [9, 9])), tp_stInterval := se_ctl_ping example_env,
                     tp_dtInterval := se_dt_ping example_env, tp_tunQty := unat (se_tun_qty example_env), tp_token := tokens\<rparr>)
    \<and> hc_wlog (cc_conn (snd cli)) = M1 @ Hc
    \<and> cc_cipher (snd cli) = sv_cipher (snd srv) \<and> cc_cipher (snd cli) = NewCipher (the (NewCipherFactory (\<lambda>x. replicate 16 7) ''RC4'' [9, 9])) None
    \<and> length tokens = se_token_num example_env * TKSZ
    \<and> (\<forall>i < se_token_num example_env. sm_tokens (sv_mgr (snd srv)) (take TKSZ (drop (i * TKSZ) tokens)) = Some s)"
proof -
  show ?thesis
    by (rule handshake_agreement [where cenv = example_cenv and senv = example_env and cst = "example_cst []"
        and sst = "example_st []" and blk = "replicate 128 1" and uid = "replicate 128 1" and ex = AUTH_FAILED
        and pubC = "[9, 9]" and cf = "(the (NewCipherFactory (\<lambda>x. replicate 16 7) ''RC4'' [9, 9]))"])
      (simp_all add: example_cenv_def example_cst_def GenerateDHKeyPairs_def be16_put_def version_check_def
        wire_consts NewCipherFactory_def availableCiphers_def)
qed

end
