(* ===== verification/Spec2Isabelle.thy ===== *)
theory Spec2Isabelle
  imports Wire Exception Session Cipher Negotiation ConnPool PoolSpec Queue Router SendLoop Socks5 ClientNego Boot BootContext HttpProxy Usage Handshake
begin

text \<open>
  \<^bold>\<open>A verification development of deblocus.\<close>

  deblocus is an encrypted tunnelling proxy.  A client and a server run a handshake
  over one TCP connection (\<open>src/tunnel/d5.go\<close>): identity verification under RSA, a
  Diffie-Hellman exchange, the choice of a stream cipher (\<open>src/tunnel/cipher.go\<close>),
  tunnel parameters and a list of session tokens, and a cross-check of the hashes of
  everything read and written.  A later connection that presents one of the tokens
  becomes a further data tunnel of the same session.  Over the tunnels a multiplexer
  carries many logical streams; each stream end (an edge) has an ordered send queue
  that writes to the local socket (\<open>src/tunnel/queue.go\<close>), and the client picks a
  tunnel for every new stream from a priority pool (\<open>src/tunnel/connPool.go\<close>).
  Failures are exceptions of \<open>src/exception/exception.go\<close>, thrown as Go panics.

  \<^bold>\<open>Theories.\<close>
  \<^item> \<open>Prelude\<close>: byte and word types (\<open>byte = 8 word\<close>, \<open>i64 = 64 word\<close>), the
    big-endian 16- and 32-bit field codec of \<open>encoding/binary\<close> with its round trips,
    and list and word lemmas shared by the components (collection \<open>wire_simps\<close>).
  \<^item> \<open>Wire\<close>: the constants of \<open>d5.go\<close>, the D5 marker arithmetic \<open>d5Sub\<close> and
    \<open>d5SumValid\<close> on signed bytes (\<open>int8\<close> wrap written out with
    \<open>signed_take_bit 7\<close>), \<open>ito4b\<close>, \<open>randArray\<close> over an explicit random stream, and
    the reads of a connection: \<open>hconn\<close> holds the peer's bytes as the chunks successive
    \<open>Read\<close> calls return (a TCP read may return less than asked for), so one \<open>Read\<close>
    (\<open>conn_read\<close>), \<open>io.ReadFull\<close> (\<open>read_full\<close>) and \<open>ReadFullByLen\<close> are exact.
  \<^item> \<open>Exception\<close>: the exception record, \<open>Apply\<close>, \<open>NewW\<close>, \<open>New\<close>,
    \<open>CatchException\<close> and the exception values of the tunnel package.
  \<^item> \<open>Session\<close>: the session manager that \<open>d5.go\<close> calls (its source is not in the
    repository; modelled from the specification, section 4.4): a session store, a token
    map, minting from the random stream, atomic take; an inductive step relation with a
    reachable-state invariant, and single use of tokens over any run of operations.
  \<^item> \<open>Cipher\<close>: \<open>toSecretKey\<close>, the cipher table, \<open>NewCipherFactory\<close> and the IV rule of
    \<open>NewCipher\<close>, with MD5 as a parameter.
  \<^item> \<open>Negotiation\<close>: the server side of the handshake, \<open>d5SNegotiation\<close> (\<open>negotiate\<close>,
    \<open>transSession\<close>, \<open>verifyThenDHExchange\<close>, \<open>respondTestWithToken\<close>), as state-passing
    functions on \<open>srv_st\<close>; RSA, authentication, DH, SHA-1 and MD5 are fields of
    \<open>srv_env\<close>; a panic is the outcome \<open>NegoPanic\<close>.
  \<^item> \<open>ConnPool\<close>: the tunnel pool, \<open>Push\<close>, \<open>Remove\<close>, \<open>Select\<close>, \<open>destroy\<close>, with
    \<open>int64\<close> ranks as 64-bit words and \<open>sort.Sort\<close> as a sort by descending rank.
  \<^item> \<open>PoolSpec\<close>: an abstract specification of the pool (a multiset of tunnels with
    integer ranks; \<open>Select\<close> as a relation that may return any tunnel of maximal rank),
    the abstraction \<open>pool_abs\<close>, and the refinement of every sequence of pool calls.
  \<^item> \<open>Queue\<close>: edges, the egress router and the per-edge queue.  Edges live in an
    explicit store (a list indexed by edge id) because the router, the frames and the
    queues share them; the registry is an association list, \<open>None\<close> once destroyed;
    one iteration of \<open>sendLoop\<close> is \<open>sendLoop_step\<close>, and an interleaving of the tunnel
    reader's deliveries with the loops' iterations is a list of events run by
    \<open>q_run\<close>.  The local socket answers each write from a script of (bytes accepted,
    error) pairs.
  \<^item> \<open>Router\<close>: \<open>newEgressRouter\<close>, the cleaner goroutine (\<open>cleanTask\<close> as one
    \<open>select\<close> case per event, the buffered stop channel as a list) and \<open>stopCleanTask\<close>;
    the well-formedness \<open>mux_wf\<close> of the whole multiplexer state and its preservation
    by every router and queue operation (\<open>mux_step\<close>).
  \<^item> \<open>SendLoop\<close>: \<open>sendLoop\<close> as a whole, the total function \<open>sendLoop_run\<close>, which
    repeats \<open>sendLoop_step\<close> until the loop waits or has exited; its termination measure
    is the length of the edge's buffer.
  \<^item> \<open>Socks5\<close>: the local front end of \<open>d5.go\<close>: \<open>Handshake\<close> (greeting read with
    \<open>io.ReadAtLeast\<close>, \<open>read_at_least\<close>), \<open>parseSocks5Request\<close> with its address
    switch, \<open>respondSocks5\<close> and \<open>detectProtocol\<close> on the state \<open>S5Step1\<close>; a client's
    request encoder \<open>s5_request\<close> states the round trip.  Text formatting
    (\<open>strconv.Itoa\<close>, \<open>% x\<close>) is written out, so messages are exact.
  \<^item> \<open>ClientNego\<close>: the client side of the handshake, \<open>d5CNegotiation\<close>
    (\<open>requestAuthAndDHExchange\<close>, \<open>finishDHExThenSetupCipher\<close>,
    \<open>validateAndGetTokens\<close>, \<open>client_negotiate\<close>) on \<open>cli_st\<close> with the primitives in
    \<open>cli_env\<close>; \<open>d5c_negotiate\<close> adds the dial (\<open>ThrowIf\<close> of
    \<open>D5SER_UNREACHABLE\<close>) and the deadline (\<open>setSoTimeout\<close>) on a fresh hashed connection.
  \<^item> \<open>Handshake\<close>: the two sides run against each other.  Each side's \<open>negotiate\<close>
    takes its whole input up front, so the exchange is stated with each side's input the
    list of the other side's writes, one segment per write: the server's run on a
    request (\<open>negotiate_run\<close>), the client's run on the server's answers
    (\<open>client_negotiate_run\<close>), and their agreement.
  \<^item> \<open>Boot\<close>: \<open>src/version.go\<close> (the packed \<open>version\<close>, \<open>versionString\<close>) and
    \<open>src/bootContext.go\<close> (\<open>setLogVerbose\<close>, \<open>NewClientMgr\<close>, \<open>selectClient\<close>): a
    client is its \<open>State\<close> word, the draw \<open>rand.Intn(num<<4)\<close> is a parameter.
  \<^item> \<open>BootContext\<close>: \<open>parse\<close> (role and file detection as parameters, the package
    variables \<open>VERSION\<close>, \<open>VER_STRING\<close>, \<open>DEBUG\<close> as \<open>globals\<close>), \<open>csc_process\<close>,
    \<open>selectClientServ\<close>, \<open>Stats\<close>, \<open>doStats\<close> and the accept loops of
    \<open>startClient\<close> and \<open>startServer\<close> on a finite prefix of the listener's results,
    and their deferred recovery of a configuration that fails to parse.
  \<^item> \<open>HttpProxy\<close>: \<open>httpProxyHandshake\<close> of \<open>d5.go\<close>, with \<open>http.ReadRequest\<close>,
    \<open>Request.Write\<close> and \<open>net.SplitHostPort\<close> as the parameters \<open>http_lib\<close>, and
    \<open>VER_STRING\<close> the \<open>versionString\<close> of \<open>Boot\<close> that \<open>bootContext.parse\<close> stores.
  \<^item> \<open>Usage\<close>: \<open>showUsage\<close> of \<open>src/version.go\<close> as the text it prints: the
    \<open>VisitAll\<close> callback per flag (\<open>mk_carg\<close>, with \<open>strings.SplitN\<close> as
    \<open>SplitN2\<close> of the \<open>Prelude\<close> and the regular expression \<open>(?i)true|false\<close> as an
    unanchored, case-folding search), the grouping map as an association list
    (\<open>group_args\<close>), and the print loop, whose map iteration order is a parameter.

  \<^bold>\<open>What is proved.\<close>  Handshake (C1, C2, C33): every token the server sends, whatever the
  hash cross-check decides, turns one later connection into a data tunnel of the session
  and is then spent; an unrecognised first read is refused with
  \<open>NEGOTIATION_FAILED\<close>; every handshake keeps the session manager it shares with the
  others well formed (C33: tokens name live sessions, ids were allocated, tokens are 20
  bytes).  Queues (C3-C8): bytes reach the local socket in delivery order
  under any interleaving; after \<open>CLOSE_W\<close> no byte is written; a failed write closes the
  edge and tells the peer once; the send loop drains its buffer on a socket that takes
  every write (liveness) and always comes to rest (termination); every operation keeps
  the multiplexer well formed (type).  SOCKS5 and HTTP (C9-C12, C26, C31, C32): a greeting
  is accepted only when it arrives without request bytes behind it (a defect of the
  \<open>ReadAtLeast\<close> test), the request encoding parses back to the address, a bad greeting
  is refused, the protocol sniffer's classes; the \<open>CONNECT\<close> reply ends two bytes past
  its header block because \<open>VER_STRING\<close> ends in a newline, a failing \<open>CONNECT\<close> panics
  after the \<open>200\<close> reply, and a plain request is pushed back without its \<open>Proxy*\<close>
  headers.  Client handshake (C13-C16): run against each other, the two sides agree on
  the session, the parameters, the tokens and the cipher; the parameter block the server
  writes reads back exactly, a refusal is
  \<open>AUTH_FAILED\<close>, and the exact version rule.  Client manager (C17, C18, C28, C34): the
  selection window is one entry short, so with 2 to 256 endpoints an available client can
  be missed; what it
  returns otherwise; a returned client is usable and below index 256; the accept loop
  serves or closes every connection and panics only without endpoints.  Cipher (C19,
  C20): the exact layout of the expanded key and the factory's result for every name.
  Pool (C21-C24): \<open>Select\<close> takes a tunnel of maximal rank, with \<open>int64\<close>
  wrap-around; equal-rank tunnels are served round robin; the pool refines its multiset
  specification over any sequence of calls; \<open>Remove\<close> equals deleting the last occurrence.  Router (C25, C27, C37): the effect of
  \<open>cleanOfTun\<close>, the panics after \<open>destroy\<close>, and the cleaner goroutine ending after
  \<open>destroy\<close>.  Boot (C29, C30, C35, C36): the version word reads
  back as its fields, the verbosity rule, what \<open>parse\<close> publishes or when it exits, and
  credential issuing.  Usage (C38-C40): a flag's usage text \<open>g;;u//e\<close> is read back
  as group, usage and example; every flag has its line in the help whatever the map's
  order; a default that merely contains \<open>true\<close> or \<open>false\<close> is hidden (the pattern is
  not anchored).  Each theorem with hypotheses has a witness at a concrete state.
  The \<open>Prelude\<close> and \<open>Wire\<close> theories prove the codec round trips and the marker law
  \<open>d5SumValid a b \<longleftrightarrow> a + b = D5\<close> on bytes; \<open>Session\<close> proves its invariant by rule
  induction.

  \<^bold>\<open>Bounds and fuel.\<close>  No loop of the modelled code needs fuel: every loop walks a
  finite list (the pool, the registry, the queue buffer, the tokens, the client chain)
  and is structural recursion or a \<open>fold\<close>.  The send loop, which blocks on an empty
  buffer, is a step function whose blocked case is \<open>None\<close>, and its repetition
  \<open>sendLoop_run\<close> is a \<open>function\<close> whose termination is proved with the buffer length
  as measure, so no fuel bound is needed.  The never-ending loops (the cleaner, the
  accept loop) are modelled on finite event sequences of arbitrary length.  \<open>int64\<close> ranks are 64-bit
  words, so their wrap-around after \<open>2^63\<close> selections is part of the model, not
  excluded by a bound.  The client chain holds bytes; the window theorem assumes at most
  256 endpoints, and the bound theorem shows what happens beyond.

  \<^bold>\<open>Not modelled.\<close>  The HTTP request parser and writer and \<open>net.SplitHostPort\<close>
  are Go library code: parameters, not definitions.  The multiplexer, the frame codec and \<open>tunnel.Client\<close> are not part of the
  repository: the frame type follows the specification and a client is its state word.
  \<open>startServer\<close> hands connections to \<open>tunnel.Server\<close>, which is absent, so its
  goroutine is the action \<open>TunnelServe\<close>; the log output is not modelled; \<open>closeR\<close> is called nowhere in \<open>src/\<close>, and the
  RSA/DH wrappers of \<open>cipher.go\<close> (\<open>RSAEncrypt\<close>, \<open>RSADecrypt\<close>,
  \<open>GenerateRSAKeyPair\<close>, \<open>takeSharedKey\<close>) only call the library, whose results are
  the parameters of \<open>cli_env\<close> and \<open>srv_env\<close>.  A deadline that expires is not
  modelled: a timed-out read is an I/O error like \<open>EOF\<close>.
  The cryptographic primitives and the operating system's sockets are parameters: the
  model states what the code does with their results, not their security.  For
  \<open>showUsage\<close>, the flag set that \<open>flag.VisitAll\<close> visits and the program name
  \<open>filepath.Base(os.Args[0])\<close> are parameters, and the regular expression folds ASCII
  letters only (Go's Unicode folding also maps the long s and the Kelvin sign).  Locks
  are implicit: each operation is one atomic step, as the mutexes of the code make it.
\<close>

end
